(* ===== verification/FT_Prelude.thy ===== *)
theory FT_Prelude
  imports Complex_Main "HOL-Library.Signed_Division"
begin

text \<open>
  The shared vocabulary of the development: the two's complement reading of a
  64-bit store, C's truncating division, the composition of computations that
  may call \<^verbatim>\<open>exit()\<close>, and the generic facts on them that every component uses.
\<close>

section \<open>Proof collections\<close>

named_theorems exit_simps \<open>evaluation of computations that may exit\<close>
named_theorems c_int_simps \<open>C integer arithmetic\<close>

section \<open>64-bit signed integers\<close>

text \<open>
  The model's platform is LP64: \<^verbatim>\<open>time_t\<close>, \<^verbatim>\<open>long\<close> and \<^verbatim>\<open>int64_t\<close> are 64 bits wide.
  Values are kept as \<^typ>\<open>int\<close>; a store that converts to a 64-bit signed type
  is written \<open>wrap_s64\<close>.
\<close>

abbreviation (input) S64_MAX :: int where "S64_MAX \<equiv> 9223372036854775807"
abbreviation (input) S64_MIN :: int where "S64_MIN \<equiv> - 9223372036854775808"

definition in_s64 :: "int \<Rightarrow> bool" where
  "in_s64 x \<longleftrightarrow> S64_MIN \<le> x \<and> x \<le> S64_MAX"

definition wrap_s64 :: "int \<Rightarrow> int" where
  "wrap_s64 x = (x + 9223372036854775808) mod 18446744073709551616 - 9223372036854775808"

lemma in_s64_wrap [simp, intro]: "in_s64 (wrap_s64 x)"
proof -
  have "0 \<le> (x + 9223372036854775808) mod 18446744073709551616"
    and "(x + 9223372036854775808) mod 18446744073709551616 < 18446744073709551616"
    by simp_all
  then show ?thesis unfolding in_s64_def wrap_s64_def by linarith
qed

lemma wrap_s64_id [c_int_simps]: "in_s64 x \<Longrightarrow> wrap_s64 x = x"
  by (simp add: in_s64_def wrap_s64_def)

lemma wrap_s64_cong: "wrap_s64 x mod 18446744073709551616 = x mod 18446744073709551616"
  unfolding wrap_s64_def by (simp add: mod_diff_left_eq)

text \<open>The same for \<^verbatim>\<open>int\<close>, 32 bits wide.\<close>

definition in_s32 :: "int \<Rightarrow> bool" where
  "in_s32 x \<longleftrightarrow> - 2147483648 \<le> x \<and> x \<le> 2147483647"

definition wrap_s32 :: "int \<Rightarrow> int" where
  "wrap_s32 x = (x + 2147483648) mod 4294967296 - 2147483648"

lemma wrap_s32_id [c_int_simps]: "in_s32 x \<Longrightarrow> wrap_s32 x = x"
  by (simp add: in_s32_def wrap_s32_def)

section \<open>C division\<close>

text \<open>C's \<^verbatim>\<open>/\<close> and \<^verbatim>\<open>%\<close> truncate towards zero: \<open>sdiv\<close> and \<open>smod\<close> of the library.\<close>

lemma smod_nonneg [c_int_simps]: "0 \<le> a \<Longrightarrow> 0 < b \<Longrightarrow> (a::int) smod b = a mod b"
  by (simp add: smod_int_alt_def sgn_if)

lemma sdiv_nonneg [c_int_simps]: "0 \<le> a \<Longrightarrow> 0 < b \<Longrightarrow> (a::int) sdiv b = a div b"
  by (auto simp: signed_divide_int_def sgn_if)

lemma smod_neg: "a \<le> 0 \<Longrightarrow> 0 < b \<Longrightarrow> (a::int) smod b = - ((- a) mod b)"
  by (auto simp: smod_int_alt_def sgn_if)

lemma sdiv_neg: "a \<le> 0 \<Longrightarrow> 0 < b \<Longrightarrow> (a::int) sdiv b = - ((- a) div b)"
  by (auto simp: signed_divide_int_def sgn_if)

lemma sdiv_smod: "(a::int) sdiv b * b + a smod b = a"
  by (rule sdiv_mult_smod_eq)

lemma mult_sdiv: "0 < b \<Longrightarrow> (q * b) sdiv b = (q::int)"
  by (cases "0 \<le> q") (simp_all add: sdiv_nonneg sdiv_neg mult_nonpos_nonneg flip: mult_minus_left)

lemma minus_smod_sdiv: "0 < b \<Longrightarrow> ((a::int) - a smod b) sdiv b = a sdiv b"
  by (simp add: minus_smod_eq_sdiv_mult mult_sdiv)

text \<open>
  The correction every normalisation of the sources makes after a truncating
  division (subtract one, add the unit when the remainder is negative) is the
  division towards minus infinity.
\<close>

lemma floor_from_trunc:
  assumes b: "0 < b"
  shows "(if (a::int) smod b < 0 then a sdiv b - 1 else a sdiv b) = a div b"
    and "(if a smod b < 0 then a smod b + b else a smod b) = a mod b"
proof -
  let ?r = "if a smod b < 0 then a smod b + b else a smod b"
  let ?q = "if a smod b < 0 then a sdiv b - 1 else a sdiv b"
  have lo: "- b < a smod b" and hi: "a smod b < b"
    using smod_int_range [of b a] b by auto
  have eq: "a = ?q * b + ?r" using sdiv_smod [of a b] by (auto simp: algebra_simps)
  have r: "0 \<le> ?r" "?r < b" using lo hi by auto
  have eq': "a = b * ?q + ?r" using eq by (simp add: mult.commute)
  show "?q = a div b" using int_div_pos_eq [OF eq' r] by (rule sym)
  show "?r = a mod b" using int_mod_pos_eq [OF eq' r] by (rule sym)
qed

lemma le_div_iff_mult: "0 < b \<Longrightarrow> n \<le> (x::int) div b \<longleftrightarrow> n * b \<le> x"
proof
  assume b: "0 < b" and "n \<le> x div b"
  then have "n * b \<le> x div b * b" by simp
  also have "\<dots> \<le> x" using b by (metis minus_mod_eq_div_mult pos_mod_sign diff_le_eq le_add_same_cancel1)
  finally show "n * b \<le> x" .
next
  assume b: "0 < b" and "n * b \<le> x"
  then have "n * b div b \<le> x div b" by (intro zdiv_mono1)
  then show "n \<le> x div b" using b by simp
qed

lemma div_mod_of_sum:
  assumes "0 \<le> u" "u < (b::int)" shows "(s * b + u) div b = s" "(s * b + u) mod b = u"
  using assms by simp_all

section \<open>Computations that may exit\<close>

text \<open>
  A diagnostic followed by \<^verbatim>\<open>exit(status)\<close> ends the process: the model returns
  \<open>Inl (Exit status diagnostic)\<close>, and everything else \<open>Inr\<close> of its result.
\<close>

datatype ft_exit = Exit (exit_status: int) (exit_diag: string)

abbreviation (input) EXIT_FAILURE :: int where "EXIT_FAILURE \<equiv> 1"

type_synonym 'a exitable = "ft_exit + 'a"

definition exit_bind :: "'a exitable \<Rightarrow> ('a \<Rightarrow> 'b exitable) \<Rightarrow> 'b exitable" where
  "exit_bind m f = (case m of Inl e \<Rightarrow> Inl e | Inr x \<Rightarrow> f x)"

lemma exit_bind_Inl [simp, exit_simps]: "exit_bind (Inl e) f = Inl e"
  and exit_bind_Inr [simp, exit_simps]: "exit_bind (Inr x) f = f x"
  by (simp_all add: exit_bind_def)

lemma exit_bind_eq_Inr [exit_simps]:
  "exit_bind m f = Inr y \<longleftrightarrow> (\<exists>x. m = Inr x \<and> f x = Inr y)"
  by (cases m) (simp_all add: exit_bind_def)

lemma exit_bind_eq_Inl:
  "exit_bind m f = Inl e \<longleftrightarrow> m = Inl e \<or> (\<exists>x. m = Inr x \<and> f x = Inl e)"
  by (cases m) (simp_all add: exit_bind_def)

lemma exit_bind_assoc: "exit_bind (exit_bind m f) g = exit_bind m (\<lambda>x. exit_bind (f x) g)"
  by (cases m) simp_all

lemma exit_bind_cong [fundef_cong]:
  "m = m' \<Longrightarrow> (\<And>x. m' = Inr x \<Longrightarrow> f x = f' x) \<Longrightarrow> exit_bind m f = exit_bind m' f'"
  by (cases m') (simp_all add: exit_bind_def)

text \<open>Every normal result satisfies a property; an exit satisfies it vacuously.\<close>

definition returns :: "'a exitable \<Rightarrow> ('a \<Rightarrow> bool) \<Rightarrow> bool" where
  "returns m P = (case m of Inl e \<Rightarrow> True | Inr x \<Rightarrow> P x)"

lemma returns_Inl [simp]: "returns (Inl e) P"
  and returns_Inr [simp]: "returns (Inr x) P = P x"
  by (simp_all add: returns_def)

lemma returnsD: "returns m P \<Longrightarrow> m = Inr x \<Longrightarrow> P x"
  by simp

lemma returns_bind [intro]:
  "returns m P \<Longrightarrow> (\<And>x. P x \<Longrightarrow> returns (f x) Q) \<Longrightarrow> returns (exit_bind m f) Q"
  by (cases m) simp_all

lemma returns_mono: "returns m P \<Longrightarrow> (\<And>x. P x \<Longrightarrow> Q x) \<Longrightarrow> returns m Q"
  by (cases m) simp_all

end
