(* ===== verification/C_Float.thy ===== *)
theory C_Float
  imports FT_Prelude "HOL-Library.Log_Nat"
begin

text \<open>
  C's \<^verbatim>\<open>double\<close> and the x86-64 \<^verbatim>\<open>long double\<close> (the x87 80-bit format), as the
  sources use them: the finite values as rationals, the two infinities and NaN,
  and every operation as the exact result rounded to nearest, ties to even.
  The sign of zero is not represented: the sources only compare, convert to an
  integer, or test \<^verbatim>\<open>isfinite\<close>.
\<close>

section \<open>Formats and rounding\<close>

record float_format =
  precision :: nat   \<comment> \<open>bits of the significand\<close>
  emax :: nat        \<comment> \<open>finite values are below \<open>2 ^ emax\<close>\<close>
  qmin :: int        \<comment> \<open>exponent of the smallest positive value\<close>

definition c_double :: float_format where
  "c_double = \<lparr>precision = 53, emax = 1024, qmin = - 1074\<rparr>"

definition c_long_double :: float_format where
  "c_long_double = \<lparr>precision = 64, emax = 16384, qmin = - 16445\<rparr>"

datatype cfloat = Fin rat | Infty bool | NaN

definition isfinite :: "cfloat \<Rightarrow> bool" where
  "isfinite x = (case x of Fin _ \<Rightarrow> True | _ \<Rightarrow> False)"

text \<open>The binary exponent of a positive rational.\<close>

definition ilog2 :: "rat \<Rightarrow> int" where
  "ilog2 x = (case quotient_of x of (n, d) \<Rightarrow>
     (let k = bitlen n - bitlen d in if 2 powi k \<le> x then k else k - 1))"

definition round_ne :: "rat \<Rightarrow> int" where
  "round_ne y = (let f = floor y; r = y - of_int f in
     if r < 1/2 then f else if r > 1/2 then f + 1 else if even f then f else f + 1)"

definition quantum :: "float_format \<Rightarrow> rat \<Rightarrow> int" where
  "quantum F x = max (ilog2 \<bar>x\<bar> - int (precision F) + 1) (qmin F)"

definition fl_rat :: "float_format \<Rightarrow> rat \<Rightarrow> rat" where
  "fl_rat F x = (if x = 0 then 0
     else of_int (round_ne (x / 2 powi quantum F x)) * 2 powi quantum F x)"

definition fl_round :: "float_format \<Rightarrow> rat \<Rightarrow> cfloat" where
  "fl_round F x = (let y = fl_rat F x in
     if y \<noteq> 0 \<and> int (emax F) \<le> ilog2 \<bar>y\<bar> then Infty (0 < y) else Fin y)"

section \<open>Arithmetic\<close>

definition fl_sgn :: "cfloat \<Rightarrow> rat" where
  "fl_sgn x = (case x of Fin a \<Rightarrow> sgn a | Infty p \<Rightarrow> (if p then 1 else - 1) | NaN \<Rightarrow> 0)"

fun fl_mul :: "float_format \<Rightarrow> cfloat \<Rightarrow> cfloat \<Rightarrow> cfloat" where
  "fl_mul F NaN y = NaN"
| "fl_mul F x NaN = NaN"
| "fl_mul F (Fin a) (Fin b) = fl_round F (a * b)"
| "fl_mul F x y = (if fl_sgn x * fl_sgn y = 0 then NaN else Infty (0 < fl_sgn x * fl_sgn y))"

fun fl_add :: "float_format \<Rightarrow> cfloat \<Rightarrow> cfloat \<Rightarrow> cfloat" where
  "fl_add F NaN y = NaN"
| "fl_add F x NaN = NaN"
| "fl_add F (Fin a) (Fin b) = fl_round F (a + b)"
| "fl_add F (Infty p) (Infty q) = (if p = q then Infty p else NaN)"
| "fl_add F (Infty p) (Fin b) = Infty p"
| "fl_add F (Fin a) (Infty q) = Infty q"

text \<open>Division: by zero it is an infinity of the dividend's sign (a positive zero).\<close>

fun fl_div :: "float_format \<Rightarrow> cfloat \<Rightarrow> cfloat \<Rightarrow> cfloat" where
  "fl_div F NaN y = NaN"
| "fl_div F x NaN = NaN"
| "fl_div F (Fin a) (Fin b) =
     (if b = 0 then (if a = 0 then NaN else Infty (0 < a)) else fl_round F (a / b))"
| "fl_div F (Infty p) (Infty q) = NaN"
| "fl_div F (Infty p) (Fin b) = Infty (p = (0 \<le> b))"
| "fl_div F (Fin a) (Infty q) = Fin 0"

text \<open>The comparisons; every comparison with NaN is false.\<close>

fun fl_less :: "cfloat \<Rightarrow> cfloat \<Rightarrow> bool" where
  "fl_less (Fin a) (Fin b) = (a < b)"
| "fl_less (Infty p) (Fin b) = (\<not> p)"
| "fl_less (Fin a) (Infty q) = q"
| "fl_less (Infty p) (Infty q) = (\<not> p \<and> q)"
| "fl_less _ _ = False"

fun fl_le :: "cfloat \<Rightarrow> cfloat \<Rightarrow> bool" where
  "fl_le (Fin a) (Fin b) = (a \<le> b)"
| "fl_le (Infty p) (Fin b) = (\<not> p)"
| "fl_le (Fin a) (Infty q) = q"
| "fl_le (Infty p) (Infty q) = (p \<longrightarrow> q)"
| "fl_le _ _ = False"

text \<open>Conversion to an integer truncates; only finite values are converted.\<close>

definition trunc_rat :: "rat \<Rightarrow> int" where
  "trunc_rat x = (if 0 \<le> x then \<lfloor>x\<rfloor> else - \<lfloor>- x\<rfloor>)"

fun fl_trunc :: "cfloat \<Rightarrow> int" where
  "fl_trunc (Fin a) = trunc_rat a"
| "fl_trunc _ = 0"

definition fl_of_int :: "float_format \<Rightarrow> int \<Rightarrow> cfloat" where
  "fl_of_int F n = fl_round F (of_int n)"

section \<open>Truncation\<close>

lemma trunc_rat_ge: "of_int n \<le> y \<Longrightarrow> n \<le> trunc_rat y"
  by (simp add: trunc_rat_def le_floor_iff) linarith

lemma trunc_rat_less: "y < of_int n \<Longrightarrow> 0 < n \<Longrightarrow> trunc_rat y < n"
proof -
  assume y: "y < of_int n" and n: "0 < n"
  show ?thesis
  proof (cases "0 \<le> y")
    case True
    with y show ?thesis by (simp add: trunc_rat_def floor_less_iff)
  next
    case False
    then have "0 \<le> \<lfloor>- y\<rfloor>" by simp
    with False n show ?thesis by (simp only: trunc_rat_def if_False)
  qed
qed

lemma trunc_rat_mono: "x \<le> y \<Longrightarrow> trunc_rat x \<le> trunc_rat y"
proof -
  assume xy: "x \<le> y"
  have "- \<lfloor>- x\<rfloor> \<le> \<lfloor>y\<rfloor>" if "x < 0" "0 \<le> y"
  proof -
    have "- \<lfloor>- x\<rfloor> \<le> 0" and "0 \<le> \<lfloor>y\<rfloor>" using that by simp_all
    then show ?thesis by linarith
  qed
  moreover have "\<lfloor>- y\<rfloor> \<le> \<lfloor>- x\<rfloor>" and "\<lfloor>x\<rfloor> \<le> \<lfloor>y\<rfloor>" using xy by (simp_all add: floor_mono)
  ultimately show ?thesis using xy by (simp add: trunc_rat_def)
qed

lemma trunc_rat_of_int [simp]: "trunc_rat (of_int n) = n"
  by (simp add: trunc_rat_def flip: of_int_minus)

lemma trunc_rat_error: "\<bar>of_int (trunc_rat y) - y\<bar> < 1"
  unfolding trunc_rat_def by (simp add: abs_if) linarith

section \<open>The binary exponent\<close>

lemma trunc_rat_small: "\<bar>y\<bar> < 1 \<Longrightarrow> trunc_rat y = 0"
  by (auto simp: trunc_rat_def floor_eq_iff)

lemma bitlen_powi_bounds:
  assumes "0 < n"
  shows "(2::rat) powi (bitlen n - 1) \<le> of_int n" and "of_int n < (2::rat) powi bitlen n"
proof -
  have pos: "0 < bitlen n" using assms bitlen_ge_iff_power [of 1 n] by simp
  have "(2::rat) powi (bitlen n - 1) = of_int (2 ^ nat (bitlen n - 1))"
    using pos by (simp add: power_int_def)
  then show "(2::rat) powi (bitlen n - 1) \<le> of_int n"
    using bitlen_bounds [OF assms] by (simp only: of_int_le_iff)
  have "(2::rat) powi bitlen n = of_int (2 ^ nat (bitlen n))"
    using pos by (simp add: power_int_def)
  then show "of_int n < (2::rat) powi bitlen n"
    using bitlen_bounds [OF assms] by (simp only: of_int_less_iff)
qed

lemma ilog2_bounds:
  assumes "0 < x"
  shows "2 powi ilog2 x \<le> x" and "x < 2 powi (ilog2 x + 1)"
proof -
  obtain n d where q: "quotient_of x = (n, d)" by (cases "quotient_of x")
  have d: "0 < d" using q by (rule quotient_of_denom_pos)
  have x: "x = of_int n / of_int d" using q by (rule quotient_of_div)
  have n: "0 < n" using assms d x by (simp add: zero_less_divide_iff)
  define k where "k = bitlen n - bitlen d"
  note nb = bitlen_powi_bounds [OF n] and db = bitlen_powi_bounds [OF d]
  have up: "x < 2 powi (k + 1)"
  proof -
    have e: "(2::rat) powi bitlen n = 2 powi (k + 1) * 2 powi (bitlen d - 1)"
      by (simp add: power_int_add [symmetric] k_def)
    have "of_int n < (2::rat) powi (k + 1) * 2 powi (bitlen d - 1)" using nb(2) e by simp
    also have "\<dots> \<le> 2 powi (k + 1) * of_int d" using db(1) by (intro mult_left_mono) auto
    finally show ?thesis using d by (simp add: x divide_less_eq)
  qed
  have lo: "2 powi (k - 1) \<le> x"
  proof -
    have e: "(2::rat) powi (bitlen n - 1) = 2 powi (k - 1) * 2 powi bitlen d"
      by (simp add: power_int_add [symmetric] k_def)
    have "2 powi (k - 1) * of_int d \<le> (2::rat) powi (k - 1) * 2 powi bitlen d"
      using db(2) by (intro mult_left_mono) auto
    also have "\<dots> \<le> of_int n" using nb(1) e by simp
    finally show ?thesis using d by (simp add: x le_divide_eq)
  qed
  have "ilog2 x = (if 2 powi k \<le> x then k else k - 1)"
    by (simp add: ilog2_def q k_def Let_def)
  then show "2 powi ilog2 x \<le> x" and "x < 2 powi (ilog2 x + 1)"
    using up lo by (auto split: if_splits)
qed

lemma powi2_less_iff [simp]: "(2::rat) powi a < 2 powi b \<longleftrightarrow> a < b"
proof
  assume "(2::rat) powi a < 2 powi b"
  then show "a < b"
    using power_int_increasing [of b a "2::rat"] by (cases "a < b") auto
qed (rule power_int_strict_increasing, simp_all)

lemma powi2_le_iff [simp]: "(2::rat) powi a \<le> 2 powi b \<longleftrightarrow> a \<le> b"
  by (simp add: linorder_not_less [symmetric])

lemma ilog2_unique:
  assumes "2 powi e \<le> x" and "x < 2 powi (e + 1)"
  shows "ilog2 x = e"
proof -
  have x: "0 < x" using assms(1) zero_less_power_int [of "2::rat" e] by linarith
  have "(2::rat) powi e < 2 powi (ilog2 x + 1)" using assms(1) ilog2_bounds(2) [OF x] by linarith
  moreover have "(2::rat) powi ilog2 x < 2 powi (e + 1)"
    using assms(2) ilog2_bounds(1) [OF x] by linarith
  ultimately show ?thesis by simp
qed

lemma ilog2_mono: "0 < x \<Longrightarrow> x \<le> y \<Longrightarrow> ilog2 x \<le> ilog2 y"
proof -
  assume x: "0 < x" and y: "x \<le> y"
  have "(2::rat) powi ilog2 x < 2 powi (ilog2 y + 1)"
    using ilog2_bounds(1) [OF x] ilog2_bounds(2) [of y] x y by linarith
  then show ?thesis by simp
qed

lemma ilog2_less: "0 < x \<Longrightarrow> x < 2 powi e \<Longrightarrow> ilog2 x < e"
  using ilog2_bounds(1) [of x] powi2_less_iff [of "ilog2 x" e] by linarith

lemma ilog2_ge: "2 powi e \<le> x \<Longrightarrow> e \<le> ilog2 x"
proof -
  assume a: "2 powi e \<le> x"
  then have x: "0 < x" using zero_less_power_int [of "2::rat" e] by linarith
  have "(2::rat) powi e < 2 powi (ilog2 x + 1)" using a ilog2_bounds(2) [OF x] by linarith
  then show ?thesis by simp
qed

section \<open>Rounding to an integer\<close>

lemma round_ne_of_int [simp]: "round_ne (of_int n) = n"
  by (simp add: round_ne_def)

lemma round_ne_floor: "\<lfloor>y\<rfloor> \<le> round_ne y" "round_ne y \<le> \<lfloor>y\<rfloor> + 1"
  by (simp_all add: round_ne_def Let_def)

lemma round_ne_error: "\<bar>of_int (round_ne y) - y\<bar> \<le> 1/2"
proof -
  define r where "r = y - of_int \<lfloor>y\<rfloor>"
  have "0 \<le> r" and "r < 1" unfolding r_def by linarith+
  moreover have "of_int (round_ne y) - y = (if r < 1/2 then - r else if r > 1/2 then 1 - r
      else if even \<lfloor>y\<rfloor> then - r else 1 - r)"
    by (simp add: round_ne_def Let_def r_def)
  ultimately show ?thesis by (auto simp: abs_if)
qed

lemma round_ne_le: "y \<le> of_int n \<Longrightarrow> round_ne y \<le> n"
proof -
  assume y: "y \<le> of_int n"
  show ?thesis
  proof (cases "y = of_int n")
    case False
    with y have "\<lfloor>y\<rfloor> < n" by (simp add: floor_less_iff)
    then show ?thesis using round_ne_floor(2) [of y] by linarith
  qed simp
qed

lemma round_ne_ge: "of_int n \<le> y \<Longrightarrow> n \<le> round_ne y"
  by (rule order_trans [OF _ round_ne_floor(1)]) (simp add: le_floor_iff)

lemma round_ne_mono: "x \<le> y \<Longrightarrow> round_ne x \<le> round_ne y"
proof -
  assume xy: "x \<le> y"
  show ?thesis
  proof (cases "\<lfloor>x\<rfloor> = \<lfloor>y\<rfloor>")
    case True
    then show ?thesis using xy by (simp add: round_ne_def Let_def)
  next
    case False
    then have "\<lfloor>x\<rfloor> + 1 \<le> \<lfloor>y\<rfloor>" using floor_mono [OF xy] by linarith
    then show ?thesis using round_ne_floor(2) [of x] round_ne_floor(1) [of y] by linarith
  qed
qed

lemma round_ne_minus: "round_ne (- y) = - round_ne y"
proof (cases "y = of_int \<lfloor>y\<rfloor>")
  case True
  then show ?thesis by (metis of_int_minus round_ne_of_int)
next
  case False
  then have "\<lfloor>- y\<rfloor> = - \<lfloor>y\<rfloor> - 1" by linarith
  then show ?thesis by (auto simp: round_ne_def Let_def)
qed

lemma round_ne_nearest: "\<bar>y - of_int m\<bar> < 1/2 \<Longrightarrow> round_ne y = m"
proof -
  assume a: "\<bar>y - of_int m\<bar> < 1/2"
  have "\<bar>rat_of_int (round_ne y) - of_int m\<bar> \<le> \<bar>of_int (round_ne y) - y\<bar> + \<bar>y - of_int m\<bar>"
    using abs_triangle_ineq [of "of_int (round_ne y) - y" "y - of_int m"] by simp
  then have "\<bar>rat_of_int (round_ne y - m)\<bar> < 1"
    using a round_ne_error [of y] by (simp only: of_int_diff)
  then have "\<bar>round_ne y - m\<bar> < 1" by (simp only: of_int_abs [symmetric] of_int_less_1_iff)
  then show ?thesis by linarith
qed

section \<open>Rounding to a format\<close>

text \<open>The rounded value of a concrete number, from its exponent and the nearest significand.\<close>

lemma fl_rat_nearest:
  assumes "2 powi e \<le> \<bar>x\<bar>" "\<bar>x\<bar> < 2 powi (e + 1)" "q = max (e - int (precision F) + 1) (qmin F)"
    and m: "2 * \<bar>x - of_int m * 2 powi q\<bar> < 2 powi q"
  shows "fl_rat F x = of_int m * 2 powi q"
proof -
  have "(2::rat) powi e > 0" by simp
  then have x: "x \<noteq> 0" using assms(1) by (metis abs_zero not_le)
  have q: "quantum F x = q" using ilog2_unique [OF assms(1,2)] assms(3) by (simp add: quantum_def)
  have u: "(2::rat) powi q > 0" by simp
  have "x / 2 powi q - of_int m = (x - of_int m * 2 powi q) / 2 powi q"
    using u by (simp add: diff_divide_distrib)
  then have "\<bar>x / 2 powi q - of_int m\<bar> = \<bar>x - of_int m * 2 powi q\<bar> / 2 powi q"
    using u by (simp add: abs_divide)
  also have "\<dots> < 1/2" using m u by (simp add: divide_less_eq)
  finally have "\<bar>x / 2 powi q - of_int m\<bar> < 1/2" .
  then show ?thesis using x by (simp add: fl_rat_def q round_ne_nearest)
qed

lemma quantum_minus [simp]: "quantum F (- x) = quantum F x"
  by (simp add: quantum_def)

lemma fl_rat_0 [simp]: "fl_rat F 0 = 0"
  by (simp add: fl_rat_def)

lemma fl_rat_minus: "fl_rat F (- x) = - fl_rat F x"
  by (simp add: fl_rat_def round_ne_minus)

lemma fl_rat_nonneg: "0 \<le> x \<Longrightarrow> 0 \<le> fl_rat F x"
proof -
  assume "0 \<le> x"
  then have "of_int 0 \<le> x / 2 powi quantum F x" by simp
  then have "0 \<le> round_ne (x / 2 powi quantum F x)" by (rule round_ne_ge)
  then show ?thesis by (simp add: fl_rat_def)
qed

lemma fl_rat_nonpos: "x \<le> 0 \<Longrightarrow> fl_rat F x \<le> 0"
  using fl_rat_nonneg [of "- x" F] by (simp add: fl_rat_minus)

text \<open>
  What the clients of a format rely on: rounding is exact on what the format
  represents, monotone, odd, and close to its argument. The format only has to
  have at least one bit.
\<close>

locale float_rounding =
  fixes F :: float_format
  assumes precision_pos: "0 < precision F"
    and qmin_nonpos: "qmin F \<le> 0"
    and emax_large: "precision F < emax F"
begin

lemma fl_exact:
  assumes x: "x = of_int m * 2 powi e" and m: "\<bar>m\<bar> < 2 ^ precision F" and e: "qmin F \<le> e"
  shows "fl_rat F x = x"
proof (cases "x = 0")
  case False
  have "\<bar>x\<bar> = of_int \<bar>m\<bar> * 2 powi e" by (simp add: x abs_mult)
  also have "\<dots> < of_int (2 ^ precision F) * 2 powi e"
    by (rule mult_strict_right_mono) (simp_all only: of_int_less_iff m, simp)
  also have "\<dots> = 2 powi (int (precision F) + e)" by (simp add: power_int_add)
  finally have "ilog2 \<bar>x\<bar> < int (precision F) + e" using False by (intro ilog2_less) auto
  then have q: "quantum F x \<le> e" using e by (simp add: quantum_def)
  define k where "k = nat (e - quantum F x)"
  have "(2::rat) powi e = 2 powi quantum F x * 2 powi int k"
    unfolding k_def using q by (simp flip: power_int_add)
  then have "of_int m * 2 powi e = of_int (m * 2 ^ k) * (2::rat) powi quantum F x" by simp
  then have xk: "x = of_int (m * 2 ^ k) * 2 powi quantum F x" using x by (rule trans [rotated])
  then have "x / 2 powi quantum F x = of_int (m * 2 ^ k)"
    by (simp add: divide_eq_eq del: of_int_mult)
  then have "round_ne (x / 2 powi quantum F x) = m * 2 ^ k" by (simp only: round_ne_of_int)
  then show ?thesis using False xk by (simp add: fl_rat_def)
qed simp

lemma fl_exact_int: "\<bar>n\<bar> < 2 ^ precision F \<Longrightarrow> fl_rat F (of_int n) = of_int n"
  by (rule fl_exact [where m = n and e = 0]) (simp_all add: qmin_nonpos)

lemma fl_round_Fin: "\<bar>fl_rat F x\<bar> < 2 powi int (emax F) \<Longrightarrow> fl_round F x = Fin (fl_rat F x)"
  using ilog2_less [of "\<bar>fl_rat F x\<bar>" "int (emax F)"] by (auto simp: fl_round_def Let_def)

lemma fl_round_int: "\<bar>n\<bar> < 2 ^ precision F \<Longrightarrow> fl_round F (of_int n) = Fin (of_int n)"
proof -
  assume n: "\<bar>n\<bar> < 2 ^ precision F"
  then have "rat_of_int \<bar>n\<bar> < of_int (2 ^ precision F)" by (simp only: of_int_less_iff)
  then have "\<bar>rat_of_int n\<bar> < 2 powi int (precision F)" by simp
  also have "\<dots> \<le> 2 powi int (emax F)" using emax_large by (simp only: powi2_le_iff)
  finally show ?thesis using fl_round_Fin [of "of_int n"] by (simp only: fl_exact_int [OF n])
qed

lemma powi_multiple:
  assumes "q \<le> e" shows "\<exists>k. (2::rat) powi e / 2 powi q = of_int k"
proof -
  have "(2::rat) powi e / 2 powi q = 2 powi (e - q)" by (simp add: power_int_diff)
  also have "\<dots> = of_int (2 ^ nat (e - q))" using assms by (simp add: power_int_def)
  finally show ?thesis by blast
qed

lemma fl_mono_pos:
  assumes x: "0 < x" and xy: "x \<le> y"
  shows "fl_rat F x \<le> fl_rat F y"
proof -
  have y: "0 < y" using x xy by simp
  have il: "ilog2 x \<le> ilog2 y" using x xy by (rule ilog2_mono)
  show ?thesis
  proof (cases "quantum F x = quantum F y")
    case True
    have "round_ne (x / 2 powi quantum F y) \<le> round_ne (y / 2 powi quantum F y)"
      using xy by (intro round_ne_mono divide_right_mono) auto
    then show ?thesis using x y True by (simp add: fl_rat_def mult_right_mono)
  next
    case False
    have qy: "quantum F y = ilog2 y - int (precision F) + 1" and lt: "ilog2 x < ilog2 y"
      and qx: "quantum F x \<le> ilog2 y"
      using False il x y precision_pos by (auto simp: quantum_def max_def split: if_splits)
    define B where "B = (2::rat) powi ilog2 y"
    have "x < 2 powi (ilog2 x + 1)" using x by (rule ilog2_bounds(2))
    also have "\<dots> \<le> B" using lt by (simp add: B_def)
    finally have xB: "x \<le> B" by simp
    have yB: "B \<le> y" using ilog2_bounds(1) [OF y] by (simp add: B_def)
    obtain k where k: "B / 2 powi quantum F x = of_int k"
      using powi_multiple [OF qx] by (auto simp: B_def)
    obtain l where l: "B / 2 powi quantum F y = of_int l"
      using powi_multiple [of "quantum F y" "ilog2 y"] precision_pos qy by (auto simp: B_def)
    have "round_ne (x / 2 powi quantum F x) \<le> k"
      using xB by (intro round_ne_le) (simp flip: k add: divide_right_mono)
    then have "of_int (round_ne (x / 2 powi quantum F x)) * 2 powi quantum F x
        \<le> of_int k * (2::rat) powi quantum F x"
      by (intro mult_right_mono) simp_all
    also have "\<dots> = B" by (simp flip: k)
    also have "\<dots> = of_int l * 2 powi quantum F y" by (simp flip: l)
    also have "l \<le> round_ne (y / 2 powi quantum F y)"
      using yB by (intro round_ne_ge) (simp flip: l add: divide_right_mono)
    then have "of_int l * (2::rat) powi quantum F y
        \<le> of_int (round_ne (y / 2 powi quantum F y)) * 2 powi quantum F y"
      by (intro mult_right_mono) simp_all
    finally show ?thesis using x y by (simp add: fl_rat_def)
  qed
qed

lemma fl_mono: "x \<le> y \<Longrightarrow> fl_rat F x \<le> fl_rat F y"
proof -
  assume xy: "x \<le> y"
  consider "0 < x" | "x \<le> 0" "0 \<le> y" | "y < 0" by linarith
  then show ?thesis
  proof cases
    case 1
    then show ?thesis using xy by (rule fl_mono_pos)
  next
    case 2
    then show ?thesis using fl_rat_nonpos [of x F] fl_rat_nonneg [of y F] by linarith
  next
    case 3
    then have "fl_rat F (- y) \<le> fl_rat F (- x)" using xy by (intro fl_mono_pos) simp_all
    then show ?thesis by (simp add: fl_rat_minus)
  qed
qed

lemma fl_error:
  assumes "2 powi (qmin F + int (precision F) - 1) \<le> \<bar>x\<bar>"
  shows "\<bar>fl_rat F x - x\<bar> \<le> \<bar>x\<bar> * 2 powi (- int (precision F))"
proof -
  have pos: "0 < \<bar>x\<bar>"
    using assms zero_less_power_int [of "2::rat" "qmin F + int (precision F) - 1"] by linarith
  have q: "quantum F x = ilog2 \<bar>x\<bar> - int (precision F) + 1"
    using ilog2_ge [OF assms] by (simp add: quantum_def)
  let ?u = "(2::rat) powi quantum F x"
  have "fl_rat F x - x = (of_int (round_ne (x / ?u)) - x / ?u) * ?u"
    using pos by (simp add: fl_rat_def left_diff_distrib)
  then have "\<bar>fl_rat F x - x\<bar> = \<bar>of_int (round_ne (x / ?u)) - x / ?u\<bar> * ?u"
    by (simp add: abs_mult)
  also have "\<dots> \<le> 1/2 * ?u" by (intro mult_right_mono round_ne_error) simp
  also have "\<dots> = 2 powi ilog2 \<bar>x\<bar> * 2 powi (- int (precision F))"
    by (simp add: q flip: power_int_add) (simp add: power_int_add)
  also have "\<dots> \<le> \<bar>x\<bar> * 2 powi (- int (precision F))"
    using ilog2_bounds(1) [OF pos] by (intro mult_right_mono) simp_all
  finally show ?thesis .
qed

end

interpretation dbl: float_rounding c_double
  by unfold_locales (simp_all add: c_double_def)

interpretation ldbl: float_rounding c_long_double
  by unfold_locales (simp_all add: c_long_double_def)

end
