(* ===== verification/C_Stdlib.thy ===== *)
theory C_Stdlib
  imports C_Float
begin

text \<open>
  The C library functions on strings and numbers that the sources call:
  \<^verbatim>\<open>isspace\<close>, \<^verbatim>\<open>isdigit\<close>, \<^verbatim>\<open>strtol\<close> (base 10), \<^verbatim>\<open>strtod\<close> (decimal, hexadecimal, infinities
  and NaN), \<^verbatim>\<open>strchr\<close> and the decimal output of \<^verbatim>\<open>printf\<close>. Strings are char lists
  without the terminator; an end pointer is the suffix it points to.
\<close>

section \<open>Characters\<close>

definition isspace :: "char \<Rightarrow> bool" where
  "isspace c \<longleftrightarrow> c \<in> set [CHR '' '', CHR 0x09, CHR 0x0A, CHR 0x0B, CHR 0x0C, CHR 0x0D]"

definition char_code :: "char \<Rightarrow> int" where
  "char_code c = int (of_char c)"

definition isdigit :: "char \<Rightarrow> bool" where
  "isdigit c \<longleftrightarrow> 48 \<le> char_code c \<and> char_code c \<le> 57"

definition digit_val :: "char \<Rightarrow> int" where
  "digit_val c = char_code c - 48"

definition tolower :: "char \<Rightarrow> char" where
  "tolower c = (if 65 \<le> char_code c \<and> char_code c \<le> 90 then char_of (nat (char_code c + 32)) else c)"

definition toupper :: "char \<Rightarrow> char" where
  "toupper c = (if 97 \<le> char_code c \<and> char_code c \<le> 122 then char_of (nat (char_code c - 32)) else c)"

definition isxdigit :: "char \<Rightarrow> bool" where
  "isxdigit c \<longleftrightarrow> isdigit c \<or> (97 \<le> char_code (tolower c) \<and> char_code (tolower c) \<le> 102)"

definition xdigit_val :: "char \<Rightarrow> int" where
  "xdigit_val c = (if isdigit c then digit_val c else char_code (tolower c) - 87)"

definition strchr :: "string \<Rightarrow> char \<Rightarrow> string option" where
  "strchr s c = (case dropWhile (\<lambda>d. d \<noteq> c) s of [] \<Rightarrow> None | r \<Rightarrow> Some r)"

definition str_prefix :: "string \<Rightarrow> string \<Rightarrow> bool" where
  "str_prefix p s \<longleftrightarrow> take (length p) s = p"

text \<open>The index of the first occurrence.\<close>

fun strstr :: "string \<Rightarrow> string \<Rightarrow> nat option" where
  "strstr h n =
    (if str_prefix n h then Some 0
     else case h of [] \<Rightarrow> None | c # t \<Rightarrow> map_option Suc (strstr t n))"

section \<open>Decimal numbers\<close>

definition digits_val :: "int \<Rightarrow> (char \<Rightarrow> int) \<Rightarrow> string \<Rightarrow> int" where
  "digits_val base dv ds = foldl (\<lambda>n c. base * n + dv c) 0 ds"

fun split_sign :: "string \<Rightarrow> bool \<times> string" where
  "split_sign (c # s) = (if c = CHR ''-'' then (True, s) else if c = CHR ''+'' then (False, s) else (False, c # s))"
| "split_sign [] = (False, [])"

text \<open>\<^verbatim>\<open>strtol(s, &end, 10)\<close>: the value, the end pointer and whether \<^verbatim>\<open>errno\<close> becomes \<^verbatim>\<open>ERANGE\<close>.\<close>

definition strtol :: "string \<Rightarrow> int \<times> string \<times> bool" where
  "strtol s =
    (let (neg, t) = split_sign (dropWhile isspace s);
         ds = takeWhile isdigit t;
         n = (if neg then - digits_val 10 digit_val ds else digits_val 10 digit_val ds)
     in if ds = [] then (0, s, False)
        else if n > S64_MAX then (S64_MAX, dropWhile isdigit t, True)
        else if n < S64_MIN then (S64_MIN, dropWhile isdigit t, True)
        else (n, dropWhile isdigit t, False))"

fun show_nat :: "nat \<Rightarrow> string" where
  "show_nat n = (if n < 10 then [char_of (48 + n)] else show_nat (n div 10) @ [char_of (48 + n mod 10)])"

definition show_int :: "int \<Rightarrow> string" where
  "show_int i = (if i < 0 then CHR ''-'' # show_nat (nat (- i)) else show_nat (nat i))"

section \<open>Floating point numbers\<close>

text \<open>The optional exponent after a mantissa: its value and what follows it.\<close>

definition parse_exponent :: "char \<Rightarrow> string \<Rightarrow> int \<times> string" where
  "parse_exponent e s =
    (case s of [] \<Rightarrow> (0, s)
     | c # t \<Rightarrow>
        if tolower c \<noteq> e then (0, s)
        else let (neg, u) = split_sign t; ds = takeWhile isdigit u; n = digits_val 10 digit_val ds
             in if ds = [] then (0, s) else (if neg then - n else n, dropWhile isdigit u))"

text \<open>
  The mantissa: the digits before and after the decimal point \<open>dp\<close> of the locale. \<open>None\<close> when
  there is no digit at all.
\<close>

definition parse_mantissa :: "char \<Rightarrow> (char \<Rightarrow> bool) \<Rightarrow> string \<Rightarrow> (string \<times> string \<times> string) option" where
  "parse_mantissa dp isd s =
    (let ds = takeWhile isd s; t = dropWhile isd s
     in case t of
          c # u \<Rightarrow>
            if c = dp \<and> (ds \<noteq> [] \<or> takeWhile isd u \<noteq> []) then Some (ds, takeWhile isd u, dropWhile isd u)
            else if ds = [] then None else Some (ds, [], t)
        | [] \<Rightarrow> if ds = [] then None else Some (ds, [], t))"

definition parse_decimal :: "char \<Rightarrow> string \<Rightarrow> (rat \<times> string) option" where
  "parse_decimal dp s =
    (case parse_mantissa dp isdigit s of None \<Rightarrow> None
     | Some (ds, fs, t) \<Rightarrow>
        let (e, u) = parse_exponent (CHR ''e'') t
        in Some (of_int (digits_val 10 digit_val (ds @ fs)) * 10 powi (e - int (length fs)), u))"

definition parse_hex :: "char \<Rightarrow> string \<Rightarrow> (rat \<times> string) option" where
  "parse_hex dp s =
    (case parse_mantissa dp isxdigit s of None \<Rightarrow> None
     | Some (ds, fs, t) \<Rightarrow>
        let (e, u) = parse_exponent (CHR ''p'') t
        in Some (of_int (digits_val 16 xdigit_val (ds @ fs)) * 2 powi (e - 4 * int (length fs)), u))"

definition parse_number :: "char \<Rightarrow> string \<Rightarrow> (rat \<times> string) option" where
  "parse_number dp s =
    (case (if str_prefix ''0x'' (map tolower (take 2 s)) then parse_hex dp (drop 2 s) else None) of
       Some r \<Rightarrow> Some r
     | None \<Rightarrow> parse_decimal dp s)"

text \<open>Whether a rounding to \<^verbatim>\<open>double\<close> sets \<^verbatim>\<open>ERANGE\<close>: an overflow, or a tiny and inexact result.\<close>

definition strtod_erange :: "rat \<Rightarrow> bool" where
  "strtod_erange x =
    (case fl_round c_double x of
       Fin y \<Rightarrow> y \<noteq> x \<and> \<bar>fl_rat (c_double\<lparr>qmin := - 1075\<rparr>) x\<bar> < 2 powi (- 1022)
     | _ \<Rightarrow> True)"

text \<open>The characters a NaN may carry in parentheses.\<close>

definition nan_suffix :: "string \<Rightarrow> string" where
  "nan_suffix s =
    (case s of [] \<Rightarrow> s
     | c # t \<Rightarrow>
       if c \<noteq> CHR ''('' then s
       else case dropWhile (\<lambda>d. isdigit d \<or> d = CHR ''_'' \<or> (97 \<le> char_code (tolower d) \<and> char_code (tolower d) \<le> 122)) t of
              [] \<Rightarrow> s
            | d # u \<Rightarrow> if d = CHR '')'' then u else s)"

definition strtod :: "char \<Rightarrow> string \<Rightarrow> cfloat \<times> string \<times> bool" where
  "strtod dp s =
    (let (neg, t) = split_sign (dropWhile isspace s); low = map tolower t
     in case parse_number dp t of
          Some (x, r) \<Rightarrow> let y = (if neg then - x else x) in (fl_round c_double y, r, strtod_erange y)
        | None \<Rightarrow>
            if str_prefix ''infinity'' low then (Infty (\<not> neg), drop 8 t, False)
            else if str_prefix ''inf'' low then (Infty (\<not> neg), drop 3 t, False)
            else if str_prefix ''nan'' low then (NaN, nan_suffix (drop 3 t), False)
            else (Fin 0, s, False))"

section \<open>Digits\<close>

lemma char_code_char_of: "n < 256 \<Longrightarrow> char_code (char_of (n::nat)) = int n"
  by (simp add: char_code_def)

lemma isdigit_char_of [simp]: "d < 10 \<Longrightarrow> isdigit (char_of (48 + d :: nat))"
  by (simp add: isdigit_def char_code_char_of)

lemma digit_val_char_of [simp]: "d < 10 \<Longrightarrow> digit_val (char_of (48 + d :: nat)) = int d"
  by (simp add: digit_val_def char_code_char_of)

declare show_nat.simps [simp del] strstr.simps [simp del]

lemma show_nat_digits: "\<forall>c \<in> set (show_nat n). isdigit c"
proof (induction n rule: show_nat.induct)
  case (1 n)
  then show ?case by (subst show_nat.simps) auto
qed

lemma show_nat_nonempty: "show_nat n \<noteq> []"
  by (subst show_nat.simps) simp

lemma digits_val_snoc: "digits_val b dv (ds @ [c]) = b * digits_val b dv ds + dv c"
  by (simp add: digits_val_def)

lemma digits_val_show_nat: "digits_val 10 digit_val (show_nat n) = int n"
proof (induction n rule: show_nat.induct)
  case (1 n)
  show ?case
  proof (cases "n < 10")
    case True
    then show ?thesis by (subst show_nat.simps) (simp add: digits_val_def)
  next
    case False
    then have "digits_val 10 digit_val (show_nat n) = 10 * int (n div 10) + int (n mod 10)"
      using 1 by (subst show_nat.simps) (simp add: digits_val_snoc)
    also have "\<dots> = int n" by presburger
    finally show ?thesis .
  qed
qed

lemma takeWhile_all: "\<forall>c \<in> set s. P c \<Longrightarrow> takeWhile P s = s \<and> dropWhile P s = []"
  by (simp add: takeWhile_eq_all_conv dropWhile_eq_Nil_conv)

lemma isdigit_not: "isdigit c \<Longrightarrow> \<not> isspace c \<and> c \<noteq> CHR ''-'' \<and> c \<noteq> CHR ''+''"
  by (auto simp: isdigit_def isspace_def char_code_def)

lemma split_sign_digits: "s \<noteq> [] \<Longrightarrow> \<forall>c \<in> set s. isdigit c \<Longrightarrow> split_sign s = (False, s)"
  by (cases s) (auto dest: isdigit_not)

lemma dropWhile_space_digits: "\<forall>c \<in> set s. isdigit c \<Longrightarrow> dropWhile isspace s = s"
  by (cases s) (auto dest: isdigit_not)

text \<open>\<^verbatim>\<open>strtol\<close> reads back what \<^verbatim>\<open>printf("%ld")\<close> wrote.\<close>

lemma strtol_show_int: "in_s64 i \<Longrightarrow> strtol (show_int i) = (i, [], False)"
proof -
  assume i: "in_s64 i"
  note d = show_nat_digits takeWhile_all show_nat_nonempty digits_val_show_nat
    split_sign_digits dropWhile_space_digits
  have "\<not> isspace (CHR ''-'')" by (simp add: isspace_def)
  with i show ?thesis
    by (cases "i < 0") (simp_all add: show_int_def strtol_def in_s64_def d)
qed

lemma show_nat_length: "n < 10 ^ k \<Longrightarrow> 0 < k \<Longrightarrow> length (show_nat n) \<le> k"
proof (induction k arbitrary: n)
  case (Suc k)
  show ?case
  proof (cases "n < 10")
    case False
    then have "n div 10 < 10 ^ k" "0 < k" using Suc.prems by (auto simp: less_mult_imp_div_less mult.commute intro: ccontr)
    with Suc.IH have "length (show_nat (n div 10)) \<le> k" by blast
    then show ?thesis using False by (subst show_nat.simps) simp
  qed (subst show_nat.simps, simp)
qed simp

end
