(* ===== verification/Time_Ops.thy ===== *)
theory Time_Ops
  imports C_Float
begin

text \<open>
  The time arithmetic of \<^verbatim>\<open>src/src/time_ops.h\<close>: the macros \<^verbatim>\<open>timeradd2\<close>,
  \<^verbatim>\<open>timersub2\<close>, \<^verbatim>\<open>timermul2\<close>, \<^verbatim>\<open>timercmp2\<close>, \<^verbatim>\<open>timerisset2\<close> over a pair of seconds
  and sub-seconds, generic in the number \<open>U\<close> of sub-seconds per second
  (\<^verbatim>\<open>SEC_TO_uSEC\<close> or \<^verbatim>\<open>SEC_TO_nSEC\<close>), their instances for \<^verbatim>\<open>struct timespec\<close> and
  \<^verbatim>\<open>struct timeval\<close>, and \<^verbatim>\<open>normalize_timespec_value\<close> of \<^verbatim>\<open>src/src/libfaketime.c\<close>.
  The intermediate type \<^verbatim>\<open>FT_WIDE_INT\<close> is the 128-bit integer, in which none of
  the sums below can overflow. The first component of the result of an arithmetic macro tells whether it
  sets \<^verbatim>\<open>errno\<close> to \<^verbatim>\<open>EOVERFLOW\<close>. The instances for \<^verbatim>\<open>struct timespec\<close> give the time only: no caller in
  the library looks at \<^verbatim>\<open>errno\<close> after them.
\<close>

section \<open>Definitions\<close>

record timespec =
  tv_sec :: int
  tv_nsec :: int

record timeval =
  tval_sec :: int
  tv_usec :: int

definition SEC_TO_uSEC :: int where "SEC_TO_uSEC = 1000000"
definition SEC_TO_nSEC :: int where "SEC_TO_nSEC = 1000000000"

type_synonym sec_sub = "int \<times> int"

definition timerisset2 :: "sec_sub \<Rightarrow> bool" where
  "timerisset2 a \<longleftrightarrow> fst a \<noteq> 0 \<or> snd a \<noteq> 0"

definition timercmp2 :: "sec_sub \<Rightarrow> sec_sub \<Rightarrow> (int \<Rightarrow> int \<Rightarrow> bool) \<Rightarrow> bool" where
  "timercmp2 a b cmp = (if fst a = fst b then cmp (snd a) (snd b) else cmp (fst a) (fst b))"

definition timeradd2 :: "int \<Rightarrow> sec_sub \<Rightarrow> sec_sub \<Rightarrow> bool \<times> sec_sub" where
  "timeradd2 U a b =
    (let s0 = fst a + fst b; u0 = snd a + snd b;
         (s, u) = (if u0 \<ge> U then (s0 + 1, u0 - U)
                   else if u0 < 0 then (s0 - 1, u0 + U)
                   else (s0, u0))
     in if s > S64_MAX then (True, S64_MAX, U - 1)
        else if s < S64_MIN then (True, S64_MIN, 0)
        else (False, s, wrap_s64 u))"

definition timersub2 :: "int \<Rightarrow> sec_sub \<Rightarrow> sec_sub \<Rightarrow> bool \<times> sec_sub" where
  "timersub2 U a b =
    (let s0 = fst a - fst b; u0 = snd a - snd b;
         (s, u) = (if u0 < 0 then (s0 - 1, u0 + U)
                   else if u0 \<ge> U then (s0 + 1, u0 - U)
                   else (s0, u0))
     in if s > S64_MAX \<or> s < S64_MIN
        then (True, if s > 0 then S64_MAX else S64_MIN, if s > 0 then U - 1 else 0)
        else (False, s, wrap_s64 u))"

definition mul_total :: "int \<Rightarrow> sec_sub \<Rightarrow> cfloat \<Rightarrow> cfloat" where
  "mul_total U a c =
    fl_mul c_long_double
      (fl_add c_long_double
        (fl_mul c_long_double (fl_of_int c_long_double (fst a)) (fl_of_int c_long_double U))
        (fl_of_int c_long_double (snd a)))
      c"

definition mul_max :: "int \<Rightarrow> cfloat" where
  "mul_max U =
    fl_add c_long_double
      (fl_mul c_long_double (fl_of_int c_long_double S64_MAX) (fl_of_int c_long_double U))
      (fl_of_int c_long_double (U - 1))"

definition mul_min :: "int \<Rightarrow> cfloat" where
  "mul_min U = fl_mul c_long_double (fl_of_int c_long_double S64_MIN) (fl_of_int c_long_double U)"

definition mul_overflows :: "int \<Rightarrow> cfloat \<Rightarrow> bool" where
  "mul_overflows U x \<longleftrightarrow>
    \<not> isfinite x \<or> fl_less (mul_max U) x \<or> fl_less x (mul_min U)"

text \<open>The remainder and quotient \<^verbatim>\<open>timermul2\<close> stores, with its correction for a negative remainder.\<close>

definition split_total :: "int \<Rightarrow> int \<Rightarrow> sec_sub" where
  "split_total U t =
    (let u = t smod U; s = wrap_s64 ((t - u) sdiv U)
     in if u < 0 then (wrap_s64 (s - 1), u + U) else (s, u))"

definition timermul2 :: "int \<Rightarrow> sec_sub \<Rightarrow> cfloat \<Rightarrow> bool \<times> sec_sub" where
  "timermul2 U a c =
    (let tot = mul_total U a c;
         ovf = mul_overflows U tot;
         tot' = (if ovf then (if fl_less tot (Fin 0) then mul_min U else mul_max U) else tot)
     in (ovf, split_total U (fl_trunc tot')))"

abbreviation ts_pair :: "timespec \<Rightarrow> sec_sub" where
  "ts_pair t \<equiv> (tv_sec t, tv_nsec t)"

definition pair_ts :: "sec_sub \<Rightarrow> timespec" where
  "pair_ts p = \<lparr>tv_sec = fst p, tv_nsec = snd p\<rparr>"

abbreviation tv_pair :: "timeval \<Rightarrow> sec_sub" where
  "tv_pair t \<equiv> (tval_sec t, tv_usec t)"

definition pair_tv :: "sec_sub \<Rightarrow> timeval" where
  "pair_tv p = \<lparr>tval_sec = fst p, tv_usec = snd p\<rparr>"

definition timespecadd :: "timespec \<Rightarrow> timespec \<Rightarrow> timespec" where
  "timespecadd a b = pair_ts (snd (timeradd2 SEC_TO_nSEC (ts_pair a) (ts_pair b)))"

definition timespecsub :: "timespec \<Rightarrow> timespec \<Rightarrow> timespec" where
  "timespecsub a b = pair_ts (snd (timersub2 SEC_TO_nSEC (ts_pair a) (ts_pair b)))"

definition timespecmul :: "timespec \<Rightarrow> cfloat \<Rightarrow> timespec" where
  "timespecmul a c = pair_ts (snd (timermul2 SEC_TO_nSEC (ts_pair a) c))"

definition timespecisset :: "timespec \<Rightarrow> bool" where
  "timespecisset a = timerisset2 (ts_pair a)"

definition timespeccmp :: "timespec \<Rightarrow> timespec \<Rightarrow> (int \<Rightarrow> int \<Rightarrow> bool) \<Rightarrow> bool" where
  "timespeccmp a b cmp = timercmp2 (ts_pair a) (ts_pair b) cmp"

text \<open>
  \<^verbatim>\<open>normalize_timespec_value\<close>; the pointer is never NULL where it is called. The
  addition to \<^verbatim>\<open>tv_sec\<close> is a 64-bit store.
\<close>

definition normalize_timespec_value :: "timespec \<Rightarrow> timespec" where
  "normalize_timespec_value tp =
    (if 0 \<le> tv_nsec tp \<and> tv_nsec tp < SEC_TO_nSEC then tp
     else let seconds = tv_nsec tp sdiv SEC_TO_nSEC;
              nanoseconds = tv_nsec tp smod SEC_TO_nSEC;
              (seconds, nanoseconds) =
                (if nanoseconds < 0 then (seconds - 1, nanoseconds + SEC_TO_nSEC)
                 else (seconds, nanoseconds))
          in \<lparr>tv_sec = wrap_s64 (tv_sec tp + seconds), tv_nsec = nanoseconds\<rparr>)"

section \<open>The abstract reading: one number of sub-seconds\<close>

definition total_of :: "int \<Rightarrow> sec_sub \<Rightarrow> int" where
  "total_of U a = fst a * U + snd a"

definition normal :: "int \<Rightarrow> sec_sub \<Rightarrow> bool" where
  "normal U a \<longleftrightarrow> in_s64 (fst a) \<and> 0 \<le> snd a \<and> snd a < U"

definition clamp_total :: "int \<Rightarrow> int \<Rightarrow> int" where
  "clamp_total U x = max (S64_MIN * U) (min (S64_MAX * U + (U - 1)) x)"

lemma ld_round_int: "\<bar>n\<bar> < 18446744073709551616 \<Longrightarrow> fl_round c_long_double (of_int n) = Fin (of_int n)"
  by (rule ldbl.fl_round_int) (simp add: c_long_double_def)

lemma ld_error:
  "\<bar>fl_rat c_long_double x - x\<bar> \<le> \<bar>x\<bar> / 18446744073709551616 \<or> \<bar>x\<bar> < 1/2 \<and> \<bar>fl_rat c_long_double x\<bar> \<le> 1/2"
proof (cases "\<bar>x\<bar> < 1/2")
  case True
  have h: "fl_rat c_long_double (1/2) = 1/2"
    using ldbl.fl_exact [of "1/2" 1 "- 1"] by (simp add: c_long_double_def)
  have "fl_rat c_long_double (- (1/2)) \<le> fl_rat c_long_double x" "fl_rat c_long_double x \<le> fl_rat c_long_double (1/2)"
    using True by (auto intro!: ldbl.fl_mono)
  then show ?thesis using True unfolding fl_rat_minus h by linarith
next
  case False
  have "2 powi (qmin c_long_double + int (precision c_long_double) - 1) \<le> (2::rat) powi (- 1)"
    by (simp only: powi2_le_iff) (simp add: c_long_double_def)
  also have "\<dots> \<le> \<bar>x\<bar>" using False by simp
  finally have "\<bar>fl_rat c_long_double x - x\<bar> \<le> \<bar>x\<bar> * 2 powi (- int (precision c_long_double))"
    by (rule ldbl.fl_error)
  moreover have "(2::rat) powi (- int (precision c_long_double)) = 1 / 18446744073709551616"
    by (simp add: c_long_double_def power_int_def power_divide)
  ultimately show ?thesis by simp
qed

text \<open>Both sums end in the same saturating store of a normalised pair.\<close>

definition saturate :: "int \<Rightarrow> int \<Rightarrow> int \<Rightarrow> bool \<times> sec_sub" where
  "saturate U s u = (if s > S64_MAX then (True, S64_MAX, U - 1)
     else if s < S64_MIN then (True, S64_MIN, 0) else (False, s, u))"

text \<open>
  What the clients of the macros rely on, for a unit: sums and differences are the
  saturated sums and differences of the totals, and products are the truncated
  rounded products of the totals. The two assumptions on the unit beside its size
  are the values the bounds of \<^verbatim>\<open>timermul2\<close> take in \<^verbatim>\<open>long double\<close> arithmetic.
\<close>

locale time_unit =
  fixes U :: int
  assumes U_pos: "1 < U" and U_le: "U \<le> 1000000000"
    and max_total: "mul_max U = Fin (9223372036854775808 * of_int U)"
    and min_total: "mul_min U = Fin (- 9223372036854775808 * of_int U)"
begin

lemma U_gt0: "0 < U"
  using U_pos by simp

lemma total_inj: "normal U a \<Longrightarrow> normal U b \<Longrightarrow> total_of U a = total_of U b \<Longrightarrow> a = b"
proof -
  assume n: "normal U a" "normal U b" and t: "total_of U a = total_of U b"
  have "fst a = total_of U a div U" and "fst b = total_of U b div U"
    and "snd a = total_of U a mod U" and "snd b = total_of U b mod U"
    using n U_pos by (simp_all add: total_of_def normal_def)
  then show "a = b" using t by (simp add: prod_eq_iff)
qed

lemma normal_wrap: "0 \<le> u \<Longrightarrow> u < U \<Longrightarrow> wrap_s64 u = u"
  using U_le by (simp add: wrap_s64_id in_s64_def)

lemma in_s64_div: "in_s64 (x div U) \<longleftrightarrow> S64_MIN * U \<le> x \<and> x < 9223372036854775808 * U"
  and div_above: "S64_MAX < x div U \<longleftrightarrow> 9223372036854775808 * U \<le> x"
  and div_below: "x div U < S64_MIN \<longleftrightarrow> x < S64_MIN * U"
  using le_div_iff_mult [of U 9223372036854775808 x] le_div_iff_mult [of U S64_MIN x] U_pos
  by (auto simp: in_s64_def)

lemma saturate_total:
  shows "normal U (snd (saturate U (x div U) (x mod U)))"
    and "total_of U (snd (saturate U (x div U) (x mod U))) = clamp_total U x"
    and "fst (saturate U (x div U) (x mod U)) \<longleftrightarrow> clamp_total U x \<noteq> x"
  using U_pos
  by (auto simp: saturate_def normal_def in_s64_div div_above div_below total_of_def
      clamp_total_def max_def min_def) (simp_all add: in_s64_def)

lemma add_saturate:
  assumes "normal U a" "normal U b"
  shows "timeradd2 U a b = saturate U ((total_of U a + total_of U b) div U)
           ((total_of U a + total_of U b) mod U)"
proof -
  let ?s = "fst a + fst b" and ?u = "snd a + snd b"
  have t: "total_of U a + total_of U b = ?s * U + ?u"
    by (simp add: total_of_def algebra_simps)
  have u: "0 \<le> ?u" "?u < 2 * U" using assms by (auto simp: normal_def)
  show ?thesis
  proof (cases "?u \<ge> U")
    case True
    have "?s * U + ?u = (?s + 1) * U + (?u - U)" by (simp add: algebra_simps)
    then have "(?s * U + ?u) div U = ?s + 1" "(?s * U + ?u) mod U = ?u - U"
      using True u by (simp_all only: div_mod_of_sum)
    with True u show ?thesis
      by (simp only: t) (simp add: timeradd2_def saturate_def Let_def normal_wrap)
  next
    case False
    with u show ?thesis
      by (simp only: t) (simp add: div_mod_of_sum timeradd2_def saturate_def Let_def normal_wrap)
  qed
qed

lemma sub_saturate:
  assumes "normal U a" "normal U b"
  shows "timersub2 U a b = saturate U ((total_of U a - total_of U b) div U)
           ((total_of U a - total_of U b) mod U)"
proof -
  let ?s = "fst a - fst b" and ?u = "snd a - snd b"
  have t: "total_of U a - total_of U b = ?s * U + ?u"
    by (simp add: total_of_def algebra_simps)
  have u: "- U < ?u" "?u < U" using assms by (auto simp: normal_def)
  show ?thesis
  proof (cases "?u < 0")
    case True
    have "?s * U + ?u = (?s - 1) * U + (?u + U)" by (simp add: algebra_simps)
    then have "(?s * U + ?u) div U = ?s - 1" "(?s * U + ?u) mod U = ?u + U"
      using True u by (simp_all only: div_mod_of_sum)
    with True u show ?thesis
      by (simp only: t) (simp add: timersub2_def saturate_def Let_def normal_wrap)
  next
    case False
    with u show ?thesis
      by (simp only: t) (simp add: div_mod_of_sum timersub2_def saturate_def Let_def normal_wrap)
  qed
qed

lemma add_total:
  assumes "normal U a" "normal U b"
  shows "normal U (snd (timeradd2 U a b))"
    and "total_of U (snd (timeradd2 U a b)) = clamp_total U (total_of U a + total_of U b)"
    and "fst (timeradd2 U a b) \<longleftrightarrow> clamp_total U (total_of U a + total_of U b) \<noteq> total_of U a + total_of U b"
  by (simp_all only: add_saturate [OF assms] saturate_total)

lemma sub_total:
  assumes "normal U a" "normal U b"
  shows "normal U (snd (timersub2 U a b))"
    and "total_of U (snd (timersub2 U a b)) = clamp_total U (total_of U a - total_of U b)"
    and "fst (timersub2 U a b) \<longleftrightarrow> clamp_total U (total_of U a - total_of U b) \<noteq> total_of U a - total_of U b"
  by (simp_all only: sub_saturate [OF assms] saturate_total)

text \<open>The decomposition \<^verbatim>\<open>timermul2\<close> ends with is the one towards minus infinity.\<close>

lemma split_total_floor:
  assumes "S64_MIN * U \<le> t" "t < 9223372036854775808 * U"
  shows "split_total U t = (t div U, t mod U)"
proof -
  have q: "in_s64 (t div U)" using assms by (simp add: in_s64_div)
  note ft = floor_from_trunc [of U t]
  have sd: "in_s64 (t sdiv U)"
  proof (cases "0 \<le> t")
    case True
    then show ?thesis using q U_pos by (simp add: sdiv_nonneg)
  next
    case False
    then have "t div U \<le> t sdiv U" and "t sdiv U \<le> 0"
      using ft(1) U_pos by (auto simp: sdiv_neg pos_imp_zdiv_nonneg_iff split: if_splits)
    then show ?thesis using q by (simp add: in_s64_def)
  qed
  have "wrap_s64 ((t - t smod U) sdiv U) = t sdiv U"
    using U_pos sd by (simp add: minus_smod_sdiv wrap_s64_id)
  then show ?thesis using ft q U_pos by (auto simp: split_total_def Let_def wrap_s64_id split: if_splits)
qed

lemma smod_bounds: "- U < t smod U" "t smod U < U"
  using smod_int_range [of U t] U_pos by auto

lemma mul_normal: "normal U (snd (timermul2 U a c))"
  using smod_bounds by (auto simp: timermul2_def split_total_def normal_def Let_def
      less_imp_le diff_less_eq [symmetric])

lemma mul_total_exact:
  assumes "\<bar>fst a\<bar> * U + \<bar>snd a\<bar> < 18446744073709551616"
  shows "mul_total U a c = fl_mul c_long_double (Fin (of_int (total_of U a))) c"
proof -
  have "\<bar>fst a * U\<bar> = \<bar>fst a\<bar> * U" using U_pos by (simp add: abs_mult)
  moreover have "\<bar>fst a\<bar> * 1 \<le> \<bar>fst a\<bar> * U" using U_pos by (intro mult_left_mono) simp_all
  ultimately have b: "\<bar>fst a\<bar> < 18446744073709551616" "\<bar>U\<bar> < 18446744073709551616" "\<bar>snd a\<bar> < 18446744073709551616" "\<bar>fst a * U\<bar> < 18446744073709551616"
    "\<bar>fst a * U + snd a\<bar> < 18446744073709551616"
    using assms U_pos U_le by linarith+
  show ?thesis
    unfolding mul_total_def fl_of_int_def total_of_def b [THEN ld_round_int] fl_mul.simps fl_add.simps
      of_int_mult [symmetric] of_int_add [symmetric] by (rule refl)
qed

lemma mul_no_overflow:
  "- 9223372036854775808 * of_int U \<le> y \<Longrightarrow> y \<le> 9223372036854775808 * of_int U \<Longrightarrow> \<not> mul_overflows U (Fin y)"
  by (simp add: mul_overflows_def isfinite_def max_total min_total)

lemma mul_in_range:
  assumes tot: "mul_total U a c = Fin y"
    and lo: "- 9223372036854775808 * of_int U \<le> y" and hi: "y < 9223372036854775808 * of_int U"
  shows "timermul2 U a c = (False, trunc_rat y div U, trunc_rat y mod U)"
proof -
  have "S64_MIN * U \<le> trunc_rat y" using lo by (intro trunc_rat_ge) simp
  moreover have "trunc_rat y < 9223372036854775808 * U"
    using hi U_pos by (intro trunc_rat_less) simp_all
  ultimately show ?thesis
    using mul_no_overflow [OF lo] hi by (simp add: timermul2_def tot split_total_floor)
qed

lemma mul_in_range_total:
  assumes "mul_total U a c = Fin y"
    and "- 9223372036854775808 * of_int U \<le> y" and "y < 9223372036854775808 * of_int U"
  shows "total_of U (snd (timermul2 U a c)) = trunc_rat y"
  using U_pos by (simp add: mul_in_range [OF assms] total_of_def)

text \<open>
  A positive overflow: the clamp value \<open>mul_max U\<close> is rounded up to \<open>2 ^ 63\<close>
  seconds, one more than \<^verbatim>\<open>time_t\<close> holds, and the store wraps around.
\<close>

lemma mul_overflow_positive:
  assumes "mul_overflows U (mul_total U a c)" and "\<not> fl_less (mul_total U a c) (Fin 0)"
  shows "timermul2 U a c = (True, S64_MIN, 0)"
proof -
  have "trunc_rat (9223372036854775808 * of_int U) = 9223372036854775808 * U"
    using trunc_rat_of_int [of "9223372036854775808 * U"] by simp
  then have t: "fl_trunc (mul_max U) = 9223372036854775808 * U" by (simp add: max_total)
  have "(9223372036854775808 * U) smod U = 0" and "(9223372036854775808 * U) sdiv U = 9223372036854775808"
    using U_pos by (simp_all add: smod_nonneg sdiv_nonneg)
  then show ?thesis using assms by (simp add: timermul2_def split_total_def Let_def t wrap_s64_def)
qed

lemma mul_overflow_negative:
  assumes "mul_overflows U (mul_total U a c)" and "fl_less (mul_total U a c) (Fin 0)"
  shows "timermul2 U a c = (True, S64_MIN, 0)"
proof -
  have "trunc_rat (- 9223372036854775808 * of_int U) = - 9223372036854775808 * U"
    using trunc_rat_of_int [of "- 9223372036854775808 * U"] by simp
  then have t: "fl_trunc (mul_min U) = - 9223372036854775808 * U" by (simp add: min_total)
  moreover have "split_total U (- 9223372036854775808 * U) = (S64_MIN, 0)"
    using split_total_floor [of "- 9223372036854775808 * U"] U_pos
    by (simp flip: mult_minus_left)
  ultimately show ?thesis using assms by (simp add: timermul2_def Let_def)
qed

text \<open>For a multiplicand that \<^verbatim>\<open>long double\<close> holds exactly, one rounding remains.\<close>

lemma mul_exact_total:
  assumes a: "\<bar>fst a\<bar> * U + \<bar>snd a\<bar> < 18446744073709551616"
    and y: "y = fl_rat c_long_double (of_int (total_of U a) * r)"
    and lo: "- 9223372036854775808 * of_int U \<le> y" and hi: "y < 9223372036854775808 * of_int U"
  shows "timermul2 U a (Fin r) = (False, trunc_rat y div U, trunc_rat y mod U)"
proof (rule mul_in_range [OF _ lo hi])
  have "\<bar>y\<bar> \<le> of_int (9223372036854775808 * U)" using lo hi by (auto simp: abs_le_iff)
  also have "\<dots> \<le> of_int (2 ^ 100)" using U_le by (simp only: of_int_le_iff) simp
  also have "\<dots> = (2::rat) powi 100" by (simp add: power_int_def)
  also have "\<dots> < 2 powi int (emax c_long_double)"
    by (simp only: powi2_less_iff) (simp add: c_long_double_def)
  finally show "mul_total U a (Fin r) = Fin y"
    using ldbl.fl_round_Fin [of "of_int (total_of U a) * r"]
    by (simp only: mul_total_exact [OF a] fl_mul.simps y)
qed
text \<open>
  A scaled total is the exact product up to one rounding of the \<^verbatim>\<open>long double\<close>
  product (relative error \<open>2 ^ -64\<close>) and one truncation, and scaling by a
  non-negative factor keeps the order of times.
\<close>

lemma mul_error:
  assumes a: "\<bar>fst a\<bar> * U + \<bar>snd a\<bar> < 18446744073709551616"
    and range: "\<bar>of_int (total_of U a) * r\<bar> < 9223372036854775807 * of_int U"
  shows "\<not> fst (timermul2 U a (Fin r))"
    and "\<bar>of_int (total_of U (snd (timermul2 U a (Fin r)))) - of_int (total_of U a) * r\<bar>
      < 1 + \<bar>of_int (total_of U a) * r\<bar> / 18446744073709551616"
proof -
  define x where "x = of_int (total_of U a) * r"
  define y where "y = fl_rat c_long_double x"
  have fe: "\<bar>y - x\<bar> \<le> \<bar>x\<bar> / 18446744073709551616 \<or> \<bar>x\<bar> < 1/2 \<and> \<bar>y\<bar> \<le> 1/2"
    unfolding y_def using ld_error [of x] .
  then have yb: "\<bar>y\<bar> \<le> \<bar>x\<bar> + \<bar>x\<bar> / 18446744073709551616 \<or> \<bar>y\<bar> \<le> 1/2" by linarith
  have U: "(2::rat) \<le> of_int U" using U_pos by linarith
  have "\<bar>y\<bar> < 9223372036854775808 * of_int U"
    using yb range U unfolding x_def [symmetric] by linarith
  then have lo: "- 9223372036854775808 * of_int U \<le> y" and hi: "y < 9223372036854775808 * of_int U"
    by linarith+
  note m = mul_exact_total [OF a y_def [unfolded x_def] lo hi]
  have t: "total_of U (snd (timermul2 U a (Fin r))) = trunc_rat y"
    using U_pos by (simp add: m total_of_def)
  show "\<not> fst (timermul2 U a (Fin r))" by (simp add: m)
  have "\<bar>of_int (trunc_rat y) - x\<bar> < 1 + \<bar>x\<bar> / 18446744073709551616"
    using fe
  proof
    assume "\<bar>y - x\<bar> \<le> \<bar>x\<bar> / 18446744073709551616"
    then show ?thesis using trunc_rat_error [of y] by linarith
  next
    assume s: "\<bar>x\<bar> < 1/2 \<and> \<bar>y\<bar> \<le> 1/2"
    then have "trunc_rat y = 0" using trunc_rat_small [of y] by linarith
    then show ?thesis using s by simp
  qed
  then show "\<bar>of_int (total_of U (snd (timermul2 U a (Fin r)))) - of_int (total_of U a) * r\<bar>
      < 1 + \<bar>of_int (total_of U a) * r\<bar> / 18446744073709551616"
    by (simp only: t x_def)
qed

lemma mul_mono:
  assumes a: "\<bar>fst a\<bar> * U + \<bar>snd a\<bar> < 18446744073709551616"
    and b: "\<bar>fst b\<bar> * U + \<bar>snd b\<bar> < 18446744073709551616"
    and ra: "\<bar>of_int (total_of U a) * r\<bar> < 9223372036854775807 * of_int U"
    and rb: "\<bar>of_int (total_of U b) * r\<bar> < 9223372036854775807 * of_int U"
    and r: "0 \<le> r" and ab: "total_of U a \<le> total_of U b"
  shows "total_of U (snd (timermul2 U a (Fin r))) \<le> total_of U (snd (timermul2 U b (Fin r)))"
proof -
  have t: "total_of U (snd (timermul2 U c (Fin r))) = trunc_rat (fl_rat c_long_double (of_int (total_of U c) * r))"
    if c: "\<bar>fst c\<bar> * U + \<bar>snd c\<bar> < 18446744073709551616"
      and rc: "\<bar>of_int (total_of U c) * r\<bar> < 9223372036854775807 * of_int U" for c
  proof -
    let ?x = "of_int (total_of U c) * r"
    have U: "(2::rat) \<le> of_int U" using U_pos by linarith
    have "\<bar>fl_rat c_long_double ?x\<bar> < 9223372036854775808 * of_int U"
      using ld_error [of ?x] rc U by linarith
    then have lo: "- 9223372036854775808 * of_int U \<le> fl_rat c_long_double ?x"
      and hi: "fl_rat c_long_double ?x < 9223372036854775808 * of_int U" by linarith+
    show ?thesis using U_pos mul_exact_total [OF c refl lo hi] by (simp add: total_of_def)
  qed
  have "of_int (total_of U a) * r \<le> of_int (total_of U b) * r"
    using ab r by (intro mult_right_mono) simp_all
  then show ?thesis unfolding t [OF a ra] t [OF b rb] by (intro trunc_rat_mono ldbl.fl_mono)
qed

end

lemma ld_nearest:
  assumes "2 powi e \<le> \<bar>x\<bar>" "\<bar>x\<bar> < 2 powi (e + 1)" "q = e - 63" "- 16445 \<le> q" "e < 16383"
    and "2 * \<bar>x - of_int m * 2 powi q\<bar> < 2 powi q"
  shows "fl_round c_long_double x = Fin (of_int m * 2 powi q)"
proof -
  have r: "fl_rat c_long_double x = of_int m * 2 powi q"
    using assms by (intro fl_rat_nearest [where e = e]) (simp_all add: c_long_double_def)
  have "\<bar>fl_rat c_long_double x\<bar> \<le> \<bar>x\<bar> + 2 powi q"
    using assms(6) zero_less_power_int [of "2::rat" q] unfolding r by (simp add: abs_if split: if_splits)
  also have "\<dots> < 2 powi (e + 1) + 2 powi (e + 1)"
    using assms(2,3) powi2_less_iff [of q "e + 1"] by (intro add_strict_mono) simp_all
  also have "\<dots> = 2 powi (e + 2)" by (simp add: power_int_add)
  also have "\<dots> \<le> 2 powi int (emax c_long_double)"
    using assms(5) by (simp only: powi2_le_iff) (simp add: c_long_double_def)
  finally show ?thesis by (simp only: ldbl.fl_round_Fin r)
qed

lemma ld_max_times_nSEC:
  "fl_round c_long_double 9223372036854775807000000000 = Fin 9223372036854775806926258176"
  using ld_nearest [where x = 9223372036854775807000000000 and e = 92 and q = 29 and m = 17179869183999999998]
  by simp

lemma ld_max_times_uSEC:
  "fl_round c_long_double 9223372036854775807000000 = Fin 9223372036854775806951424"
  using ld_nearest [where x = 9223372036854775807000000 and e = 82 and q = 19 and m = 17592186044415999998]
  by simp

lemma ld_max_nSEC:
  "fl_round c_long_double 9223372036854775807926258175 = Fin 9223372036854775808000000000"
  using ld_nearest [where x = 9223372036854775807926258175 and e = 92 and q = 29 and m = 17179869184000000000]
  by simp

lemma ld_max_uSEC:
  "fl_round c_long_double 9223372036854775807951423 = Fin 9223372036854775808000000"
  using ld_nearest [where x = 9223372036854775807951423 and e = 82 and q = 19 and m = 17592186044416000000]
  by simp

lemma ld_min_nSEC:
  "fl_round c_long_double (- 9223372036854775808000000000) = Fin (- 9223372036854775808000000000)"
  using ld_nearest [where x = "- 9223372036854775808000000000" and e = 92 and q = 29 and m = "- 17179869184000000000"]
  by simp

lemma ld_min_uSEC:
  "fl_round c_long_double (- 9223372036854775808000000) = Fin (- 9223372036854775808000000)"
  using ld_nearest [where x = "- 9223372036854775808000000" and e = 82 and q = 19 and m = "- 17592186044416000000"]
  by simp

lemma fl_of_int_ld:
  "\<bar>n\<bar> < 18446744073709551616 \<Longrightarrow> fl_of_int c_long_double n = Fin (of_int n)"
  by (simp add: fl_of_int_def ld_round_int)

interpretation nsec: time_unit SEC_TO_nSEC
  by unfold_locales
    (simp_all add: mul_max_def mul_min_def SEC_TO_nSEC_def fl_of_int_ld ld_max_times_nSEC ld_max_nSEC ld_min_nSEC)

interpretation usec: time_unit SEC_TO_uSEC
  by unfold_locales
    (simp_all add: mul_max_def mul_min_def SEC_TO_uSEC_def fl_of_int_ld ld_max_times_uSEC ld_max_uSEC ld_min_uSEC)

section \<open>The operations on \<^verbatim>\<open>struct timespec\<close>\<close>

abbreviation ts_total :: "timespec \<Rightarrow> int" where
  "ts_total t \<equiv> total_of SEC_TO_nSEC (ts_pair t)"

abbreviation ts_normal :: "timespec \<Rightarrow> bool" where
  "ts_normal t \<equiv> normal SEC_TO_nSEC (ts_pair t)"

lemma ts_pair_pair_ts [simp]: "ts_pair (pair_ts p) = p"
  by (simp add: pair_ts_def)

lemma ts_total_inj: "ts_normal a \<Longrightarrow> ts_normal b \<Longrightarrow> ts_total a = ts_total b \<Longrightarrow> a = b"
  using nsec.total_inj [of "ts_pair a" "ts_pair b"] by simp

lemma clamp_id: "S64_MIN * U \<le> x \<Longrightarrow> x < 9223372036854775808 * U \<Longrightarrow> clamp_total U x = x"
  by (simp add: clamp_total_def)

lemma ts_total_bounds: "ts_normal a \<Longrightarrow> S64_MIN * SEC_TO_nSEC \<le> ts_total a \<and> ts_total a < 9223372036854775808 * SEC_TO_nSEC"
  by (auto simp: normal_def in_s64_def total_of_def SEC_TO_nSEC_def)

lemma timespecadd_total:
  assumes "ts_normal a" "ts_normal b"
  shows "ts_normal (timespecadd a b)"
    and "ts_total (timespecadd a b) = clamp_total SEC_TO_nSEC (ts_total a + ts_total b)"
  using nsec.add_total [OF assms] by (simp_all add: timespecadd_def)

lemma timespecsub_total:
  assumes "ts_normal a" "ts_normal b"
  shows "ts_normal (timespecsub a b)"
    and "ts_total (timespecsub a b) = clamp_total SEC_TO_nSEC (ts_total a - ts_total b)"
  using nsec.sub_total [OF assms] by (simp_all add: timespecsub_def)

lemma timespecmul_normal: "ts_normal (timespecmul a c)"
  using nsec.mul_normal [of "ts_pair a" c] by (simp add: timespecmul_def)

lemmas timespec_totals = timespecadd_total timespecsub_total timespecmul_normal

section \<open>Properties\<close>

text \<open>
  Claim C10. \<^verbatim>\<open>timespecadd\<close> and \<^verbatim>\<open>timespecsub\<close> of normalised times refine addition and
  subtraction of nanosecond counts, saturated to what a \<^verbatim>\<open>struct timespec\<close> holds, and their
  results are normalised again: no carry is lost and no overflow wraps around. \<^verbatim>\<open>errno\<close> is set to \<^verbatim>\<open>EOVERFLOW\<close> exactly
  when the result is not the exact one.
\<close>

theorem timespec_add_sub_refine:
  assumes "ts_normal a" "ts_normal b"
  shows "ts_normal (timespecadd a b) \<and> ts_normal (timespecsub a b)
    \<and> ts_total (timespecadd a b) = clamp_total SEC_TO_nSEC (ts_total a + ts_total b)
    \<and> ts_total (timespecsub a b) = clamp_total SEC_TO_nSEC (ts_total a - ts_total b)
    \<and> (fst (timeradd2 SEC_TO_nSEC (ts_pair a) (ts_pair b)) \<longleftrightarrow> ts_total (timespecadd a b) \<noteq> ts_total a + ts_total b)
    \<and> (fst (timersub2 SEC_TO_nSEC (ts_pair a) (ts_pair b)) \<longleftrightarrow> ts_total (timespecsub a b) \<noteq> ts_total a - ts_total b)"
  using assms nsec.add_total(3) [of "ts_pair a" "ts_pair b"] nsec.sub_total(3) [of "ts_pair a" "ts_pair b"] by (simp add: timespec_totals)

theorem timespec_add_sub_refine_witness:
  "ts_total (timespecsub \<lparr>tv_sec = 10, tv_nsec = 1\<rparr> \<lparr>tv_sec = 3, tv_nsec = 999999999\<rparr>) = 6000000002"
proof -
  have "ts_normal \<lparr>tv_sec = 10, tv_nsec = 1\<rparr>" "ts_normal \<lparr>tv_sec = 3, tv_nsec = 999999999\<rparr>"
    by (simp_all add: normal_def in_s64_def SEC_TO_nSEC_def)
  from timespec_add_sub_refine [OF this] show ?thesis
    by (simp add: clamp_total_def total_of_def SEC_TO_nSEC_def)
qed

text \<open>
  Claim C11. Scaling a time by a finite factor with \<^verbatim>\<open>timespecmul\<close> gives a normalised time
  that is the exact product up to one truncation and the rounding of the 64-bit significand,
  for every time of less than 2^64 nanoseconds whose product is in the range of
  \<^verbatim>\<open>struct timespec\<close>.
\<close>

theorem timespecmul_error:
  assumes "\<bar>tv_sec a\<bar> * SEC_TO_nSEC + \<bar>tv_nsec a\<bar> < 18446744073709551616"
    and "\<bar>of_int (ts_total a) * r\<bar> < 9223372036854775807 * of_int SEC_TO_nSEC"
  shows "ts_normal (timespecmul a (Fin r)) \<and>
    \<bar>of_int (ts_total (timespecmul a (Fin r))) - of_int (ts_total a) * r\<bar>
      < 1 + \<bar>of_int (ts_total a) * r\<bar> / 18446744073709551616"
  using nsec.mul_error [of "ts_pair a" r] nsec.mul_normal [of "ts_pair a" "Fin r"] assms
  by (simp add: timespecmul_def)

theorem timespecmul_error_witness:
  "\<bar>of_int (ts_total (timespecmul \<lparr>tv_sec = 3, tv_nsec = 5\<rparr> (Fin (1/2)))) - 3000000005 / 2\<bar> < (2::rat)"
  using timespecmul_error [of "\<lparr>tv_sec = 3, tv_nsec = 5\<rparr>" "1/2"]
  by (simp add: total_of_def SEC_TO_nSEC_def)

text \<open>
 Scaling by the same non-negative factor keeps the order of times, so a faked clock
  that runs at a rate never runs backwards because of the scaling.
\<close>

lemma timespecmul_mono:
  assumes "\<bar>tv_sec a\<bar> * SEC_TO_nSEC + \<bar>tv_nsec a\<bar> < 18446744073709551616"
    and "\<bar>tv_sec b\<bar> * SEC_TO_nSEC + \<bar>tv_nsec b\<bar> < 18446744073709551616"
    and "\<bar>of_int (ts_total a) * r\<bar> < 9223372036854775807 * of_int SEC_TO_nSEC"
    and "\<bar>of_int (ts_total b) * r\<bar> < 9223372036854775807 * of_int SEC_TO_nSEC"
    and "0 \<le> r" and "ts_total a \<le> ts_total b"
  shows "ts_total (timespecmul a (Fin r)) \<le> ts_total (timespecmul b (Fin r))"
  using nsec.mul_mono [of "ts_pair a" "ts_pair b" r] assms by (simp add: timespecmul_def)

lemma timespecmul_mono_witness:
  "ts_total (timespecmul \<lparr>tv_sec = 3, tv_nsec = 5\<rparr> (Fin (1/3)))
    \<le> ts_total (timespecmul \<lparr>tv_sec = 4, tv_nsec = 0\<rparr> (Fin (1/3)))"
  using timespecmul_mono [of "\<lparr>tv_sec = 3, tv_nsec = 5\<rparr>" "\<lparr>tv_sec = 4, tv_nsec = 0\<rparr>" "1/3"]
  by (simp add: total_of_def SEC_TO_nSEC_def)

text \<open>
  Claim C12. When the product of \<^verbatim>\<open>timermul2\<close> overflows towards plus infinity (or is NaN), the
  clamp value \<^verbatim>\<open>_ft_max_total\<close> has been rounded up to 2^63 seconds, so the stored
  \<^verbatim>\<open>tv_sec\<close> is the most negative time instead of the largest one.
\<close>

theorem timespecmul_overflow_wraps:
  assumes "mul_overflows SEC_TO_nSEC (mul_total SEC_TO_nSEC (ts_pair a) c)"
    and "\<not> fl_less (mul_total SEC_TO_nSEC (ts_pair a) c) (Fin 0)"
  shows "timespecmul a c = \<lparr>tv_sec = - 9223372036854775808, tv_nsec = 0\<rparr>"
  using nsec.mul_overflow_positive [OF assms] by (simp add: timespecmul_def pair_ts_def)

theorem timespecmul_overflow_wraps_witness:
  "timespecmul \<lparr>tv_sec = 1, tv_nsec = 0\<rparr> (Infty True) = \<lparr>tv_sec = - 9223372036854775808, tv_nsec = 0\<rparr>"
  by (rule timespecmul_overflow_wraps)
    (simp_all add: mul_total_def fl_of_int_ld SEC_TO_nSEC_def ld_round_int [of 1000000000, simplified]
      fl_sgn_def mul_overflows_def isfinite_def)

text \<open>
 \<^verbatim>\<open>normalize_timespec_value\<close> brings the nanoseconds of any time into their
  range without changing the instant it stands for, as long as the seconds do not overflow.
\<close>

lemma normalize_timespec_value_correct:
  assumes "in_s64 (tv_sec t)" and "in_s64 (ts_total t div SEC_TO_nSEC)"
  shows "ts_normal (normalize_timespec_value t) \<and> ts_total (normalize_timespec_value t) = ts_total t"
proof -
  have d: "ts_total t div SEC_TO_nSEC = tv_sec t + tv_nsec t div SEC_TO_nSEC"
    by (simp add: total_of_def SEC_TO_nSEC_def)
  note f = floor_from_trunc [of SEC_TO_nSEC "tv_nsec t", OF nsec.U_gt0]
  show ?thesis
  proof (cases "0 \<le> tv_nsec t \<and> tv_nsec t < SEC_TO_nSEC")
    case True
    then show ?thesis using assms(1) by (simp add: normalize_timespec_value_def normal_def)
  next
    case False
    then have "normalize_timespec_value t =
        \<lparr>tv_sec = wrap_s64 (tv_sec t + tv_nsec t div SEC_TO_nSEC), tv_nsec = tv_nsec t mod SEC_TO_nSEC\<rparr>"
      unfolding normalize_timespec_value_def f [symmetric] by (auto simp: Let_def)
    then show ?thesis using assms(2) nsec.U_gt0
      by (simp add: d wrap_s64_id normal_def total_of_def distrib_right)
  qed
qed

lemma normalize_timespec_value_correct_witness:
  "normalize_timespec_value \<lparr>tv_sec = 5, tv_nsec = - 1\<rparr> = \<lparr>tv_sec = 4, tv_nsec = 999999999\<rparr>"
  by (rule ts_total_inj)
    (insert normalize_timespec_value_correct [of "\<lparr>tv_sec = 5, tv_nsec = - 1\<rparr>"],
      simp_all add: normal_def in_s64_def total_of_def SEC_TO_nSEC_def)

end
