(* ===== verification/Settings.thy ===== *)
theory Settings
  imports C_Stdlib Time_Ops
begin

text \<open>
  The conversion of textual settings to numbers at the head of
  \<^verbatim>\<open>src/src/libfaketime.c\<close>: \<^verbatim>\<open>parse_long_setting\<close> and its non-negative variant, which end the
  process on a malformed value, the finite floating point parsers, and
  \<^verbatim>\<open>double_to_timespec\<close>.
\<close>

section \<open>Definitions\<close>

definition parse_long_setting :: "string \<Rightarrow> string \<Rightarrow> int exitable" where
  "parse_long_setting name v =
    (case strtol v of (result, end, erange) \<Rightarrow>
      if length end = length v \<or> end \<noteq> [] \<or> erange
      then Inl (Exit EXIT_FAILURE (''libfaketime: invalid numeric value for '' @ name @ '': '' @ v))
      else Inr result)"

definition parse_nonnegative_long_setting :: "string \<Rightarrow> string \<Rightarrow> int exitable" where
  "parse_nonnegative_long_setting name v =
    exit_bind (parse_long_setting name v) (\<lambda>result.
      if result < 0 then Inl (Exit EXIT_FAILURE (''libfaketime: negative value for '' @ name @ '': '' @ v))
      else Inr result)"

text \<open>The success flag, the value stored in \<^verbatim>\<open>*result\<close> and the end pointer.\<close>

definition parse_finite_double_prefix :: "char \<Rightarrow> string \<Rightarrow> bool \<times> cfloat \<times> string" where
  "parse_finite_double_prefix dp v =
    (case strtod dp v of (result, end, erange) \<Rightarrow>
      (length end \<noteq> length v \<and> \<not> erange \<and> isfinite result, result, end))"

definition parse_finite_double :: "char \<Rightarrow> string \<Rightarrow> bool \<times> cfloat" where
  "parse_finite_double dp v =
    (case parse_finite_double_prefix dp v of (ok, result, end) \<Rightarrow> (ok \<and> end = [], result))"

definition scale_finite_double :: "cfloat \<Rightarrow> cfloat \<Rightarrow> cfloat option" where
  "scale_finite_double v factor =
    (let scaled = fl_mul c_double v factor in if \<not> isfinite scaled then None else Some scaled)"

text \<open>
  The conversions from \<^verbatim>\<open>double\<close> to \<^verbatim>\<open>long double\<close>, of \<^verbatim>\<open>max_time\<close> and \<^verbatim>\<open>min_time\<close> to
  \<^verbatim>\<open>long double\<close>, and \<^verbatim>\<open>floorl\<close> are exact. \<open>None\<close> is the result \<^verbatim>\<open>false\<close>.
\<close>

definition double_to_timespec :: "cfloat \<Rightarrow> timespec option" where
  "double_to_timespec v =
    (case v of
       Fin x \<Rightarrow>
         let whole = \<lfloor>x\<rfloor>
         in if (whole \<ge> 0 \<and> whole \<ge> S64_MAX) \<or> (whole < 0 \<and> whole \<le> S64_MIN) then None
            else let fraction = fl_mul c_long_double (fl_add c_long_double (Fin x) (Fin (- of_int whole)))
                                  (fl_of_int c_long_double SEC_TO_nSEC);
                     nsec = fl_trunc fraction
                 in if nsec \<ge> SEC_TO_nSEC then Some \<lparr>tv_sec = wrap_s64 (whole + 1), tv_nsec = 0\<rparr>
                    else Some \<lparr>tv_sec = whole, tv_nsec = nsec\<rparr>
     | _ \<Rightarrow> None)"

section \<open>Lemmas\<close>

lemma parse_long_setting_show:
  "in_s64 i \<Longrightarrow> parse_long_setting name (show_int i) = Inr i"
proof -
  assume "in_s64 i"
  moreover have "show_int i \<noteq> []" by (simp add: show_int_def show_nat_nonempty)
  ultimately show ?thesis by (simp add: parse_long_setting_def strtol_show_int)
qed

lemma strtol_in_s64: "in_s64 (fst (strtol s))"
  by (auto simp: strtol_def Let_def in_s64_def split: prod.splits)

lemma parse_long_setting_in_s64: "returns (parse_long_setting name v) in_s64"
  using strtol_in_s64 [of v] by (auto simp: parse_long_setting_def split: prod.splits)

text \<open>Rounding to \<^verbatim>\<open>long double\<close> stays within an interval whose ends are representable.\<close>

lemma ld_round_interval:
  assumes x: "0 \<le> x" "x \<le> of_int n" and n: "0 \<le> n" "n < 18446744073709551616"
  shows "fl_round c_long_double x = Fin (fl_rat c_long_double x)"
    and "0 \<le> fl_rat c_long_double x" and "fl_rat c_long_double x \<le> of_int n"
proof -
  have "fl_rat c_long_double x \<le> fl_rat c_long_double (of_int n)" using x(2) by (rule ldbl.fl_mono)
  also have "\<dots> = of_int n" using n by (intro ldbl.fl_exact_int) (simp add: c_long_double_def)
  finally show le: "fl_rat c_long_double x \<le> of_int n" .
  show ge: "0 \<le> fl_rat c_long_double x" using x(1) by (rule fl_rat_nonneg)
  have "rat_of_int n < of_int 18446744073709551616" using n(2) by (simp only: of_int_less_iff)
  then have "\<bar>fl_rat c_long_double x\<bar> < 18446744073709551616"
    using le ge by simp
  also have "(18446744073709551616::rat) = 2 powi 64" by (simp add: power_int_def)
  also have "\<dots> \<le> 2 powi int (emax c_long_double)" by (simp only: powi2_le_iff) (simp add: c_long_double_def)
  finally show "fl_round c_long_double x = Fin (fl_rat c_long_double x)" by (rule ldbl.fl_round_Fin)
qed

lemma ld_error_unit: "0 \<le> x \<Longrightarrow> x \<le> 1 \<Longrightarrow> \<bar>fl_rat c_long_double x - x\<bar> \<le> 1 / 18446744073709551616"
proof -
  assume x: "0 \<le> x" "x \<le> 1"
  show ?thesis
  proof (cases "2 powi (qmin c_long_double + int (precision c_long_double) - 1) \<le> \<bar>x\<bar>")
    case True
    have "\<bar>fl_rat c_long_double x - x\<bar> \<le> \<bar>x\<bar> * 2 powi (- int (precision c_long_double))"
      using True by (rule ldbl.fl_error)
    also have "\<dots> \<le> 1 * 2 powi (- int (precision c_long_double))"
      using x by (intro mult_right_mono) simp_all
    also have "\<dots> = 1 / 18446744073709551616"
      by (simp add: c_long_double_def power_int_def power_divide)
    finally show ?thesis .
  next
    case False
    let ?e = "qmin c_long_double + int (precision c_long_double) - 1"
    have e: "\<bar>x\<bar> \<le> 2 powi ?e" using False by linarith
    have "fl_rat c_long_double x \<le> fl_rat c_long_double (2 powi ?e)"
      using e by (intro ldbl.fl_mono) linarith
    also have "\<dots> = 2 powi ?e"
      by (rule ldbl.fl_exact [where m = 1 and e = ?e]) (simp, simp_all add: c_long_double_def)
    finally have "fl_rat c_long_double x \<le> 2 powi ?e" .
    moreover have "0 \<le> fl_rat c_long_double x" using x(1) by (rule fl_rat_nonneg)
    ultimately have "\<bar>fl_rat c_long_double x - x\<bar> \<le> 2 powi ?e" using x e by linarith
    also have "\<dots> \<le> 2 powi (- 64)" by (simp only: powi2_le_iff) (simp add: c_long_double_def)
    finally show ?thesis by (simp add: power_int_def power_divide)
  qed
qed

text \<open>The nanoseconds \<^verbatim>\<open>double_to_timespec\<close> computes from the fraction of a value.\<close>

lemma fraction_nsec:
  assumes f: "0 \<le> f" "f < 1"
  defines "n \<equiv> fl_trunc (fl_mul c_long_double (fl_round c_long_double f) (fl_of_int c_long_double SEC_TO_nSEC))"
  shows "0 \<le> n" and "n \<le> 1000000000" and "\<bar>of_int n - f * 1000000000\<bar> < 1 + 1 / 8589934592"
proof -
  define f' where "f' = fl_rat c_long_double f"
  define g where "g = f' * 1000000000"
  have r1: "fl_round c_long_double f = Fin f'" and f': "0 \<le> f'" "f' \<le> 1"
    using ld_round_interval [of f 1] f by (simp_all add: f'_def)
  have g: "0 \<le> g" "g \<le> of_int 1000000000" using f' by (simp_all add: g_def)
  note g' = ld_round_interval [OF g]
  have n: "n = trunc_rat (fl_rat c_long_double g)"
    using g'(1) by (simp add: n_def r1 fl_of_int_ld SEC_TO_nSEC_def g_def)
  show "0 \<le> n" using g'(2) by (simp add: n trunc_rat_ge)
  have "trunc_rat (fl_rat c_long_double g) \<le> trunc_rat (of_int 1000000000)"
    using g'(3) by (intro trunc_rat_mono) simp
  then show "n \<le> 1000000000" by (simp only: n trunc_rat_of_int)
  have "\<bar>f' - f\<bar> \<le> 1 / 18446744073709551616" using ld_error_unit [of f] f by (simp add: f'_def)
  then have "\<bar>f' - f\<bar> * 1000000000 \<le> 1 / 18446744073709551616 * 1000000000"
    by (rule mult_right_mono) simp
  moreover have "g - f * 1000000000 = (f' - f) * 1000000000" by (simp add: g_def algebra_simps)
  ultimately have "\<bar>g - f * 1000000000\<bar> \<le> 1 / 18446744073709551616 * 1000000000"
    by (simp only: abs_mult abs_numeral)
  then have e1: "\<bar>g - f * 1000000000\<bar> \<le> 1 / 18000000000" by linarith
  have "\<bar>fl_rat c_long_double g - g\<bar> \<le> \<bar>g\<bar> / 18446744073709551616 \<or> \<bar>g\<bar> < 1/2 \<and> \<bar>fl_rat c_long_double g\<bar> \<le> 1/2"
    by (rule ld_error)
  then show "\<bar>of_int n - f * 1000000000\<bar> < 1 + 1 / 8589934592"
  proof
    assume "\<bar>fl_rat c_long_double g - g\<bar> \<le> \<bar>g\<bar> / 18446744073709551616"
    moreover have "\<bar>g\<bar> / 18446744073709551616 \<le> 1 / 18000000000" using g by simp
    ultimately show ?thesis using e1 trunc_rat_error [of "fl_rat c_long_double g"] unfolding n by linarith
  next
    assume a: "\<bar>g\<bar> < 1/2 \<and> \<bar>fl_rat c_long_double g\<bar> \<le> 1/2"
    then have "n = 0" unfolding n by (intro trunc_rat_small) linarith
    then have "of_int n = (0::rat)" by simp
    then show ?thesis using a e1 by linarith
  qed
qed

lemma double_to_timespec_cases:
  assumes "S64_MIN < \<lfloor>x\<rfloor>" "\<lfloor>x\<rfloor> < S64_MAX"
  obtains n where "0 \<le> n" "n \<le> 1000000000"
    "\<bar>of_int n - (x - of_int \<lfloor>x\<rfloor>) * 1000000000\<bar> < 1 + 1 / 8589934592"
    "double_to_timespec (Fin x) =
      Some (if n \<ge> SEC_TO_nSEC then \<lparr>tv_sec = \<lfloor>x\<rfloor> + 1, tv_nsec = 0\<rparr> else \<lparr>tv_sec = \<lfloor>x\<rfloor>, tv_nsec = n\<rparr>)"
proof -
  have f: "0 \<le> x - of_int \<lfloor>x\<rfloor>" "x - of_int \<lfloor>x\<rfloor> < 1" by linarith+
  have "in_s64 (\<lfloor>x\<rfloor> + 1)" using assms unfolding in_s64_def by linarith
  then show ?thesis using that [OF fraction_nsec [OF f]] assms
    by (simp add: double_to_timespec_def Let_def wrap_s64_id)
qed

section \<open>Properties\<close>

text \<open>
 A numeric setting written in decimal is read back exactly, over the whole range
  of \<^verbatim>\<open>long\<close>; the non-negative variant accepts exactly the non-negative ones and otherwise
  ends the process with a failure status.
\<close>

lemma parse_long_setting_roundtrip:
  assumes "in_s64 i"
  shows "parse_long_setting name (show_int i) = Inr i \<and>
    (parse_nonnegative_long_setting name (show_int i) = Inr i \<longleftrightarrow> 0 \<le> i) \<and>
    (i < 0 \<longrightarrow> parse_nonnegative_long_setting name (show_int i)
      = Inl (Exit 1 (''libfaketime: negative value for '' @ name @ '': '' @ show_int i)))"
  using assms by (simp add: parse_nonnegative_long_setting_def parse_long_setting_show)

lemma parse_long_setting_roundtrip_witness:
  "parse_long_setting ''FAKETIME_CACHE_DURATION'' (show_int (- 42)) = Inr (- 42)"
  using parse_long_setting_roundtrip [of "- 42"] by (simp add: in_s64_def)

text \<open>
  Claim C13. \<^verbatim>\<open>double_to_timespec\<close> accepts every finite value whose whole part is strictly inside
  the range of \<^verbatim>\<open>time_t\<close>; the result is a normalised time within 1 + 2^-33 nanoseconds of the
  value, for negative values too. Everything else it rejects.
\<close>

theorem double_to_timespec_correct:
  "(\<exists>x t. v = Fin x \<and> S64_MIN < \<lfloor>x\<rfloor> \<and> \<lfloor>x\<rfloor> < S64_MAX \<and> double_to_timespec v = Some t \<and> ts_normal t \<and>
      \<bar>of_int (ts_total t) - x * 1000000000\<bar> < 1 + 1 / 8589934592)
    \<or> ((\<forall>x. v = Fin x \<longrightarrow> \<lfloor>x\<rfloor> \<le> S64_MIN \<or> S64_MAX \<le> \<lfloor>x\<rfloor>) \<and> double_to_timespec v = None)"
proof (cases "\<exists>x. v = Fin x \<and> S64_MIN < \<lfloor>x\<rfloor> \<and> \<lfloor>x\<rfloor> < S64_MAX")
  case True
  then obtain x where x: "v = Fin x" "S64_MIN < \<lfloor>x\<rfloor>" "\<lfloor>x\<rfloor> < S64_MAX" by blast
  obtain n where n: "0 \<le> n" "n \<le> 1000000000"
      "\<bar>of_int n - (x - of_int \<lfloor>x\<rfloor>) * 1000000000\<bar> < 1 + 1 / 8589934592"
    and t: "double_to_timespec (Fin x) =
      Some (if n \<ge> SEC_TO_nSEC then \<lparr>tv_sec = \<lfloor>x\<rfloor> + 1, tv_nsec = 0\<rparr> else \<lparr>tv_sec = \<lfloor>x\<rfloor>, tv_nsec = n\<rparr>)"
    using x(2,3) by (rule double_to_timespec_cases)
  have "of_int (\<lfloor>x\<rfloor> * 1000000000 + n) - x * 1000000000 = of_int n - (x - of_int \<lfloor>x\<rfloor>) * 1000000000"
    by (simp add: algebra_simps)
  with n(3) have e: "\<bar>of_int (\<lfloor>x\<rfloor> * 1000000000 + n) - x * 1000000000\<bar> < 1 + 1 / 8589934592"
    by (simp only:)
  show ?thesis
  proof (cases "n = 1000000000")
    case n1: True
    have "total_of SEC_TO_nSEC (\<lfloor>x\<rfloor> + 1, 0) = \<lfloor>x\<rfloor> * 1000000000 + n"
      by (simp add: total_of_def SEC_TO_nSEC_def n1)
    moreover have "in_s64 (\<lfloor>x\<rfloor> + 1)" using x(2,3) unfolding in_s64_def by linarith
    ultimately show ?thesis using n1 t x e by (simp add: SEC_TO_nSEC_def normal_def)
  next
    case False
    with n have "n < 1000000000" by simp
    with n t x e show ?thesis by (simp add: SEC_TO_nSEC_def normal_def in_s64_def total_of_def)
  qed
next
  case False
  then have "double_to_timespec v = None" by (auto simp: double_to_timespec_def split: cfloat.splits)
  moreover have "\<forall>x. v = Fin x \<longrightarrow> \<lfloor>x\<rfloor> \<le> S64_MIN \<or> S64_MAX \<le> \<lfloor>x\<rfloor>"
    using False by (metis not_le)
  ultimately show ?thesis by blast
qed

theorem double_to_timespec_correct_witness:
  "\<exists>t. double_to_timespec (Fin (- 3/2)) = Some t \<and> \<bar>of_int (ts_total t) + 1500000000\<bar> < (2::rat)"
  using double_to_timespec_correct [of "Fin (- 3/2)"] by auto

end
