(* ===== verification/Ft_State.thy ===== *)
theory Ft_State
  imports Settings "HOL-Library.AList"
begin

text \<open>
  The state the library works on. \<open>os_state\<close> is what it sees of its surroundings: the
  environment, the real clocks, the lock protecting the shared memory, the shared memory
  itself, the file it saves timestamps to, configuration files, and the outcomes of the calls that
  may fail. \<open>ft_state\<close> adds the static variables of \<^verbatim>\<open>src/src/libfaketime.c\<close>, under
  their names. The structures of \<^verbatim>\<open>src/src/faketime_common.h\<close> are here too.

  What an interrupted or failing call does is given by scripts: a script is the finite list of
  outcomes of the calls still to come, and a call on an empty script succeeds. So a loop that
  retries while a call is interrupted ends when its script does.
\<close>

section \<open>Clock identifiers and error numbers\<close>

abbreviation (input) CLOCK_REALTIME :: int where "CLOCK_REALTIME \<equiv> 0"
abbreviation (input) CLOCK_MONOTONIC :: int where "CLOCK_MONOTONIC \<equiv> 1"
abbreviation (input) CLOCK_PROCESS_CPUTIME_ID :: int where "CLOCK_PROCESS_CPUTIME_ID \<equiv> 2"
abbreviation (input) CLOCK_THREAD_CPUTIME_ID :: int where "CLOCK_THREAD_CPUTIME_ID \<equiv> 3"
abbreviation (input) CLOCK_MONOTONIC_RAW :: int where "CLOCK_MONOTONIC_RAW \<equiv> 4"
abbreviation (input) CLOCK_REALTIME_COARSE :: int where "CLOCK_REALTIME_COARSE \<equiv> 5"
abbreviation (input) CLOCK_MONOTONIC_COARSE :: int where "CLOCK_MONOTONIC_COARSE \<equiv> 6"
abbreviation (input) CLOCK_BOOTTIME :: int where "CLOCK_BOOTTIME \<equiv> 7"

abbreviation (input) EINTR :: int where "EINTR \<equiv> 4"
abbreviation (input) EIO :: int where "EIO \<equiv> 5"
abbreviation (input) EFAULT :: int where "EFAULT \<equiv> 14"
abbreviation (input) EINVAL :: int where "EINVAL \<equiv> 22"
abbreviation (input) ENOSYS :: int where "ENOSYS \<equiv> 38"
abbreviation (input) EPERM :: int where "EPERM \<equiv> 1"

section \<open>Structures of \<^verbatim>\<open>faketime_common.h\<close>\<close>

record system_time_s =
  st_real :: timespec
  st_mon :: timespec
  st_mon_raw :: timespec
  st_boot :: timespec

record ft_shared_time_s =
  sh_sec :: int
  sh_nsec :: int

record ft_shared_s =
  magic :: int
  version :: int
  shm_size :: int
  ticks :: int
  file_idx :: int
  start_time_real :: ft_shared_time_s
  start_time_mon :: ft_shared_time_s
  start_time_mon_raw :: ft_shared_time_s
  start_time_boot :: ft_shared_time_s

definition FT_SHARED_MAGIC :: int where "FT_SHARED_MAGIC = 0x46544c42"
definition FT_SHARED_VERSION :: int where "FT_SHARED_VERSION = 1"

text \<open>\<^verbatim>\<open>sizeof(struct ft_shared_s)\<close>: 8 bytes of header, two counters, four times.\<close>

definition sizeof_ft_shared_s :: int where "sizeof_ft_shared_s = 8 + 2 * 8 + 4 * 16"

datatype ft_mode_t = FT_FREEZE | FT_START_AT | FT_NOOP

datatype ft_init_state = FT_INIT_UNINITIALIZED | FT_INIT_INITIALIZING | FT_INIT_READY | FT_INIT_FAILED

section \<open>The surroundings of the library\<close>

datatype spawn_event =
    System_Call string
  | Posix_Spawn string "string list" "string list"

record os_state =
  environ :: "(string \<times> string) list"
  clk_read :: "nat \<Rightarrow> int \<Rightarrow> timespec option"
  clk_count :: nat
  lock_script :: "int list"
  unlock_script :: "int list"
  sem_held :: bool
  shm :: ft_shared_s
  out_bytes :: "int list"
  write_script :: "int list"
  config_files :: "string \<Rightarrow> string option"
  read_script :: "int list"
  close_fails :: bool
  mtimes :: "string \<Rightarrow> timespec option"
  strptime_mktime :: "string \<Rightarrow> string \<Rightarrow> (int \<times> nat) option"
  decimal_point :: char
  spawn_script :: "int list"
  spawn_log :: "spawn_event list"
  missing_real :: "string \<Rightarrow> bool"
  self_pid :: int
  progname :: string
  have_symbol :: "string \<Rightarrow> bool"
  lock_files :: "string list"
  shm_objs :: "(string \<times> int \<times> ft_shared_s) list"
  data_files :: "string \<Rightarrow> int list option"
  call_script :: "int list"
  unlink_script :: "int list"
  errno :: int

section \<open>The static variables\<close>

record limits_state = os_state +
  limited_faking :: bool
  callcounter :: int
  ft_start_after_secs :: int
  ft_stop_after_secs :: int
  ft_start_after_ncalls :: int
  ft_stop_after_ncalls :: int
  spawnsupport :: bool
  spawn_exec_support :: bool
  spawned :: int
  ft_spawn_target :: string
  ft_spawn_exec :: string
  ft_spawn_argv :: "string list"
  ft_spawn_secs :: int
  ft_spawn_ncalls :: int

record user_state = limits_state +
  user_faked_time_fmt :: string
  user_faked_time_timespec :: timespec
  user_faked_time_set :: bool
  user_faked_time_saved :: string
  user_offset :: timespec
  user_rate :: cfloat
  user_rate_set :: bool
  user_per_tick_inc :: timespec
  user_per_tick_inc_set :: bool
  ft_mode :: ft_mode_t
  parse_config_file :: bool

record ft_state = user_state +
  dont_fake :: bool
  shared_sem_initialized :: bool
  stss :: "(int list \<times> int list) list"
  infile_size :: int
  infile_set :: bool
  outfile :: int
  fake_monotonic_clock :: int
  cache_enabled :: int
  cache_duration :: int
  force_cache_expiration :: int
  ftpl_starttime :: system_time_s
  ftpl_timecache :: system_time_s
  ftpl_faketimecache :: system_time_s
  fake_utime_disabled :: int
  fake_stat_disabled :: bool
  last_data_fetch :: int
  cache_expired :: int
  shmCreator :: bool
  ft_shared_mapped :: bool
  shm_init_state :: ft_init_state
  ftpl_init_state :: ft_init_state
  user_per_tick_inc_set_backup :: bool

section \<open>Static initialisers\<close>

definition unset_time :: timespec where "unset_time = \<lparr>tv_sec = 0, tv_nsec = - 1\<rparr>"

definition unset_system_time :: system_time_s where
  "unset_system_time =
    \<lparr>st_real = unset_time, st_mon = unset_time, st_mon_raw = unset_time, st_boot = unset_time\<rparr>"

text \<open>The state of a freshly loaded library in given surroundings.\<close>

definition static_state :: "os_state \<Rightarrow> ft_state" where
  "static_state os = \<lparr>environ = environ os, clk_read = clk_read os, clk_count = clk_count os, lock_script = lock_script os,
     unlock_script = unlock_script os, sem_held = sem_held os, shm = shm os, out_bytes = out_bytes os,
     write_script = write_script os, config_files = config_files os, read_script = read_script os, close_fails = close_fails os,
     mtimes = mtimes os, strptime_mktime = strptime_mktime os, decimal_point = decimal_point os, spawn_script = spawn_script os,
     spawn_log = spawn_log os, missing_real = missing_real os,
     self_pid = self_pid os, progname = progname os, have_symbol = have_symbol os, lock_files = lock_files os,
     shm_objs = shm_objs os, data_files = data_files os, call_script = call_script os, unlink_script = unlink_script os, errno = errno os,
     limited_faking = False, callcounter = 0,
     ft_start_after_secs = - 1, ft_stop_after_secs = - 1, ft_start_after_ncalls = - 1, ft_stop_after_ncalls = - 1,
     spawnsupport = False, spawn_exec_support = False, spawned = 0,
     ft_spawn_target = [], ft_spawn_exec = [], ft_spawn_argv = [], ft_spawn_secs = - 1, ft_spawn_ncalls = - 1,
     user_faked_time_fmt = [], user_faked_time_timespec = unset_time, user_faked_time_set = False,
     user_faked_time_saved = [], user_offset = unset_time, user_rate = Fin 1, user_rate_set = False,
     user_per_tick_inc = unset_time, user_per_tick_inc_set = False, ft_mode = FT_FREEZE, parse_config_file = True,
     dont_fake = False, shared_sem_initialized = False, stss = [], infile_size = 0, infile_set = False,
     outfile = - 1, fake_monotonic_clock = 1, cache_enabled = 1, cache_duration = 10, force_cache_expiration = 0,
     ftpl_starttime = unset_system_time, ftpl_timecache = unset_system_time, ftpl_faketimecache = unset_system_time,
     fake_utime_disabled = 1, fake_stat_disabled = False, last_data_fetch = 0, cache_expired = 1,
     shmCreator = False, ft_shared_mapped = False, shm_init_state = FT_INIT_UNINITIALIZED,
     ftpl_init_state = FT_INIT_UNINITIALIZED, user_per_tick_inc_set_backup = False\<rparr>"

text \<open>
  Surroundings to evaluate examples in: no environment variable, clocks that advance one
  second per reading, calls that succeed, and a date parser that knows one date.
\<close>

definition new_shared :: ft_shared_s where
  "new_shared = \<lparr>magic = FT_SHARED_MAGIC, version = FT_SHARED_VERSION, shm_size = sizeof_ft_shared_s,
     ticks = 0, file_idx = 0,
     start_time_real = \<lparr>sh_sec = 0, sh_nsec = - 1\<rparr>, start_time_mon = \<lparr>sh_sec = 0, sh_nsec = - 1\<rparr>,
     start_time_mon_raw = \<lparr>sh_sec = 0, sh_nsec = - 1\<rparr>, start_time_boot = \<lparr>sh_sec = 0, sh_nsec = - 1\<rparr>\<rparr>"

definition sample_os :: os_state where
  "sample_os = \<lparr>environ = [], clk_read = \<lambda>n clk. Some \<lparr>tv_sec = 1000 + int n, tv_nsec = 0\<rparr>, clk_count = 0,
     lock_script = [], unlock_script = [], sem_held = False, shm = new_shared, out_bytes = [],
     write_script = [], config_files = Map.empty, read_script = [], close_fails = False, mtimes = Map.empty,
     strptime_mktime = (\<lambda>fmt t. if str_prefix ''2020-12-24 20:30:00'' t then Some (1608841800, 19) else None),
     decimal_point = CHR ''.'', spawn_script = [], spawn_log = [], missing_real = (\<lambda>_. False), self_pid = 42, progname = ''prog'',
     have_symbol = (\<lambda>_. True), lock_files = [], shm_objs = [], data_files = Map.empty, call_script = [], unlink_script = [], errno = 0\<rparr>"

section \<open>Environment variables\<close>

definition getenv :: "string \<Rightarrow> 'a os_state_scheme \<Rightarrow> string option" where
  "getenv name s = map_of (environ s) name"

definition setenv :: "string \<Rightarrow> string \<Rightarrow> 'a os_state_scheme \<Rightarrow> 'a os_state_scheme" where
  "setenv name v s = s\<lparr>environ := AList.update name v (environ s)\<rparr>"

definition unsetenv :: "string \<Rightarrow> 'a os_state_scheme \<Rightarrow> 'a os_state_scheme" where
  "unsetenv name s = s\<lparr>environ := AList.delete name (environ s)\<rparr>"

lemmas static_defs = static_state_def sample_os_def

end
