(* ===== verification/Shared_State.thy ===== *)
theory Shared_State
  imports Ft_State
begin

text \<open>
  The state shared among the processes one \<^verbatim>\<open>faketime\<close> command starts: the validity checks of
  \<^verbatim>\<open>src/src/faketime_common.h\<close>, the conversions between the shared and the local start time, the
  names of the shared objects, the lock around the shared memory (\<^verbatim>\<open>ft_sem_lock\<close> and
  \<^verbatim>\<open>ft_sem_unlock\<close> of \<^verbatim>\<open>src/src/ft_sem.c\<close> with its default \<^verbatim>\<open>flock\<close> backend), the reading
  of the system clocks, and the two operations that update the shared memory,
  \<^verbatim>\<open>next_time\<close> and \<^verbatim>\<open>reset_time\<close>.
\<close>

section \<open>Validity of the shared header\<close>

definition ft_shared_time_valid :: "ft_shared_time_s option \<Rightarrow> bool" where
  "ft_shared_time_valid t =
    (case t of None \<Rightarrow> False
     | Some t \<Rightarrow> sh_nsec t = - 1 \<or> (sh_nsec t \<ge> 0 \<and> sh_nsec t < 1000000000))"

definition ft_shared_header_valid :: "ft_shared_s option \<Rightarrow> bool" where
  "ft_shared_header_valid shared =
    (case shared of None \<Rightarrow> False
     | Some h \<Rightarrow>
        magic h = FT_SHARED_MAGIC \<and> version h = FT_SHARED_VERSION \<and> shm_size h = sizeof_ft_shared_s \<and>
        ft_shared_time_valid (Some (start_time_real h)) \<and>
        ft_shared_time_valid (Some (start_time_mon h)) \<and>
        ft_shared_time_valid (Some (start_time_mon_raw h)) \<and>
        ft_shared_time_valid (Some (start_time_boot h)))"

definition valid_shared_header :: "ft_shared_s option \<Rightarrow> bool" where
  "valid_shared_header shared = ft_shared_header_valid shared"

section \<open>Shared and local start times\<close>

definition ts_to_shared :: "timespec \<Rightarrow> ft_shared_time_s" where
  "ts_to_shared t = \<lparr>sh_sec = tv_sec t, sh_nsec = tv_nsec t\<rparr>"

definition shared_to_ts :: "ft_shared_time_s \<Rightarrow> timespec" where
  "shared_to_ts t = \<lparr>tv_sec = sh_sec t, tv_nsec = sh_nsec t\<rparr>"

definition system_time_to_shared :: "system_time_s \<Rightarrow> ft_shared_s \<Rightarrow> ft_shared_s" where
  "system_time_to_shared src dst = dst\<lparr>
     start_time_real := ts_to_shared (st_real src),
     start_time_mon := ts_to_shared (st_mon src),
     start_time_mon_raw := ts_to_shared (st_mon_raw src),
     start_time_boot := ts_to_shared (st_boot src)\<rparr>"

definition shared_to_system_time :: "ft_shared_s \<Rightarrow> system_time_s" where
  "shared_to_system_time src = \<lparr>
     st_real = shared_to_ts (start_time_real src),
     st_mon = shared_to_ts (start_time_mon src),
     st_mon_raw = shared_to_ts (start_time_mon_raw src),
     st_boot = shared_to_ts (start_time_boot src)\<rparr>"

section \<open>Names of the shared objects\<close>

definition valid_shared_name :: "string \<Rightarrow> string \<Rightarrow> bool" where
  "valid_shared_name name prefix =
    (if \<not> str_prefix prefix name \<or> length name = length prefix then False
     else list_all (\<lambda>c. \<not> (char_code c < 48 \<or> char_code c > 57)) (drop (length prefix) name))"

text \<open>
  One \<^verbatim>\<open>%255s\<close> of \<^verbatim>\<open>sscanf\<close>: skip white space, then take at most 255 non-space characters;
  \<open>None\<close> when there is none.
\<close>

definition scan_word :: "nat \<Rightarrow> string \<Rightarrow> (string \<times> string) option" where
  "scan_word n s =
    (let t = dropWhile isspace s; w = take n (takeWhile (\<lambda>c. \<not> isspace c) t)
     in if w = [] then None else Some (w, drop (length w) t))"

definition parse_shared_objects :: "string \<Rightarrow> (string \<times> string) option" where
  "parse_shared_objects v =
    (case scan_word 255 v of None \<Rightarrow> None
     | Some (sem_name, r) \<Rightarrow>
        case scan_word 255 r of None \<Rightarrow> None
        | Some (shm_name, r') \<Rightarrow>
           if scan_word 1 r' \<noteq> None then None
           else if valid_shared_name sem_name ''/faketime_sem_'' \<and> valid_shared_name shm_name ''/faketime_shm_''
           then Some (sem_name, shm_name) else None)"

section \<open>The lock\<close>

text \<open>\<^verbatim>\<open>flock(fd, LOCK_EX)\<close> and \<^verbatim>\<open>flock(fd, LOCK_UN)\<close>: 0, or -1 and an error number.\<close>

definition ft_sem_lock :: "ft_state \<Rightarrow> int \<times> ft_state" where
  "ft_sem_lock s =
    (case lock_script s of
       [] \<Rightarrow> (0, s\<lparr>sem_held := True\<rparr>)
     | e # es \<Rightarrow> if e = 0 then (0, s\<lparr>sem_held := True, lock_script := es\<rparr>)
                 else (- 1, s\<lparr>errno := e, lock_script := es\<rparr>))"

definition ft_sem_unlock :: "ft_state \<Rightarrow> int \<times> ft_state" where
  "ft_sem_unlock s =
    (case unlock_script s of
       [] \<Rightarrow> (0, s\<lparr>sem_held := False\<rparr>)
     | e # es \<Rightarrow> if e = 0 then (0, s\<lparr>sem_held := False, unlock_script := es\<rparr>)
                 else (- 1, s\<lparr>errno := e, unlock_script := es\<rparr>))"

section \<open>The system clocks\<close>

text \<open>
  \<^verbatim>\<open>(*real_clock_gettime)(clk, &t)\<close> under \<^verbatim>\<open>DONT_FAKE_TIME\<close>: the result code, and the time
  stored in \<open>t\<close> (which keeps its value \<open>old\<close> when the call fails). Every reading happens at
  a later moment than the one before.
\<close>

definition real_clock_gettime :: "int \<Rightarrow> timespec \<Rightarrow> ft_state \<Rightarrow> (int \<times> timespec) \<times> ft_state" where
  "real_clock_gettime clk old s =
    (case clk_read s (clk_count s) clk of
       None \<Rightarrow> ((- 1, old), s\<lparr>clk_count := Suc (clk_count s), errno := EINVAL\<rparr>)
     | Some t \<Rightarrow> ((0, t), s\<lparr>clk_count := Suc (clk_count s)\<rparr>))"

definition system_time_from_system :: "system_time_s \<Rightarrow> ft_state \<Rightarrow> system_time_s \<times> ft_state" where
  "system_time_from_system systime s =
    (let ((_, r), s) = real_clock_gettime CLOCK_REALTIME (st_real systime) s;
         ((_, m), s) = real_clock_gettime CLOCK_MONOTONIC (st_mon systime) s;
         ((_, w), s) = real_clock_gettime CLOCK_MONOTONIC_RAW (st_mon_raw systime) s;
         ((_, b), s) = real_clock_gettime CLOCK_BOOTTIME (st_boot systime) s
     in (\<lparr>st_real = r, st_mon = m, st_mon_raw = w, st_boot = b\<rparr>, s))"

section \<open>Operations on the shared memory\<close>

text \<open>What \<^verbatim>\<open>next_time\<close> does while it holds the lock.\<close>

definition next_tick :: "timespec \<Rightarrow> timespec \<Rightarrow> ft_shared_s \<Rightarrow> timespec \<times> ft_shared_s" where
  "next_tick base ticklen sh =
    (timespecadd base (timespecmul ticklen (fl_of_int c_long_double (ticks sh))),
     sh\<lparr>ticks := (ticks sh + 1) mod 18446744073709551616\<rparr>)"

definition next_time_locked :: "timespec \<Rightarrow> ft_state \<Rightarrow> (timespec \<times> ft_state) exitable" where
  "next_time_locked ticklen s1 =
    (let (tp, sh) = next_tick (user_faked_time_timespec s1) ticklen (shm s1);
         (u, s2) = ft_sem_unlock (s1\<lparr>shm := sh\<rparr>)
     in if u = - 1 then Inl (Exit 1 ''libfaketime: In next_time(), ft_sem_unlock failed'')
        else Inr (tp, s2))"

function next_time :: "timespec \<Rightarrow> timespec \<Rightarrow> ft_state \<Rightarrow> (timespec \<times> ft_state) exitable" where
  "next_time tp ticklen s =
    (if shared_sem_initialized s then
       (case ft_sem_lock s of (r, s1) \<Rightarrow>
          if r = - 1 then
            (if errno s1 = EINTR then next_time tp ticklen s1
             else Inl (Exit 1 ''libfaketime: In next_time(), ft_sem_lock failed''))
          else
            next_time_locked ticklen s1)
     else Inr (tp, s))"
  by pat_completeness auto
termination
  by (relation "measure (\<lambda>(tp, ticklen, s). length (lock_script s))")
    (auto simp: ft_sem_lock_def split: list.splits if_splits)

definition reset_time :: "ft_state \<Rightarrow> ft_state exitable" where
  "reset_time s =
    (let (st, s) = system_time_from_system (ftpl_starttime s) s;
         s = s\<lparr>ftpl_starttime := st\<rparr>
     in if shared_sem_initialized s then
          (let (r, s) = ft_sem_lock s
           in if r = - 1 then Inl (Exit 1 ''libfaketime: In reset_time(), ft_sem_lock failed'')
              else let s = s\<lparr>shm := system_time_to_shared (ftpl_starttime s) (shm s)\<rparr>;
                       (u, s) = ft_sem_unlock s
                   in if u = - 1 then Inl (Exit 1 ''libfaketime: In reset_time(), ft_sem_unlock failed'')
                      else Inr s)
        else Inr s)"

section \<open>Lemmas\<close>

declare next_time.simps [simp del]

lemma shared_roundtrip: "shared_to_system_time (system_time_to_shared t sh) = t"
  by (simp add: shared_to_system_time_def system_time_to_shared_def shared_to_ts_def ts_to_shared_def)

text \<open>Reading the clocks only advances the moment (and may set \<^verbatim>\<open>errno\<close>).\<close>

lemma real_clock_gettime_frame:
  "snd (real_clock_gettime clk old s) = s\<lparr>clk_count := Suc (clk_count s), errno := errno (snd (real_clock_gettime clk old s))\<rparr>"
  by (simp add: real_clock_gettime_def split: option.splits)

text \<open>
  The lock: a successful \<^verbatim>\<open>ft_sem_lock\<close> holds it, a successful \<^verbatim>\<open>ft_sem_unlock\<close> releases it,
  and neither touches anything but its script, the holder flag and \<^verbatim>\<open>errno\<close>.
\<close>

lemma ft_sem_lock_cases:
  obtains es where "ft_sem_lock s = (0, s\<lparr>sem_held := True, lock_script := es\<rparr>)" "length es \<le> length (lock_script s)"
  | e es where "lock_script s = e # es" "e \<noteq> 0" "ft_sem_lock s = (- 1, s\<lparr>errno := e, lock_script := es\<rparr>)"
proof (cases "lock_script s")
  case Nil
  then have "ft_sem_lock s = (0, s\<lparr>sem_held := True, lock_script := []\<rparr>)" by (simp add: ft_sem_lock_def)
  then show ?thesis by (rule that(1)) simp
next
  case (Cons e es)
  then show ?thesis using that by (cases "e = 0") (auto simp: ft_sem_lock_def)
qed

lemma ft_sem_unlock_cases:
  obtains es where "ft_sem_unlock s = (0, s\<lparr>sem_held := False, unlock_script := es\<rparr>)" "length es \<le> length (unlock_script s)"
  | e es where "unlock_script s = e # es" "e \<noteq> 0" "ft_sem_unlock s = (- 1, s\<lparr>errno := e, unlock_script := es\<rparr>)"
proof (cases "unlock_script s")
  case Nil
  then have "ft_sem_unlock s = (0, s\<lparr>sem_held := False, unlock_script := []\<rparr>)" by (simp add: ft_sem_unlock_def)
  then show ?thesis by (rule that(1)) simp
next
  case (Cons e es)
  then show ?thesis using that by (cases "e = 0") (auto simp: ft_sem_unlock_def)
qed

text \<open>
  Retrying \<^verbatim>\<open>ft_sem_lock\<close> while it is interrupted: the outcome is the first one that is not an
  interruption.
\<close>

definition lock_outcome :: "int list \<Rightarrow> int" where
  "lock_outcome es = (case dropWhile (\<lambda>e. e = EINTR) es of [] \<Rightarrow> 0 | e # _ \<Rightarrow> e)"

definition locked :: "ft_state \<Rightarrow> ft_state" where
  "locked s = s\<lparr>sem_held := True, lock_script := tl (dropWhile (\<lambda>e. e = EINTR) (lock_script s)),
     errno := (if lock_script s \<noteq> [] \<and> hd (lock_script s) = EINTR then EINTR else errno s)\<rparr>"

lemma ft_sem_lock_EINTR:
  "lock_script s = EINTR # es \<Longrightarrow> ft_sem_lock s = (- 1, s\<lparr>errno := EINTR, lock_script := es\<rparr>)"
  by (simp add: ft_sem_lock_def)

lemma ft_sem_lock_first:
  assumes "\<not> (lock_script s \<noteq> [] \<and> hd (lock_script s) = EINTR)"
  shows "ft_sem_lock s = (if lock_outcome (lock_script s) = 0 then (0, locked s)
           else (- 1, s\<lparr>errno := lock_outcome (lock_script s), lock_script := tl (lock_script s)\<rparr>))"
  using assms by (cases "lock_script s") (auto simp: ft_sem_lock_def lock_outcome_def locked_def)

lemma locked_EINTR:
  "lock_script s = EINTR # es \<Longrightarrow> locked (s\<lparr>errno := EINTR, lock_script := es\<rparr>) = locked s"
  by (simp add: locked_def)

lemma lock_outcome_EINTR [simp]: "lock_outcome (EINTR # es) = lock_outcome es"
  by (simp add: lock_outcome_def)

lemma lock_outcome_not_EINTR: "lock_outcome es \<noteq> EINTR"
  using hd_dropWhile [of "\<lambda>e. e = EINTR" es] by (auto simp: lock_outcome_def dropWhile_eq_Cons_conv split: list.splits)

lemma lock_outcome_0: "\<forall>e \<in> set es. e = 0 \<or> e = EINTR \<Longrightarrow> lock_outcome es = 0"
  by (induction es) (auto simp: lock_outcome_def)

text \<open>The same state, with a lock that is interrupted \<open>n\<close> times first.\<close>

definition with_interrupts :: "nat \<Rightarrow> ft_state \<Rightarrow> ft_state" where
  "with_interrupts n s = s\<lparr>lock_script := replicate n EINTR @ lock_script s\<rparr>"

text \<open>
  Four operations retry an interrupted lock: \<^verbatim>\<open>next_time\<close>, \<^verbatim>\<open>load_time\<close> and \<^verbatim>\<open>lock_for_stat\<close> by
  calling themselves, \<^verbatim>\<open>save_time\<close> in a loop. Each of them does, in the end, what it does after one successful
  \<^verbatim>\<open>ft_sem_lock\<close>, or fails with the first error that is not an interruption.
\<close>

locale lock_retry =
  fixes enabled :: "ft_state \<Rightarrow> bool"
    and run :: "ft_state \<Rightarrow> 'r exitable"
    and fail :: ft_exit
    and body :: "ft_state \<Rightarrow> 'r exitable"
  assumes run_unfold: "enabled s \<Longrightarrow> run s =
      (case ft_sem_lock s of (r, s1) \<Rightarrow>
         if r = - 1 then (if errno s1 = EINTR then run s1 else Inl fail) else body s1)"
    and enabled_retry: "enabled s \<Longrightarrow> enabled (s\<lparr>errno := e, lock_script := es\<rparr>)"
begin

lemma run_closed:
  "enabled s \<Longrightarrow> run s = (if lock_outcome (lock_script s) \<noteq> 0 then Inl fail else body (locked s))"
proof (induction "lock_script s" arbitrary: s)
  case (Cons e es)
  show ?case
  proof (cases "e = EINTR")
    case True
    then have ls: "lock_script s = EINTR # es" using Cons(2) by simp
    let ?t = "s\<lparr>errno := EINTR, lock_script := es\<rparr>"
    have "run s = run ?t"
      using run_unfold [OF Cons(3)] by (simp add: ft_sem_lock_EINTR [OF ls])
    also have "\<dots> = (if lock_outcome (lock_script ?t) \<noteq> 0 then Inl fail else body (locked ?t))"
      using Cons(1) [of ?t] enabled_retry [OF Cons(3)] by simp
    finally show ?thesis by (simp add: locked_EINTR [OF ls] ls)
  next
    case False
    then show ?thesis
      using run_unfold [OF Cons(3)] lock_outcome_not_EINTR [of "lock_script s"]
      by (simp add: ft_sem_lock_first flip: Cons(2))
  qed
next
  case Nil
  then show ?case using run_unfold [OF Nil(2)] by (simp add: ft_sem_lock_first lock_outcome_def)
qed

lemma run_ok: "enabled s \<Longrightarrow> \<forall>e \<in> set (lock_script s). e = 0 \<or> e = EINTR \<Longrightarrow> run s = body (locked s)"
  by (simp add: run_closed lock_outcome_0)

lemma run_interrupted: "enabled s \<Longrightarrow> run (with_interrupts n s) = run (s\<lparr>errno := (if n = 0 then errno s else EINTR)\<rparr>)"
proof (induction n arbitrary: s)
  case (Suc n)
  let ?t = "s\<lparr>errno := EINTR, lock_script := lock_script s\<rparr>"
  have "enabled (with_interrupts (Suc n) s)"
    using enabled_retry [OF Suc.prems, where e = "errno s"] by (simp add: with_interrupts_def)
  then have "run (with_interrupts (Suc n) s) = run (with_interrupts n ?t)"
    using run_unfold ft_sem_lock_EINTR [of "with_interrupts (Suc n) s"] by (simp add: with_interrupts_def)
  also have "\<dots> = run ?t"
    using Suc.IH [OF enabled_retry [OF Suc.prems, where e = EINTR and es = "lock_script s"]] by (cases "n = 0") simp_all
  finally show ?case by simp
qed (simp add: with_interrupts_def)

end

interpretation next_time: lock_retry shared_sem_initialized "next_time tp ticklen"
  "Exit 1 ''libfaketime: In next_time(), ft_sem_lock failed''" "next_time_locked ticklen"
  by unfold_locales (subst next_time.simps, simp_all)

text \<open>The lock works: it may be interrupted, but neither it nor its release fails.\<close>

definition lock_works :: "ft_state \<Rightarrow> bool" where
  "lock_works s \<longleftrightarrow> (\<forall>e \<in> set (lock_script s). e = 0 \<or> e = EINTR) \<and> (\<forall>e \<in> set (unlock_script s). e = 0)"

definition unlocked :: "ft_state \<Rightarrow> ft_state" where
  "unlocked s = s\<lparr>sem_held := False, unlock_script := tl (unlock_script s)\<rparr>"

lemma ft_sem_unlock_ok: "\<forall>e \<in> set (unlock_script s). e = 0 \<Longrightarrow> ft_sem_unlock s = (0, unlocked s)"
  by (cases "unlock_script s") (auto simp: ft_sem_unlock_def unlocked_def)

lemma lock_works_locked: "lock_works s \<Longrightarrow> lock_works (locked s)"
proof -
  assume "lock_works s"
  moreover have "set (tl (dropWhile (\<lambda>e. e = EINTR) es)) \<subseteq> set es" for es :: "int list"
    by (induction es) auto
  ultimately show ?thesis by (auto simp: lock_works_def locked_def)
qed

lemma lock_works_unlocked: "lock_works s \<Longrightarrow> lock_works (unlocked s)"
  by (cases "unlock_script s") (auto simp: lock_works_def unlocked_def)

lemma locked_simps [simp]:
  "shm (locked s) = shm s" "sem_held (locked s)" "unlock_script (locked s) = unlock_script s"
  "user_faked_time_timespec (locked s) = user_faked_time_timespec s" "stss (locked s) = stss s"
  "infile_size (locked s) = infile_size s" "infile_set (locked s) = infile_set s" "outfile (locked s) = outfile s"
  "shared_sem_initialized (locked s) = shared_sem_initialized s" "out_bytes (locked s) = out_bytes s"
  "write_script (locked s) = write_script s" "ftpl_starttime (locked s) = ftpl_starttime s"
  "clk_count (locked s) = clk_count s" "clk_read (locked s) = clk_read s"
  by (simp_all add: locked_def)

lemma unlocked_simps [simp]:
  "shm (unlocked s) = shm s" "\<not> sem_held (unlocked s)" "lock_script (unlocked s) = lock_script s"
  "user_faked_time_timespec (unlocked s) = user_faked_time_timespec s" "stss (unlocked s) = stss s"
  "infile_size (unlocked s) = infile_size s" "infile_set (unlocked s) = infile_set s" "outfile (unlocked s) = outfile s"
  "shared_sem_initialized (unlocked s) = shared_sem_initialized s" "out_bytes (unlocked s) = out_bytes s"
  "write_script (unlocked s) = write_script s" "ftpl_starttime (unlocked s) = ftpl_starttime s"
  by (simp_all add: unlocked_def)

lemma next_time_ok:
  assumes "shared_sem_initialized s" "lock_works s"
  shows "next_time tp ticklen s =
    Inr (fst (next_tick (user_faked_time_timespec s) ticklen (shm s)),
         unlocked ((locked s)\<lparr>shm := snd (next_tick (user_faked_time_timespec s) ticklen (shm s))\<rparr>))"
  using next_time.run_ok [OF assms(1)] assms(2)
  by (simp add: lock_works_def next_time_locked_def ft_sem_unlock_ok split_def Let_def)

text \<open>
  A tick counter below 2^53 that also keeps the product in range is converted and multiplied
  exactly: the increments add up without drift.
\<close>

lemma timespecmul_int:
  assumes t: "\<bar>tv_sec a\<bar> * SEC_TO_nSEC + \<bar>tv_nsec a\<bar> < 18446744073709551616"
    and n: "0 \<le> n" "n < 18446744073709551616" and p: "\<bar>ts_total a * n\<bar> < 18446744073709551616"
  shows "ts_total (timespecmul a (fl_of_int c_long_double n)) = ts_total a * n"
proof -
  have r: "fl_rat c_long_double (of_int (ts_total a) * of_int n) = of_int (ts_total a * n)"
    using ldbl.fl_exact_int [of "ts_total a * n"] p by (simp add: c_long_double_def)
  have b: "\<bar>rat_of_int (ts_total a * n)\<bar> < 18446744073709551616"
    using p by (simp only: of_int_abs [symmetric] of_int_less_numeral_iff)
  have U: "rat_of_int SEC_TO_nSEC = 1000000000" by (simp add: SEC_TO_nSEC_def)
  have "timermul2 SEC_TO_nSEC (ts_pair a) (Fin (of_int n)) =
      (False, trunc_rat (of_int (ts_total a * n)) div SEC_TO_nSEC, trunc_rat (of_int (ts_total a * n)) mod SEC_TO_nSEC)"
    by (rule nsec.mul_exact_total [OF _ r [symmetric]]) (use t b U in \<open>simp, linarith, linarith\<close>)
  then show ?thesis using n
    by (simp add: timespecmul_def fl_of_int_ld total_of_def del: of_int_mult)
qed

text \<open>What resetting the start time changes: the clocks are read, the start time and its shared copy are set.\<close>

lemma real_clock_gettime_eq:
  "real_clock_gettime clk old s = ((if clk_read s (clk_count s) clk = None then - 1 else 0,
      case clk_read s (clk_count s) clk of None \<Rightarrow> old | Some t \<Rightarrow> t),
     s\<lparr>clk_count := Suc (clk_count s), errno := (if clk_read s (clk_count s) clk = None then EINVAL else errno s)\<rparr>)"
  by (simp add: real_clock_gettime_def split: option.splits)

lemma real_clock_gettime_cases:
  obtains r t e where "real_clock_gettime clk old s = ((r, t), s\<lparr>clk_count := Suc (clk_count s), errno := e\<rparr>)"
  using real_clock_gettime_eq by blast

lemma system_time_from_system_cases:
  obtains st e where "system_time_from_system old s = (st, s\<lparr>clk_count := clk_count s + 4, errno := e\<rparr>)"
proof -
  obtain r1 t1 e1 where 1: "real_clock_gettime CLOCK_REALTIME (st_real old) s = ((r1, t1), s\<lparr>clk_count := Suc (clk_count s), errno := e1\<rparr>)"
    by (rule real_clock_gettime_cases)
  let ?s1 = "s\<lparr>clk_count := Suc (clk_count s), errno := e1\<rparr>"
  obtain r2 t2 e2 where 2: "real_clock_gettime CLOCK_MONOTONIC (st_mon old) ?s1 = ((r2, t2), ?s1\<lparr>clk_count := Suc (clk_count ?s1), errno := e2\<rparr>)"
    by (rule real_clock_gettime_cases)
  let ?s2 = "?s1\<lparr>clk_count := Suc (clk_count ?s1), errno := e2\<rparr>"
  obtain r3 t3 e3 where 3: "real_clock_gettime CLOCK_MONOTONIC_RAW (st_mon_raw old) ?s2 = ((r3, t3), ?s2\<lparr>clk_count := Suc (clk_count ?s2), errno := e3\<rparr>)"
    by (rule real_clock_gettime_cases)
  let ?s3 = "?s2\<lparr>clk_count := Suc (clk_count ?s2), errno := e3\<rparr>"
  obtain r4 t4 e4 where 4: "real_clock_gettime CLOCK_BOOTTIME (st_boot old) ?s3 = ((r4, t4), ?s3\<lparr>clk_count := Suc (clk_count ?s3), errno := e4\<rparr>)"
    by (rule real_clock_gettime_cases)
  have "system_time_from_system old s = (\<lparr>st_real = t1, st_mon = t2, st_mon_raw = t3, st_boot = t4\<rparr>, s\<lparr>clk_count := clk_count s + 4, errno := e4\<rparr>)"
    unfolding system_time_from_system_def 1 prod.case Let_def 2 3 4 by (simp add: numeral_eq_Suc)
  then show ?thesis by (rule that)
qed

text \<open>
  What an operation on the shared memory may change. Two states agree up to these fields when
  they are equal after erasing them.
\<close>

definition erase_shared :: "ft_state \<Rightarrow> ft_state" where
  "erase_shared s = s\<lparr>clk_count := 0, errno := 0, ftpl_starttime := unset_system_time,
     shm := new_shared, sem_held := False, lock_script := [], unlock_script := []\<rparr>"

definition shared_frame :: "ft_state \<Rightarrow> ft_state \<Rightarrow> bool" where
  "shared_frame s s' \<longleftrightarrow> erase_shared s' = erase_shared s \<and> (sem_held s' \<longrightarrow> sem_held s)"

lemma shared_frame_refl [simp]: "shared_frame s s"
  by (simp add: shared_frame_def)

lemma shared_frame_trans: "shared_frame s t \<Longrightarrow> shared_frame t u \<Longrightarrow> shared_frame s u"
  by (auto simp: shared_frame_def)

lemma erase_shared_fields:
  assumes "erase_shared s' = erase_shared s"
  shows "environ s' = environ s" "clk_read s' = clk_read s" "out_bytes s' = out_bytes s"
    "user_rate s' = user_rate s" "user_rate_set s' = user_rate_set s" "user_per_tick_inc s' = user_per_tick_inc s"
    "user_per_tick_inc_set s' = user_per_tick_inc_set s" "user_faked_time_timespec s' = user_faked_time_timespec s"
    "user_faked_time_set s' = user_faked_time_set s" "user_faked_time_saved s' = user_faked_time_saved s"
    "ft_mode s' = ft_mode s" "user_offset s' = user_offset s" "dont_fake s' = dont_fake s"
    "shared_sem_initialized s' = shared_sem_initialized s" "decimal_point s' = decimal_point s"
    "ftpl_timecache s' = ftpl_timecache s" "ftpl_faketimecache s' = ftpl_faketimecache s"
    "user_per_tick_inc_set_backup s' = user_per_tick_inc_set_backup s"
    "infile_set s' = infile_set s" "outfile s' = outfile s" "user_faked_time_fmt s' = user_faked_time_fmt s"
    "stss s' = stss s" "infile_size s' = infile_size s"
  using assms by (cases s; cases s'; simp add: erase_shared_def)+

lemma reset_time_frame: "returns (reset_time s) (shared_frame s)"
proof -
  obtain st e where st: "system_time_from_system (ftpl_starttime s) s = (st, s\<lparr>clk_count := clk_count s + 4, errno := e\<rparr>)"
    by (rule system_time_from_system_cases)
  let ?s1 = "s\<lparr>clk_count := clk_count s + 4, errno := e, ftpl_starttime := st\<rparr>"
  show ?thesis
  proof (cases "shared_sem_initialized s")
    case False
    then show ?thesis by (simp add: reset_time_def st shared_frame_def erase_shared_def)
  next
    case True
    show ?thesis
    proof (cases rule: ft_sem_lock_cases [of ?s1])
      case (1 es)
      let ?s3 = "?s1\<lparr>sem_held := True, lock_script := es, shm := system_time_to_shared st (shm s)\<rparr>"
      show ?thesis
        by (cases rule: ft_sem_unlock_cases [of ?s3])
          (use True st 1 in \<open>simp_all add: reset_time_def shared_frame_def erase_shared_def\<close>)
    next
      case (2 e' es)
      then show ?thesis using True st by (simp add: reset_time_def)
    qed
  qed
qed

text \<open>The words of \<^verbatim>\<open>FAKETIME_SHARED\<close>.\<close>

lemma takeWhile_append_stop: "\<forall>c \<in> set w. P c \<Longrightarrow> \<not> P d \<Longrightarrow> takeWhile P (w @ d # r) = w"
  by (induction w) auto

lemma scan_word_word:
  assumes w: "w \<noteq> []" "\<forall>c \<in> set w. \<not> isspace c" "length w \<le> n"
    and r: "r = [] \<or> isspace (hd r)"
  shows "scan_word n (w @ r) = Some (w, r)"
proof -
  have d: "dropWhile isspace (w @ r) = w @ r" using w by (cases w) auto
  have t: "takeWhile (\<lambda>c. \<not> isspace c) (w @ r) = w"
    using w r by (cases r) (auto simp: takeWhile_append_stop takeWhile_eq_all_conv)
  have "0 < n" using w by (cases w) auto
  then show ?thesis using w by (simp add: scan_word_def d t)
qed

lemma scan_word_space: "isspace c \<Longrightarrow> scan_word n (c # s) = scan_word n s"
  by (simp add: scan_word_def)

lemma valid_shared_name_digits:
  "ds \<noteq> [] \<Longrightarrow> \<forall>c \<in> set ds. isdigit c \<Longrightarrow> valid_shared_name (prefix @ ds) prefix"
  by (auto simp: valid_shared_name_def str_prefix_def list_all_iff isdigit_def)

section \<open>Properties\<close>

text \<open>
  Claim C14. With a per-call increment, a call that finds the tick counter at n returns the base
  time plus n times the increment, computed without drift, increments the shared counter
  by one and has released the lock when it returns, however often the lock was
  interrupted before; nothing else of the shared memory changes.
\<close>

theorem next_time_tick:
  assumes "shared_sem_initialized s" "lock_works s"
    and "ts_normal (user_faked_time_timespec s)" "ts_normal inc"
    and "\<bar>tv_sec inc\<bar> * SEC_TO_nSEC + \<bar>tv_nsec inc\<bar> < 18446744073709551616"
    and "0 \<le> ticks (shm s)" "ticks (shm s) < 18446744073709551615"
    and "\<bar>ts_total inc * ticks (shm s)\<bar> < 18446744073709551616"
  shows "\<exists>tp' s'. next_time tp inc s = Inr (tp', s') \<and> ts_normal tp' \<and>
      ts_total tp' = clamp_total SEC_TO_nSEC (ts_total (user_faked_time_timespec s) + ts_total inc * ticks (shm s)) \<and>
      shm s' = (shm s)\<lparr>ticks := ticks (shm s) + 1\<rparr> \<and> \<not> sem_held s'"
proof -
  let ?m = "timespecmul inc (fl_of_int c_long_double (ticks (shm s)))"
  have m: "ts_total ?m = ts_total inc * ticks (shm s)" using assms by (intro timespecmul_int) simp_all
  note t = timespecadd_total [OF assms(3) timespecmul_normal, of inc "fl_of_int c_long_double (ticks (shm s))", unfolded m]
  show ?thesis using t assms(6,7) by (simp add: next_time_ok [OF assms(1,2)] next_tick_def)
qed

theorem next_time_tick_witness:
  "\<exists>tp' s'. next_time \<lparr>tv_sec = 0, tv_nsec = 0\<rparr> \<lparr>tv_sec = 2, tv_nsec = 0\<rparr>
       ((static_state sample_os)\<lparr>shared_sem_initialized := True, lock_script := [EINTR],
          user_faked_time_timespec := \<lparr>tv_sec = 100, tv_nsec = 0\<rparr>, shm := new_shared\<lparr>ticks := 3\<rparr>\<rparr>) = Inr (tp', s') \<and>
     ts_total tp' = 106000000000 \<and> ticks (shm s') = 4"
proof -
  define s where "s = (static_state sample_os)\<lparr>shared_sem_initialized := True, lock_script := [EINTR],
    user_faked_time_timespec := \<lparr>tv_sec = 100, tv_nsec = 0\<rparr>, shm := new_shared\<lparr>ticks := 3\<rparr>\<rparr>"
  have "\<exists>tp' s'. next_time \<lparr>tv_sec = 0, tv_nsec = 0\<rparr> \<lparr>tv_sec = 2, tv_nsec = 0\<rparr> s = Inr (tp', s') \<and> ts_normal tp' \<and>
      ts_total tp' = clamp_total SEC_TO_nSEC (ts_total (user_faked_time_timespec s) + ts_total \<lparr>tv_sec = 2, tv_nsec = 0\<rparr> * ticks (shm s)) \<and>
      shm s' = (shm s)\<lparr>ticks := ticks (shm s) + 1\<rparr> \<and> \<not> sem_held s'"
    by (rule next_time_tick)
      (simp_all add: s_def lock_works_def normal_def in_s64_def SEC_TO_nSEC_def total_of_def static_defs)
  then show ?thesis
    by (auto simp: s_def clamp_total_def total_of_def SEC_TO_nSEC_def)
qed

text \<open>
 The value \<^verbatim>\<open>FAKETIME_SHARED\<close> that the creator of the shared objects publishes for its
  process id is accepted by \<^verbatim>\<open>parse_shared_objects\<close>, with the two names it was built from.
\<close>

lemma parse_shared_objects_roundtrip:
  assumes "length (show_nat pid) \<le> 241"
  shows "parse_shared_objects ((''/faketime_sem_'' @ show_nat pid) @ '' '' @ ''/faketime_shm_'' @ show_nat pid)
    = Some (''/faketime_sem_'' @ show_nat pid, ''/faketime_shm_'' @ show_nat pid)"
proof -
  let ?a = "''/faketime_sem_'' @ show_nat pid" and ?b = "''/faketime_shm_'' @ show_nat pid"
  have "\<forall>c \<in> set (show_nat pid). \<not> isspace c" using show_nat_digits isdigit_not by blast
  then have ns: "\<forall>c \<in> set ?a. \<not> isspace c" "\<forall>c \<in> set ?b. \<not> isspace c"
    by (simp_all only: set_append ball_Un) (simp_all add: isspace_def)
  have sp: "isspace (CHR '' '')" by (simp add: isspace_def)
  have 1: "scan_word 255 (?a @ '' '' @ ?b) = Some (?a, '' '' @ ?b)"
    using ns assms by (intro scan_word_word) (simp_all add: isspace_def)
  have "scan_word 255 ('' '' @ ?b) = scan_word 255 (?b @ [])"
    using scan_word_space [OF sp, of 255 ?b] by simp
  also have "\<dots> = Some (?b, [])" using ns assms by (intro scan_word_word) simp_all
  finally have 2: "scan_word 255 ('' '' @ ?b) = Some (?b, [])" .
  have 3: "scan_word 1 [] = None" by (simp add: scan_word_def)
  show ?thesis
    unfolding parse_shared_objects_def 1 option.case prod.case 2 3
    by (simp only: valid_shared_name_digits [OF show_nat_nonempty show_nat_digits] if_True if_False simp_thms)
qed

lemma parse_shared_objects_roundtrip_witness:
  "parse_shared_objects ((''/faketime_sem_'' @ show_nat 42) @ '' '' @ ''/faketime_shm_'' @ show_nat 42)
    = Some (''/faketime_sem_'' @ show_nat 42, ''/faketime_shm_'' @ show_nat 42)"
  by (rule parse_shared_objects_roundtrip) (simp add: show_nat.simps)

end
