(* ===== verification/Saved_Timestamps.thy ===== *)
theory Saved_Timestamps
  imports Shared_State
begin

text \<open>
  Saving timestamps to a file and replaying them (section "Saving & loading time" of
  \<^verbatim>\<open>src/src/libfaketime.c\<close>): the big endian record format, \<^verbatim>\<open>write_all\<close> with its handling of
  short and interrupted writes, \<^verbatim>\<open>save_time\<close> and \<^verbatim>\<open>load_time\<close>.
\<close>

section \<open>The file format\<close>

definition be64_encode :: "int \<Rightarrow> int list" where
  "be64_encode x = map (\<lambda>i. x div 256 ^ (7 - i) mod 256) [0 ..< 8]"

definition be64_decode :: "int list \<Rightarrow> int" where
  "be64_decode bs = foldl (\<lambda>n b. 256 * n + b) 0 bs"

text \<open>A \<^verbatim>\<open>struct saved_timestamp\<close> is the 8 bytes of its seconds and the 8 bytes of its nanoseconds.\<close>

type_synonym saved_timestamp = "int list \<times> int list"

definition timespec_from_saved :: "saved_timestamp \<Rightarrow> timespec" where
  "timespec_from_saved saved =
    \<lparr>tv_sec = wrap_s64 (be64_decode (fst saved)), tv_nsec = wrap_s64 (be64_decode (snd saved))\<rparr>"

text \<open>The nanoseconds are read as a \<^verbatim>\<open>uint64_t\<close>.\<close>

definition saved_timestamp_valid :: "saved_timestamp \<Rightarrow> bool" where
  "saved_timestamp_valid saved \<longleftrightarrow> be64_decode (snd saved) mod 18446744073709551616 < SEC_TO_nSEC"

text \<open>The records of a mapped file.\<close>

fun map_records :: "int list \<Rightarrow> saved_timestamp list" where
  "map_records bs = (if length bs < 16 then [] else (take 8 bs, take 8 (drop 8 bs)) # map_records (drop 16 bs))"

definition timespec_to_saved :: "timespec \<Rightarrow> saved_timestamp" where
  "timespec_to_saved tp = (be64_encode (tv_sec tp), be64_encode (tv_nsec tp))"

section \<open>Writing\<close>

text \<open>
  One \<^verbatim>\<open>write\<close>: an entry \<open>n \<ge> 0\<close> of the script is the number of bytes it reports as written,
  a negative one the error number.
\<close>

definition os_write :: "int list \<Rightarrow> ft_state \<Rightarrow> int \<times> ft_state" where
  "os_write bs s =
    (case write_script s of
       [] \<Rightarrow> (int (length bs), s\<lparr>out_bytes := out_bytes s @ bs\<rparr>)
     | n # ns \<Rightarrow>
        if n < 0 then (- 1, s\<lparr>write_script := ns, errno := - n\<rparr>)
        else (n, s\<lparr>write_script := ns, out_bytes := out_bytes s @ take (nat n) bs\<rparr>))"

text \<open>The loop of \<^verbatim>\<open>write_all\<close> over the bytes still to write, with its count of interruptions in a row.\<close>

function write_all_loop :: "int list \<Rightarrow> nat \<Rightarrow> ft_state \<Rightarrow> bool \<times> ft_state" where
  "write_all_loop bs interrupted s =
    (if bs = [] then (True, s)
     else (case os_write bs s of (written, s) \<Rightarrow>
       if written < 0 then
         (if errno s = EINTR then
            (if interrupted + 1 \<ge> 1000 then (False, s\<lparr>errno := EINTR\<rparr>)
             else write_all_loop bs (interrupted + 1) s)
          else (False, s))
       else if written = 0 then (False, s\<lparr>errno := EIO\<rparr>)
       else if written > int (length bs) then (False, s\<lparr>errno := EIO\<rparr>)
       else write_all_loop (drop (nat written) bs) 0 s))"
  by pat_completeness auto
termination
  by (relation "measures [\<lambda>(bs, i, s). length bs, \<lambda>(bs, i, s). length (write_script s)]")
    (auto simp: os_write_def split: list.splits if_splits)

definition write_all :: "int list \<Rightarrow> ft_state \<Rightarrow> bool \<times> ft_state" where
  "write_all buffer s = write_all_loop buffer 0 s"

text \<open>The loop of \<^verbatim>\<open>save_time\<close> around \<^verbatim>\<open>ft_sem_lock\<close>.\<close>

function save_time_lock :: "ft_state \<Rightarrow> ft_state exitable" where
  "save_time_lock s =
    (case ft_sem_lock s of (r, s1) \<Rightarrow>
       if r = 0 then Inr s1
       else if errno s1 \<noteq> EINTR then Inl (Exit 1 ''libfaketime: In save_time(), ft_sem_lock failed'')
       else save_time_lock s1)"
  by pat_completeness auto
termination
  by (relation "measure (\<lambda>s. length (lock_script s))")
    (auto simp: ft_sem_lock_def split: list.splits if_splits)

definition save_time :: "timespec \<Rightarrow> ft_state \<Rightarrow> ft_state exitable" where
  "save_time tp s =
    (if shared_sem_initialized s \<and> outfile s \<noteq> - 1 then
       exit_bind (save_time_lock s) (\<lambda>s.
         let (_, s) = write_all (be64_encode (tv_sec tp) @ be64_encode (tv_nsec tp)) s;
             (u, s) = ft_sem_unlock s
         in if u = - 1 then Inl (Exit 1 ''libfaketime: In save_time(), ft_sem_unlock failed'')
            else Inr s)
     else Inr s)"

section \<open>Loading\<close>

text \<open>
  \<^verbatim>\<open>load_time\<close>: whether \<^verbatim>\<open>tp\<close> was set, its value, and the state. \<open>infile_size\<close> is a positive
  multiple of the record size 16 while \<open>infile_set\<close> holds (initialisation rejects anything else), so
  the last record exists.
\<close>

definition load_time_locked :: "timespec \<Rightarrow> ft_state \<Rightarrow> ((bool \<times> timespec) \<times> ft_state) exitable" where
  "load_time_locked tp s1 =
    (let ((ret, tp), s2) =
       (if file_idx (shm s1) \<ge> infile_size s1 div 16 then
          (let s2 = s1\<lparr>user_faked_time_timespec :=
                       timespec_from_saved (stss s1 ! nat (infile_size s1 div 16 - 1))\<rparr>;
               s2 = (if ticks (shm s2) = 0 then
                       (let s3 = s2\<lparr>shm := (shm s2)\<lparr>ticks := 1\<rparr>\<rparr>;
                            (st, s3) = system_time_from_system (ftpl_starttime s3) s3;
                            s3 = s3\<lparr>ftpl_starttime := st\<rparr>
                        in s3\<lparr>shm := system_time_to_shared st (shm s3)\<rparr>)
                     else s2\<lparr>ftpl_starttime := shared_to_system_time (shm s2)\<rparr>)
           in ((False, tp), s2\<lparr>infile_set := False\<rparr>))
        else
          ((True, timespec_from_saved (stss s1 ! nat (file_idx (shm s1)))),
           s1\<lparr>shm := (shm s1)\<lparr>file_idx := (file_idx (shm s1) + 1) mod 18446744073709551616\<rparr>\<rparr>));
         (u, s2) = ft_sem_unlock s2
     in if u = - 1 then Inl (Exit 1 ''libfaketime: In load_time(), ft_sem_unlock failed'')
        else Inr ((ret, tp), s2))"

function load_time :: "timespec \<Rightarrow> ft_state \<Rightarrow> ((bool \<times> timespec) \<times> ft_state) exitable" where
  "load_time tp s =
    (if shared_sem_initialized s \<and> infile_set s then
       (case ft_sem_lock s of (r, s1) \<Rightarrow>
          if r = - 1 then
            (if errno s1 = EINTR then load_time tp s1
             else Inl (Exit 1 ''libfaketime: In load_time(), ft_sem_lock failed''))
          else load_time_locked tp s1)
     else Inr ((False, tp), s))"
  by pat_completeness auto
termination
  by (relation "measure (\<lambda>(tp, s). length (lock_script s))")
    (auto simp: ft_sem_lock_def split: list.splits if_splits)

section \<open>Lemmas\<close>

declare map_records.simps [simp del] write_all_loop.simps [simp del] save_time_lock.simps [simp del] load_time.simps [simp del]

lemma be_decode_digits:
  "be64_decode (map (\<lambda>i. x div 256 ^ (n - Suc i) mod 256) [0 ..< n]) = x mod 256 ^ n"
proof (induction n arbitrary: x)
  case (Suc n)
  have "map (\<lambda>i. x div 256 ^ (Suc n - Suc i) mod 256) [0 ..< n]
      = map (\<lambda>i. x div 256 div 256 ^ (n - Suc i) mod 256) [0 ..< n]"
  proof (rule map_cong [OF refl])
    fix i assume "i \<in> set [0 ..< n]"
    then have "Suc n - Suc i = Suc (n - Suc i)" by simp
    then show "x div 256 ^ (Suc n - Suc i) mod 256 = x div 256 div 256 ^ (n - Suc i) mod 256"
      by (simp only: power_Suc) (simp add: zdiv_zmult2_eq)
  qed
  then have "map (\<lambda>i. x div 256 ^ (Suc n - Suc i) mod 256) [0 ..< Suc n]
      = map (\<lambda>i. x div 256 div 256 ^ (n - Suc i) mod 256) [0 ..< n] @ [x mod 256]"
    by (simp only: upt_Suc_append map_append) simp
  moreover have "be64_decode (ds @ [d]) = 256 * be64_decode ds + d" for ds d
    by (simp add: be64_decode_def)
  ultimately have "be64_decode (map (\<lambda>i. x div 256 ^ (Suc n - Suc i) mod 256) [0 ..< Suc n])
      = 256 * (x div 256 mod 256 ^ n) + x mod 256"
    by (simp only: Suc)
  also have "\<dots> = x mod 256 ^ Suc n" by (simp add: zmod_zmult2_eq)
  finally show ?case .
qed (simp add: be64_decode_def)

lemma be64_decode_encode: "be64_decode (be64_encode x) = x mod 18446744073709551616"
  using be_decode_digits [of x 8] by (simp add: be64_encode_def)

lemma wrap_s64_mod: "wrap_s64 (x mod 18446744073709551616) = wrap_s64 x"
  unfolding wrap_s64_def by (simp add: mod_add_left_eq)

lemma saved_roundtrip: "timespec_from_saved (timespec_to_saved t) = \<lparr>tv_sec = wrap_s64 (tv_sec t), tv_nsec = wrap_s64 (tv_nsec t)\<rparr>"
  by (simp add: timespec_from_saved_def timespec_to_saved_def be64_decode_encode wrap_s64_mod)

lemma saved_valid: "0 \<le> tv_nsec t \<Longrightarrow> tv_nsec t < SEC_TO_nSEC \<Longrightarrow> saved_timestamp_valid (timespec_to_saved t)"
  by (simp add: saved_timestamp_valid_def timespec_to_saved_def be64_decode_encode SEC_TO_nSEC_def)

text \<open>The retry loops of saving and loading.\<close>

interpretation save_lock: lock_retry "\<lambda>_. True" save_time_lock
  "Exit 1 ''libfaketime: In save_time(), ft_sem_lock failed''" Inr
proof unfold_locales
  fix s
  show "save_time_lock s = (case ft_sem_lock s of (r, s1) \<Rightarrow>
     if r = - 1 then (if errno s1 = EINTR then save_time_lock s1
       else Inl (Exit 1 ''libfaketime: In save_time(), ft_sem_lock failed'')) else Inr s1)"
    by (rule ft_sem_lock_cases [of s]) (subst save_time_lock.simps, simp)+
qed simp

interpretation load_lock: lock_retry "\<lambda>s. shared_sem_initialized s \<and> infile_set s" "load_time tp"
  "Exit 1 ''libfaketime: In load_time(), ft_sem_lock failed''" "load_time_locked tp"
  by unfold_locales (subst load_time.simps, simp_all)

text \<open>
  \<^verbatim>\<open>write_all\<close> appends a prefix of the buffer, all of it when it reports success, and touches
  nothing but the output file, its script and \<^verbatim>\<open>errno\<close>.
\<close>

lemma os_write_cases:
  obtains ws where "os_write bs s = (int (length bs), s\<lparr>write_script := ws, out_bytes := out_bytes s @ bs\<rparr>)"
      "write_script s = []" "ws = []"
  | n ws where "write_script s = n # ws" "n < 0" "os_write bs s = (- 1, s\<lparr>write_script := ws, errno := - n\<rparr>)"
  | n ws where "write_script s = n # ws" "0 \<le> n"
      "os_write bs s = (n, s\<lparr>write_script := ws, out_bytes := out_bytes s @ take (nat n) bs\<rparr>)"
proof (cases "write_script s")
  case Nil
  then show ?thesis using that(1) by (simp add: os_write_def)
next
  case (Cons n ws)
  then show ?thesis using that(2,3) by (cases "n < 0") (simp_all add: os_write_def)
qed

definition wrote :: "int list \<Rightarrow> bool \<times> ft_state \<Rightarrow> ft_state \<Rightarrow> bool" where
  "wrote bs r s \<longleftrightarrow> (\<exists>k ws e. k \<le> length bs \<and> (fst r \<longrightarrow> k = length bs) \<and>
     snd r = s\<lparr>write_script := ws, errno := e, out_bytes := out_bytes s @ take k bs\<rparr>)"

lemma wrote_more:
  assumes "wrote (drop (nat n) bs) r (s\<lparr>write_script := ws, out_bytes := out_bytes s @ take (nat n) bs\<rparr>)"
    and "0 \<le> n" "n \<le> int (length bs)"
  shows "wrote bs r s"
proof -
  obtain k ws' e where k: "k \<le> length (drop (nat n) bs)" "fst r \<longrightarrow> k = length (drop (nat n) bs)"
    and r: "snd r = s\<lparr>write_script := ws', errno := e, out_bytes := (out_bytes s @ take (nat n) bs) @ take k (drop (nat n) bs)\<rparr>"
    using assms(1) by (auto simp: wrote_def)
  have "take (nat n) bs @ take k (drop (nat n) bs) = take (nat n + k) bs" by (simp add: take_add)
  then have "snd r = s\<lparr>write_script := ws', errno := e, out_bytes := out_bytes s @ take (nat n + k) bs\<rparr>"
    using r by (simp only: append.assoc)
  moreover have "nat n + k \<le> length bs" "fst r \<longrightarrow> nat n + k = length bs" using k assms(2,3) by auto
  ultimately show ?thesis unfolding wrote_def by blast
qed

lemma wroteI:
  "snd r = s\<lparr>write_script := ws, errno := e, out_bytes := out_bytes s @ take k bs\<rparr> \<Longrightarrow> k \<le> length bs \<Longrightarrow>
    (fst r \<Longrightarrow> k = length bs) \<Longrightarrow> wrote bs r s"
  unfolding wrote_def by blast

lemma write_all_loop_wrote: "wrote bs (write_all_loop bs i s) s"
proof (induction bs i s rule: write_all_loop.induct)
  case (1 bs i s)
  note IH = "1.IH"
  show ?case
  proof (cases "bs = []")
    case True
    then show ?thesis
      by (subst write_all_loop.simps) (auto intro!: wroteI [where k = 0 and ws = "write_script s" and e = "errno s"])
  next
    case False
    show ?thesis
    proof (cases rule: os_write_cases [of bs s])
      case (1 ws)
      then show ?thesis using False
        by (subst write_all_loop.simps, subst (2) write_all_loop.simps)
          (auto intro!: wroteI [where k = "length bs" and ws = "[]" and e = "errno s"])
    next
      case (2 n ws)
      show ?thesis
      proof (cases "n = - 4 \<and> i + 1 < 1000")
        case True
        let ?t = "s\<lparr>write_script := ws, errno := - n\<rparr>"
        have "wrote bs (write_all_loop bs (i + 1) ?t) ?t"
          using IH(1) [OF False 2(3) [symmetric]] True by simp
        then have "wrote bs (write_all_loop bs (i + 1) ?t) s" by (auto simp: wrote_def)
        then show ?thesis using True False 2(3) by (subst write_all_loop.simps) simp
      next
        case stop: False
        then show ?thesis using False 2(3)
          by (subst write_all_loop.simps) (auto intro!: wroteI [where k = 0 and ws = ws and e = "- n"])
      qed
    next
      case (3 n ws)
      let ?t = "s\<lparr>write_script := ws, out_bytes := out_bytes s @ take (nat n) bs\<rparr>"
      show ?thesis
      proof (cases "0 < n \<and> n \<le> int (length bs)")
        case True
        then have "wrote (drop (nat n) bs) (write_all_loop (drop (nat n) bs) 0 ?t) ?t"
          using IH(2) [OF False 3(3) [symmetric]] by simp
        then have "wrote bs (write_all_loop (drop (nat n) bs) 0 ?t) s"
          using True by (auto intro: wrote_more)
        then show ?thesis using True False 3(3) by (subst write_all_loop.simps) simp
      next
        case stop: False
        have t: "write_all_loop bs i s = (False, ?t\<lparr>errno := EIO\<rparr>)"
        proof (cases "n = 0")
          case True
          then show ?thesis using False 3(3) by (subst write_all_loop.simps) simp
        next
          case nz: False
          then have "\<not> n < 0" "n > int (length bs)" using stop 3(2) by linarith+
          then show ?thesis using False 3(3) nz by (subst write_all_loop.simps) simp
        qed
        show ?thesis
        proof (cases "n = 0")
          case True
          then show ?thesis unfolding t by (intro wroteI [where k = 0 and ws = ws and e = 5]) simp_all
        next
          case False
          then have "take (nat n) bs = bs" using stop 3(2) by simp
          then show ?thesis unfolding t
            by (intro wroteI [where k = "length bs" and ws = ws and e = 5]) simp_all
        qed
      qed
    qed
  qed
qed

lemma write_all_empty_script: "write_script s = [] \<Longrightarrow> write_all bs s = (True, s\<lparr>out_bytes := out_bytes s @ bs\<rparr>)"
proof -
  assume "write_script s = []"
  then have "os_write bs s = (int (length bs), s\<lparr>out_bytes := out_bytes s @ bs\<rparr>)" by (simp add: os_write_def)
  then show ?thesis unfolding write_all_def
    by (subst write_all_loop.simps, subst write_all_loop.simps) auto
qed

lemma load_time_record:
  assumes "shared_sem_initialized s" "infile_set s" "lock_works s"
    and "0 \<le> file_idx (shm s)" "file_idx (shm s) < infile_size s div 16" "infile_size s < 18446744073709551616"
  shows "load_time tp s = Inr ((True, timespec_from_saved (stss s ! nat (file_idx (shm s)))),
      unlocked ((locked s)\<lparr>shm := (shm s)\<lparr>file_idx := file_idx (shm s) + 1\<rparr>\<rparr>))"
proof -
  have "infile_size s div 16 \<le> infile_size s" using assms by linarith
  then have "(file_idx (shm s) + 1) mod 18446744073709551616 = file_idx (shm s) + 1" using assms by simp
  then show ?thesis using assms load_lock.run_ok [of s tp]
    by (simp add: lock_works_def load_time_locked_def ft_sem_unlock_ok)
qed

text \<open>A number of calls of \<^verbatim>\<open>load_time\<close> in a row.\<close>

fun load_times :: "nat \<Rightarrow> ft_state \<Rightarrow> ((bool \<times> timespec) list \<times> ft_state) exitable" where
  "load_times 0 s = Inr ([], s)"
| "load_times (Suc n) s = exit_bind (load_time unset_time s) (\<lambda>(r, s).
     exit_bind (load_times n s) (\<lambda>(rs, s). Inr (r # rs, s)))"

lemma load_times_records:
  assumes "shared_sem_initialized s" "infile_set s" "lock_works s"
    and "0 \<le> file_idx (shm s)" "file_idx (shm s) + int n \<le> infile_size s div 16" "infile_size s < 18446744073709551616"
  shows "\<exists>s'. load_times n s = Inr (map (\<lambda>i. (True, timespec_from_saved (stss s ! (nat (file_idx (shm s)) + i)))) [0 ..< n], s') \<and>
    shm s' = (shm s)\<lparr>file_idx := file_idx (shm s) + int n\<rparr> \<and> stss s' = stss s \<and> infile_set s' \<and>
    shared_sem_initialized s' \<and> infile_size s' = infile_size s \<and> lock_works s' \<and> sem_held s' = (n = 0 \<and> sem_held s)"
  using assms
proof (induction n arbitrary: s)
  case (Suc n)
  let ?k = "file_idx (shm s)"
  let ?t = "unlocked ((locked s)\<lparr>shm := (shm s)\<lparr>file_idx := ?k + 1\<rparr>\<rparr>)"
  have lt: "load_time unset_time s = Inr ((True, timespec_from_saved (stss s ! nat ?k)), ?t)"
    using Suc.prems by (intro load_time_record) simp_all
  have w: "lock_works ?t"
    using lock_works_locked [OF Suc.prems(3)] by (intro lock_works_unlocked) (simp add: lock_works_def)
  obtain s' where s': "load_times n ?t = Inr (map (\<lambda>i. (True, timespec_from_saved (stss ?t ! (nat (file_idx (shm ?t)) + i)))) [0 ..< n], s')"
    "shm s' = (shm ?t)\<lparr>file_idx := file_idx (shm ?t) + int n\<rparr>" "stss s' = stss ?t" "infile_set s'"
    "shared_sem_initialized s'" "infile_size s' = infile_size ?t" "lock_works s'" "sem_held s' = (n = 0 \<and> sem_held ?t)"
    using Suc.IH [of ?t] Suc.prems w by auto
  have idx: "nat (?k + 1) = Suc (nat ?k)" using Suc.prems(4) by simp
  have "map (\<lambda>i. (True, timespec_from_saved (stss s ! (nat ?k + i)))) [0 ..< Suc n]
      = (True, timespec_from_saved (stss s ! nat ?k)) # map (\<lambda>i. (True, timespec_from_saved (stss s ! (Suc (nat ?k) + i)))) [0 ..< n]"
    by (simp add: map_upt_Suc del: upt_Suc)
  then show ?case using lt s' idx by auto
qed simp

lemma length_be64_encode [simp]: "length (be64_encode x) = 8"
  by (simp add: be64_encode_def)

definition record_bytes :: "timespec \<Rightarrow> int list" where
  "record_bytes t = be64_encode (tv_sec t) @ be64_encode (tv_nsec t)"

lemma map_records_bytes: "map_records (concat (map record_bytes ts)) = map timespec_to_saved ts"
proof (induction ts)
  case Nil
  then show ?case by (subst map_records.simps) simp
next
  case (Cons t ts)
  have "length (record_bytes t) = 16" "take 8 (record_bytes t) = be64_encode (tv_sec t)"
    "take 8 (drop 8 (record_bytes t)) = be64_encode (tv_nsec t)"
    by (simp_all add: record_bytes_def)
  then show ?case using Cons by (subst map_records.simps) (simp add: timespec_to_saved_def)
qed

lemma length_record_bytes: "length (concat (map record_bytes ts)) = 16 * length ts"
  by (induction ts) (simp_all add: record_bytes_def)

lemma saved_normal: "ts_normal t \<Longrightarrow> timespec_from_saved (timespec_to_saved t) = t"
  by (simp add: saved_roundtrip normal_def wrap_s64_id in_s64_def SEC_TO_nSEC_def)

lemma save_time_ok:
  assumes "shared_sem_initialized s" "outfile s \<noteq> - 1" "lock_works s"
  shows "save_time tp s = Inr (unlocked (snd (write_all (record_bytes tp) (locked s))))"
proof -
  let ?w = "write_all (record_bytes tp) (locked s)"
  have "wrote (record_bytes tp) ?w (locked s)" by (simp add: write_all_def write_all_loop_wrote)
  then have "unlock_script (snd ?w) = unlock_script s" by (auto simp: wrote_def)
  then have "ft_sem_unlock (snd ?w) = (0, unlocked (snd ?w))"
    using assms(3) by (intro ft_sem_unlock_ok) (simp add: lock_works_def)
  then show ?thesis using assms save_lock.run_ok [of s]
    by (simp add: save_time_def lock_works_def split_def Let_def flip: record_bytes_def)
qed

section \<open>Properties\<close>

text \<open>
 \<^verbatim>\<open>save_time\<close> appends the sixteen bytes of its record to the save file under the
  lock and releases the lock again; short writes and interruptions never reorder or repeat
  bytes: what is appended is always a prefix of the record, and the whole record when the file
  accepts it. The shared memory is not touched.
\<close>

lemma save_time_appends:
  assumes "shared_sem_initialized s" "outfile s \<noteq> - 1" "lock_works s"
  shows "\<exists>s' k. save_time tp s = Inr s' \<and> k \<le> 16 \<and> out_bytes s' = out_bytes s @ take k (record_bytes tp) \<and>
    (write_script s = [] \<longrightarrow> k = 16) \<and> shm s' = shm s \<and> \<not> sem_held s'"
proof -
  let ?w = "write_all (record_bytes tp) (locked s)"
  have "wrote (record_bytes tp) ?w (locked s)" by (simp add: write_all_def write_all_loop_wrote)
  then obtain k ws e where k: "k \<le> 16" "fst ?w \<longrightarrow> k = 16"
    "snd ?w = (locked s)\<lparr>write_script := ws, errno := e, out_bytes := out_bytes s @ take k (record_bytes tp)\<rparr>"
    by (auto simp: wrote_def record_bytes_def)
  moreover have "write_script s = [] \<longrightarrow> fst ?w" by (simp add: write_all_empty_script)
  ultimately show ?thesis by (auto simp: save_time_ok [OF assms])
qed

lemma save_time_appends_witness:
  "\<exists>s'. save_time \<lparr>tv_sec = 258, tv_nsec = 7\<rparr>
      ((static_state sample_os)\<lparr>shared_sem_initialized := True, outfile := 3, lock_script := [EINTR, EINTR]\<rparr>) = Inr s' \<and>
    out_bytes s' = [0, 0, 0, 0, 0, 0, 1, 2, 0, 0, 0, 0, 0, 0, 0, 7]"
  using save_time_appends [of "(static_state sample_os)\<lparr>shared_sem_initialized := True, outfile := 3, lock_script := [EINTR, EINTR]\<rparr>"
      "\<lparr>tv_sec = 258, tv_nsec = 7\<rparr>"]
  by (auto simp: static_defs lock_works_def record_bytes_def be64_encode_def upt_rec)

text \<open>
  Claim C15. A file written by saving normalised times is replayed by \<^verbatim>\<open>load_time\<close> as exactly those
  times, in their order, one per call, whichever interruptions the lock has; the shared
  file index ends behind the last record and the lock is free.
\<close>

theorem load_replays_saved:
  assumes "shared_sem_initialized s" "infile_set s" "lock_works s" "\<not> sem_held s"
    and "stss s = map_records (concat (map record_bytes ts))"
    and "infile_size s = int (length (concat (map record_bytes ts)))" "infile_size s < 18446744073709551616"
    and "file_idx (shm s) = 0" "\<forall>t \<in> set ts. ts_normal t"
  shows "\<exists>s'. load_times (length ts) s = Inr (map (\<lambda>t. (True, t)) ts, s') \<and>
    file_idx (shm s') = int (length ts) \<and> \<not> sem_held s'"
proof -
  have len: "infile_size s div 16 = int (length ts)" using assms(6) by (simp add: length_record_bytes)
  have "map (\<lambda>i. (True, timespec_from_saved (stss s ! (nat (file_idx (shm s)) + i)))) [0 ..< length ts]
      = map (\<lambda>t. (True, t)) ts"
    using assms(5,8,9) by (intro nth_equalityI) (simp_all add: map_records_bytes saved_normal)
  then show ?thesis using load_times_records [OF assms(1-3), of "length ts"] assms len by auto
qed

theorem load_replays_saved_witness:
  "\<exists>s'. load_times 2 ((static_state sample_os)\<lparr>shared_sem_initialized := True, infile_set := True,
       stss := map_records (concat (map record_bytes [\<lparr>tv_sec = - 5, tv_nsec = 7\<rparr>, \<lparr>tv_sec = 300, tv_nsec = 0\<rparr>])),
       infile_size := 32\<rparr>)
     = Inr ([(True, \<lparr>tv_sec = - 5, tv_nsec = 7\<rparr>), (True, \<lparr>tv_sec = 300, tv_nsec = 0\<rparr>)], s')"
proof -
  define ts where "ts = [\<lparr>tv_sec = - 5, tv_nsec = 7\<rparr>, \<lparr>tv_sec = 300, tv_nsec = 0\<rparr>]"
  have l: "length ts = 2" by (simp add: ts_def)
  have "\<exists>s'. load_times (length ts) ((static_state sample_os)\<lparr>shared_sem_initialized := True, infile_set := True,
       stss := map_records (concat (map record_bytes ts)), infile_size := 32\<rparr>) = Inr (map (\<lambda>t. (True, t)) ts, s') \<and>
    file_idx (shm s') = int (length ts) \<and> \<not> sem_held s'"
    by (rule load_replays_saved)
      (simp_all only: length_record_bytes, simp_all add: static_defs lock_works_def new_shared_def ts_def normal_def in_s64_def SEC_TO_nSEC_def)
  then show ?thesis unfolding l unfolding ts_def by auto
qed

end
