(* ===== verification/Parse_Config.thy ===== *)
theory Parse_Config
  imports Saved_Timestamps
begin

text \<open>
  Reading the user's request: \<^verbatim>\<open>parse_ft_string\<close> with its five forms (absolute, offset, start at,
  follow a file, modifiers only), the configuration file (\<^verbatim>\<open>read_config_file\<close>,
  \<^verbatim>\<open>prepare_config_contents\<close>), the lookup in comma separated lists
  (\<^verbatim>\<open>str_array_contains\<close>) and \<^verbatim>\<open>get_fake_monotonic_setting\<close>, all of
  \<^verbatim>\<open>src/src/libfaketime.c\<close>. What \<^verbatim>\<open>strptime\<close> followed by \<^verbatim>\<open>mktime\<close> makes of a text is the field
  \<open>strptime_mktime\<close> of the surroundings: the seconds and the number of characters consumed.
\<close>

section \<open>Modifiers\<close>

definition parse_rate_reset :: "ft_state \<Rightarrow> ft_state" where
  "parse_rate_reset s =
    (if getenv ''FAKETIME_XRESET'' s \<noteq> None \<and> tv_nsec (st_real (ftpl_timecache s)) \<ge> 0
     then s\<lparr>user_faked_time_timespec := st_real (ftpl_faketimecache s),
            ftpl_starttime := ftpl_timecache s\<rparr>
     else s)"

definition parse_modifiers :: "string \<Rightarrow> ft_state \<Rightarrow> ft_state exitable" where
  "parse_modifiers uft s =
    (case strchr uft (CHR ''x'') of
       Some r \<Rightarrow>
         (case parse_finite_double (decimal_point s) (tl r) of (ok, rate) \<Rightarrow>
            if \<not> ok \<or> fl_le rate (Fin 0)
            then Inl (Exit EXIT_FAILURE (''libfaketime: invalid clock rate in FAKETIME: '' @ uft))
            else Inr (parse_rate_reset (s\<lparr>user_rate := rate, user_rate_set := True\<rparr>)))
     | None \<Rightarrow>
         (case strchr uft (CHR ''i'') of
            Some r \<Rightarrow>
              (case parse_finite_double (decimal_point s) (tl r) of (ok, tick_inc) \<Rightarrow>
                 if \<not> ok then Inl (Exit EXIT_FAILURE (''libfaketime: invalid tick increment in FAKETIME: '' @ uft))
                 else case double_to_timespec tick_inc of
                        None \<Rightarrow> Inl (Exit EXIT_FAILURE (''libfaketime: tick increment is out of range: '' @ uft))
                      | Some inc \<Rightarrow> Inr (s\<lparr>user_per_tick_inc := inc, user_per_tick_inc_set := True\<rparr>))
          | None \<Rightarrow> Inr s))"

section \<open>The forms of a request\<close>

text \<open>The nanoseconds of a fraction that follows a parsed date; the argument is the number around the point.\<close>

definition fraction_nanoseconds :: "cfloat \<Rightarrow> int" where
  "fraction_nanoseconds x =
    (case x of Fin v \<Rightarrow>
       fl_trunc (fl_mul c_double (fl_add c_double x (Fin (- of_int \<lfloor>v\<rfloor>))) (fl_of_int c_double SEC_TO_nSEC))
     | _ \<Rightarrow> 0)"

text \<open>
  The absolute time in \<open>text\<close>: \<open>None\<close> when \<^verbatim>\<open>strptime\<close> fails. A point after the date is part of a
  number that starts one character earlier, at the last digit of the seconds.
\<close>

definition parse_absolute :: "string \<Rightarrow> string \<Rightarrow> ft_state \<Rightarrow> timespec option exitable" where
  "parse_absolute uft text s =
    (case strptime_mktime s (user_faked_time_fmt s) text of
       None \<Rightarrow> Inr None
     | Some (seconds, consumed) \<Rightarrow>
        let nstime_str = drop consumed text
        in if nstime_str \<noteq> [] \<and> hd nstime_str = CHR ''.'' then
             (case parse_finite_double_prefix (decimal_point s) (drop (consumed - 1) text) of (ok, nstime, _) \<Rightarrow>
                if \<not> ok then Inl (Exit EXIT_FAILURE (''libfaketime: invalid fractional timestamp: '' @ uft))
                else Inr (Some \<lparr>tv_sec = seconds, tv_nsec = fraction_nanoseconds nstime\<rparr>))
           else Inr (Some \<lparr>tv_sec = seconds, tv_nsec = 0\<rparr>))"

definition parse_default :: "string \<Rightarrow> ft_state \<Rightarrow> ft_state exitable" where
  "parse_default uft s =
    (let s = (if ft_mode s \<noteq> FT_NOOP then s\<lparr>ft_mode := FT_FREEZE\<rparr> else s)
     in exit_bind (parse_absolute uft uft s) (\<lambda>r.
          case r of
            None \<Rightarrow> Inl (Exit EXIT_FAILURE (''libfaketime: In parse_ft_string(), failed to parse FAKETIME timestamp. Please check specification ''
                        @ uft @ '' with format '' @ user_faked_time_fmt s))
          | Some t \<Rightarrow> parse_modifiers uft (s\<lparr>user_faked_time_timespec := t, user_faked_time_set := True\<rparr>)))"

definition unit_factor :: "char \<Rightarrow> cfloat option" where
  "unit_factor c =
    (if c = CHR ''m'' then Some (Fin 60) else if c = CHR ''h'' then Some (Fin 3600)
     else if c = CHR ''d'' then Some (Fin 86400) else if c = CHR ''y'' then Some (Fin 31536000) else None)"

text \<open>The number of an offset with its unit, and what follows the white space behind it.\<close>

definition split_unit :: "string \<Rightarrow> cfloat option \<times> string" where
  "split_unit end =
    (case end of
       c # t \<Rightarrow> (case unit_factor c of Some f \<Rightarrow> (Some f, dropWhile isspace t) | None \<Rightarrow> (None, dropWhile isspace end))
     | [] \<Rightarrow> (None, []))"

definition parse_offset :: "string \<Rightarrow> ft_state \<Rightarrow> ft_state exitable" where
  "parse_offset uft s =
    (let s = (if ft_mode s \<noteq> FT_NOOP then s\<lparr>ft_mode := FT_START_AT\<rparr> else s)
     in case parse_finite_double_prefix (decimal_point s) uft of (ok, frac_offset, offset_end) \<Rightarrow>
       if \<not> ok then Inl (Exit EXIT_FAILURE (''libfaketime: invalid time offset: '' @ uft))
       else case split_unit offset_end of (unit, offset_end) \<Rightarrow>
         if offset_end \<noteq> [] \<and> hd offset_end \<noteq> CHR ''x'' \<and> hd offset_end \<noteq> CHR ''i''
         then Inl (Exit EXIT_FAILURE (''libfaketime: invalid time offset: '' @ uft))
         else case (case unit of None \<Rightarrow> Some frac_offset | Some f \<Rightarrow> scale_finite_double frac_offset f) of
             None \<Rightarrow> Inl (Exit EXIT_FAILURE (''libfaketime: time offset is out of range: '' @ uft))
           | Some frac_offset \<Rightarrow>
               case double_to_timespec frac_offset of
                 None \<Rightarrow> Inl (Exit EXIT_FAILURE (''libfaketime: time offset is out of range: '' @ uft))
               | Some off \<Rightarrow>
                   parse_modifiers uft
                     (s\<lparr>user_offset := off,
                        user_faked_time_timespec := timespecadd (st_real (ftpl_starttime s)) off\<rparr>))"

definition maybe_reset_time :: "ft_state \<Rightarrow> ft_state exitable" where
  "maybe_reset_time s = (if getenv ''FAKETIME_DONT_RESET'' s = None then reset_time s else Inr s)"

definition parse_start_at :: "string \<Rightarrow> ft_state \<Rightarrow> ft_state exitable" where
  "parse_start_at uft s =
    (let s = s\<lparr>ft_mode := FT_START_AT\<rparr>
     in exit_bind (parse_absolute uft (tl uft) s) (\<lambda>r.
          case r of
            None \<Rightarrow> Inl (Exit EXIT_FAILURE ''libfaketime: In parse_ft_string(), failed to parse FAKETIME timestamp.'')
          | Some t \<Rightarrow>
              exit_bind (maybe_reset_time (s\<lparr>user_faked_time_timespec := t\<rparr>)) (parse_modifiers uft)))"

text \<open>\<^verbatim>\<open>ft_real_stat\<close>, of which only the modification time is used.\<close>

definition ft_real_stat_mtime :: "string \<Rightarrow> ft_state \<Rightarrow> timespec option" where
  "ft_real_stat_mtime path s =
    (if missing_real s ''stat'' \<and> missing_real s ''xstat'' then None else mtimes s path)"

definition parse_follow :: "string \<Rightarrow> ft_state \<Rightarrow> ft_state exitable" where
  "parse_follow uft s =
    (let s = s\<lparr>ft_mode := FT_START_AT\<rparr>
     in case getenv ''FAKETIME_FOLLOW_FILE'' s of
          None \<Rightarrow> Inl (Exit 1 ''libfaketime: % operator in FAKETIME setting requires environment variable FAKETIME_FOLLOW_FILE set.'')
        | Some file \<Rightarrow>
           (case ft_real_stat_mtime file s of
              None \<Rightarrow> Inl (Exit 1 (''libfaketime: Cannot get timestamp of file '' @ file @ '' as requested by % operator.''))
            | Some mtime \<Rightarrow>
               let s = (if getenv ''FAKETIME_FOLLOW_ABSOLUTE'' s = None
                        then s\<lparr>user_faked_time_timespec := \<lparr>tv_sec = tv_sec mtime, tv_nsec = 0\<rparr>\<rparr>
                        else s\<lparr>user_faked_time_timespec := \<lparr>tv_sec = tv_sec mtime, tv_nsec = tv_nsec mtime\<rparr>,
                               ft_mode := (if ft_mode s \<noteq> FT_NOOP then FT_FREEZE else ft_mode s),
                               user_faked_time_set := True\<rparr>)
               in exit_bind (maybe_reset_time s) (\<lambda>s.
                    if \<not> user_faked_time_set s then parse_modifiers uft s else Inr s)))"

definition BUFFERLEN :: nat where "BUFFERLEN = 256"

definition parse_ft_string :: "string \<Rightarrow> ft_state \<Rightarrow> ft_state exitable" where
  "parse_ft_string uft s =
    (if take BUFFERLEN uft = take BUFFERLEN (user_faked_time_saved s) \<and> (uft = [] \<or> hd uft \<noteq> CHR ''%'')
     then Inr s
     else exit_bind
       (if uft = [] then parse_default uft s
        else if hd uft = CHR ''+'' \<or> hd uft = CHR ''-'' then parse_offset uft s
        else if hd uft = CHR ''@'' then parse_start_at uft s
        else if hd uft = CHR ''%'' then parse_follow uft s
        else if hd uft = CHR ''i'' \<or> hd uft = CHR ''x'' then parse_modifiers uft s
        else parse_default uft s)
       (\<lambda>s. Inr (s\<lparr>user_faked_time_saved := take (BUFFERLEN - 1) uft\<rparr>)))"

section \<open>The configuration file\<close>

definition is_eol :: "char \<Rightarrow> bool" where
  "is_eol c \<longleftrightarrow> c = CHR 0x0D \<or> c = CHR 0x0A"

definition is_blank :: "char \<Rightarrow> bool" where
  "is_blank c \<longleftrightarrow> c = CHR '' '' \<or> c = CHR 0x09"

definition is_comment :: "string \<Rightarrow> bool" where
  "is_comment line =
    (case dropWhile is_blank line of [] \<Rightarrow> False | c # _ \<Rightarrow> c = CHR ''#'' \<or> c = CHR '';'')"

function prepare_config_contents :: "string \<Rightarrow> string" where
  "prepare_config_contents s =
    (if s = [] then []
     else let line = takeWhile (\<lambda>c. \<not> is_eol c) s;
              rest = dropWhile is_eol (dropWhile (\<lambda>c. \<not> is_eol c) s)
          in (if is_comment line then [] else line) @ prepare_config_contents rest)"
  by pat_completeness auto
termination
proof (relation "measure length")
  fix s :: string and line rest
  assume s: "s \<noteq> []" and rest: "rest = dropWhile is_eol (dropWhile (\<lambda>c. \<not> is_eol c) s)"
  obtain c t where ct: "s = c # t" using s by (cases s) auto
  have "length rest \<le> length t"
  proof (cases "is_eol c")
    case True
    then show ?thesis using rest ct by (simp add: length_dropWhile_le)
  next
    case False
    then have "length rest \<le> length (dropWhile (\<lambda>c. \<not> is_eol c) t)" using rest ct by (simp add: length_dropWhile_le)
    then show ?thesis using length_dropWhile_le [of "\<lambda>c. \<not> is_eol c" t] by linarith
  qed
  then show "(rest, s) \<in> measure length" using ct by simp
qed simp

definition BUFSIZ :: nat where "BUFSIZ = 8192"

text \<open>The first of the three candidate files that can be opened.\<close>

definition open_config :: "ft_state \<Rightarrow> string option" where
  "open_config s =
    (let custom = (case getenv ''FAKETIME_TIMESTAMP_FILE'' s of
                     Some p \<Rightarrow> if p \<noteq> [] \<and> length p < BUFSIZ then p else [] | None \<Rightarrow> []);
         home = (case getenv ''HOME'' s of
                   Some h \<Rightarrow> if h \<noteq> [] \<and> length (h @ ''/.faketimerc'') < BUFSIZ then h @ ''/.faketimerc'' else []
                 | None \<Rightarrow> []);
         r = (if custom \<noteq> [] then config_files s custom else None);
         r = (if r = None \<and> home \<noteq> [] then config_files s home else r)
     in if r = None then config_files s ''/etc/faketimerc'' else r)"

text \<open>
  One \<^verbatim>\<open>read\<close> of at most \<open>n\<close> bytes: its result and the state. An entry of the script is a bound on
  the bytes it delivers, or negative for an error.
\<close>

definition os_read :: "nat \<Rightarrow> string \<Rightarrow> ft_state \<Rightarrow> int \<times> ft_state" where
  "os_read n content s =
    (case read_script s of
       [] \<Rightarrow> (int (min n (length content)), s)
     | k # ks \<Rightarrow>
        if k < 0 then (- 1, s\<lparr>read_script := ks, errno := - k\<rparr>)
        else (int (min (nat k) (min n (length content))), s\<lparr>read_script := ks\<rparr>))"

text \<open>The reading loop: the bytes so far, the rest of the file and the last result of \<^verbatim>\<open>read\<close>.\<close>

function read_config_loop :: "string \<Rightarrow> string \<Rightarrow> int \<Rightarrow> ft_state \<Rightarrow> string \<times> string \<times> int \<times> ft_state" where
  "read_config_loop buf content bytes s =
    (if length buf < BUFFERLEN - 1 then
       (case os_read (BUFFERLEN - 1 - length buf) content s of (bytes, s) \<Rightarrow>
          if bytes > 0
          then read_config_loop (buf @ take (nat bytes) content) (drop (nat bytes) content) bytes s
          else (buf, content, bytes, s))
     else (buf, content, bytes, s))"
  by pat_completeness auto
termination
  by (relation "measure (\<lambda>(buf, content, bytes, s). length content)")
    (auto simp: os_read_def split: list.splits if_splits)

definition read_config_file :: "ft_state \<Rightarrow> (int \<times> ft_state) exitable" where
  "read_config_file s =
    (case open_config s of
       None \<Rightarrow> Inr (0, s)
     | Some content \<Rightarrow>
        (case read_config_loop [] content 0 s of (buf, content, bytes, s) \<Rightarrow>
           let (bytes, s) = (if length buf = BUFFERLEN - 1 \<and> bytes = 0 then os_read 1 content s else (bytes, s))
           in if close_fails s then Inr (- 1, s)
              else if bytes > 0 then Inr (- 1, s)
              else if bytes < 0 then Inr (- 1, s)
              else if CHR 0x00 \<in> set buf then Inr (- 1, s)
              else exit_bind (parse_ft_string (prepare_config_contents buf) s) (\<lambda>s. Inr (1, s))))"

section \<open>Lists and flags\<close>

function contains_loop :: "string \<Rightarrow> string \<Rightarrow> nat option \<Rightarrow> bool" where
  "contains_loop haystack needle pos =
    (case pos of None \<Rightarrow> False
     | Some p \<Rightarrow>
        if length haystack < p + length needle then False
        else if (p = 0 \<or> haystack ! (p - 1) = CHR '','')
             \<and> (p + length needle = length haystack \<or> haystack ! (p + length needle) = CHR '','')
        then True
        else contains_loop haystack needle (map_option (\<lambda>k. p + 1 + k) (strstr (drop (p + 1) haystack) needle)))"
  by pat_completeness auto
termination
  by (relation "measure (\<lambda>(h, n, pos). case pos of None \<Rightarrow> 0 | Some p \<Rightarrow> Suc (length h) - p)")
    (auto split: option.splits)

definition str_array_contains :: "string \<Rightarrow> string \<Rightarrow> bool" where
  "str_array_contains haystack needle = contains_loop haystack needle (strstr haystack needle)"

definition get_fake_monotonic_setting :: "int \<Rightarrow> ft_state \<Rightarrow> int" where
  "get_fake_monotonic_setting current s =
    (case getenv ''FAKETIME_DONT_FAKE_MONOTONIC'' s of
       Some v \<Rightarrow> if v = ''1'' then 0 else 1
     | None \<Rightarrow>
        (case getenv ''DONT_FAKE_MONOTONIC'' s of
           Some v \<Rightarrow> if v = ''1'' then 0 else 1
         | None \<Rightarrow> current))"

section \<open>Lemmas\<close>

declare prepare_config_contents.simps [simp del] read_config_loop.simps [simp del] contains_loop.simps [simp del]

subsection \<open>Lines and comma separated lists\<close>

text \<open>The reference: a text split at every separator.\<close>

fun split_at :: "('a \<Rightarrow> bool) \<Rightarrow> 'a list \<Rightarrow> 'a list list" where
  "split_at P [] = [[]]"
| "split_at P (c # s) = (if P c then [] # split_at P s else (case split_at P s of l # ls \<Rightarrow> (c # l) # ls | [] \<Rightarrow> [[c]]))"

lemma split_at_nonempty: "split_at P s \<noteq> []"
  by (induction s) (auto split: list.splits)

lemma split_at_unfold:
  "split_at P s = takeWhile (\<lambda>c. \<not> P c) s #
     (case dropWhile (\<lambda>c. \<not> P c) s of [] \<Rightarrow> [] | _ # t \<Rightarrow> split_at P t)"
  by (induction s) auto

lemma is_comment_Nil [simp]: "\<not> is_comment []"
  by (simp add: is_comment_def)

lemma split_at_eols:
  "concat (filter (\<lambda>l. \<not> is_comment l) (split_at is_eol (dropWhile is_eol s)))
    = concat (filter (\<lambda>l. \<not> is_comment l) (split_at is_eol s))"
  by (induction s) auto

lemma prepare_lines:
  "prepare_config_contents s = concat (filter (\<lambda>l. \<not> is_comment l) (split_at is_eol s))"
proof (induction s rule: prepare_config_contents.induct)
  case (1 s)
  show ?case
  proof (cases "s = []")
    case True
    then show ?thesis by (simp add: prepare_config_contents.simps)
  next
    case False
    let ?r = "dropWhile (\<lambda>c. \<not> is_eol c) s"
    have "concat (filter (\<lambda>l. \<not> is_comment l) (split_at is_eol (dropWhile is_eol ?r)))
        = concat (filter (\<lambda>l. \<not> is_comment l) (case ?r of [] \<Rightarrow> [] | _ # t \<Rightarrow> split_at is_eol t))"
    proof (cases ?r)
      case (Cons c t)
      then have "is_eol c" by (simp add: dropWhile_eq_Cons_conv)
      then show ?thesis by (simp only: split_at_eols) (simp add: Cons)
    next
      case Nil
      show ?thesis unfolding Nil by simp
    qed
    then show ?thesis using False 1
      by (subst prepare_config_contents.simps, subst split_at_unfold) (simp add: Let_def)
  qed
qed

text \<open>The same on a file that is written out line by line.\<close>

lemma dropWhile_all_append: "\<forall>x \<in> set xs. P x \<Longrightarrow> dropWhile P (xs @ ys) = dropWhile P ys"
  by (induction xs) auto

lemma prepare_Nil [simp]: "prepare_config_contents [] = []"
  by (subst prepare_config_contents.simps) simp

lemma prepare_skips_ends: "set ends \<subseteq> {CHR 0x0A, CHR 0x0D} \<Longrightarrow> prepare_config_contents (ends @ s) = prepare_config_contents s"
proof -
  assume "set ends \<subseteq> {CHR 0x0A, CHR 0x0D}"
  then have "\<forall>c \<in> set ends. is_eol c" by (auto simp: is_eol_def)
  then have "dropWhile is_eol (ends @ s) = dropWhile is_eol s" by (rule dropWhile_all_append)
  then show ?thesis using split_at_eols [of "ends @ s"] split_at_eols [of s] unfolding prepare_lines by metis
qed

lemma prepare_line:
  assumes "CHR 0x0A \<notin> set line" "CHR 0x0D \<notin> set line" "s = [] \<or> hd s = CHR 0x0A \<or> hd s = CHR 0x0D"
  shows "prepare_config_contents (line @ s) = (if is_comment line then [] else line) @ prepare_config_contents s"
proof (cases "line @ s = []")
  case False
  have l: "\<forall>c \<in> set line. \<not> is_eol c" using assms(1,2) by (auto simp: is_eol_def)
  have t: "takeWhile (\<lambda>c. \<not> is_eol c) s = []" "dropWhile (\<lambda>c. \<not> is_eol c) s = s"
    using assms(3) by (cases s; auto simp: is_eol_def)+
  have "takeWhile (\<lambda>c. \<not> is_eol c) (line @ s) = line" "dropWhile (\<lambda>c. \<not> is_eol c) (line @ s) = s"
    using l t by (simp_all add: takeWhile_append2 dropWhile_append2)
  moreover have "prepare_config_contents (dropWhile is_eol s) = prepare_config_contents s"
    using split_at_eols [of s] unfolding prepare_lines .
  ultimately show ?thesis using False prepare_config_contents.simps [of "line @ s"] by (simp add: Let_def)
qed simp

lemma comment_written:
  assumes "set blanks \<subseteq> {CHR '' '', CHR 0x09}" "l = [] \<or> hd l \<noteq> CHR '' '' \<and> hd l \<noteq> CHR 0x09"
  shows "is_comment (blanks @ l) \<longleftrightarrow> l \<noteq> [] \<and> (hd l = CHR ''#'' \<or> hd l = CHR '';'')"
proof -
  have "\<forall>c \<in> set blanks. is_blank c" using assms(1) by (auto simp: is_blank_def)
  then have "dropWhile is_blank (blanks @ l) = dropWhile is_blank l" by (rule dropWhile_all_append)
  also have "\<dots> = l" using assms(2) by (cases l) (auto simp: is_blank_def)
  finally have d: "dropWhile is_blank (blanks @ l) = l" .
  show ?thesis unfolding is_comment_def d by (cases l) simp_all
qed

lemma prepare_written_lines:
  assumes "\<forall>(blanks, l, ends) \<in> set ls. set blanks \<subseteq> {CHR '' '', CHR 0x09} \<and> CHR 0x0A \<notin> set l \<and> CHR 0x0D \<notin> set l \<and>
      (l = [] \<or> hd l \<noteq> CHR '' '' \<and> hd l \<noteq> CHR 0x09) \<and> set ends \<subseteq> {CHR 0x0A, CHR 0x0D}"
    and "\<forall>(blanks, l, ends) \<in> set (butlast ls). ends \<noteq> []"
  shows "prepare_config_contents (concat (map (\<lambda>(blanks, l, ends). blanks @ l @ ends) ls)) =
    concat (map (\<lambda>(blanks, l, ends). if l \<noteq> [] \<and> (hd l = CHR ''#'' \<or> hd l = CHR '';'') then [] else blanks @ l) ls)"
  using assms
proof (induction ls)
  case (Cons x ls)
  obtain blanks l ends where x: "x = (blanks, l, ends)" by (cases x)
  let ?rest = "concat (map (\<lambda>(blanks, l, ends). blanks @ l @ ends) ls)"
  have p: "set blanks \<subseteq> {CHR '' '', CHR 0x09}" "CHR 0x0A \<notin> set l" "CHR 0x0D \<notin> set l" "set ends \<subseteq> {CHR 0x0A, CHR 0x0D}"
    "l = [] \<or> hd l \<noteq> CHR '' '' \<and> hd l \<noteq> CHR 0x09" using Cons.prems(1) x by auto
  have e: "ends @ ?rest = [] \<or> hd (ends @ ?rest) = CHR 0x0A \<or> hd (ends @ ?rest) = CHR 0x0D"
  proof (cases ends)
    case Nil
    then have "ls = []" using Cons.prems(2) x by (auto split: if_splits)
    then show ?thesis using Nil by simp
  qed (use p(4) in auto)
  have n: "CHR 0x0A \<notin> set (blanks @ l)" "CHR 0x0D \<notin> set (blanks @ l)" using p(1-3) by auto
  have "\<forall>(blanks, l, ends) \<in> set (butlast ls). ends \<noteq> []" using Cons.prems(2) by (cases ls) auto
  then have "prepare_config_contents ?rest =
      concat (map (\<lambda>(blanks, l, ends). if l \<noteq> [] \<and> (hd l = CHR ''#'' \<or> hd l = CHR '';'') then [] else blanks @ l) ls)"
    using Cons.IH Cons.prems(1) by simp
  then show ?case
    using prepare_line [OF n e] prepare_skips_ends [OF p(4), of ?rest] comment_written [OF p(1,5)] by (simp add: x)
qed simp

lemma strstr_Some: "strstr h n = Some k \<Longrightarrow> str_prefix n (drop k h) \<and> k \<le> length h \<and> (\<forall>j < k. \<not> str_prefix n (drop j h))"
proof (induction h arbitrary: k)
  case Nil
  then show ?case by (subst (asm) strstr.simps) (auto split: if_splits)
next
  case (Cons c h)
  show ?case
  proof (cases "str_prefix n (c # h)")
    case True
    then show ?thesis using Cons.prems by (subst (asm) strstr.simps) simp
  next
    case False
    then obtain k' where k': "strstr h n = Some k'" "k = Suc k'" using Cons.prems
      by (subst (asm) strstr.simps) auto
    then show ?thesis using Cons.IH [OF k'(1)] False by (auto simp: less_Suc_eq_0_disj)
  qed
qed

lemma strstr_None: "strstr h n = None \<Longrightarrow> j \<le> length h \<Longrightarrow> \<not> str_prefix n (drop j h)"
proof (induction h arbitrary: j)
  case Nil
  then show ?case by (subst (asm) strstr.simps) (auto split: if_splits)
next
  case (Cons c h)
  have n: "\<not> str_prefix n (c # h)" "strstr h n = None"
    using Cons.prems(1) by (subst (asm) strstr.simps, simp split: if_splits)+
  then show ?case using Cons.IH [of "j - 1"] Cons.prems(2) by (cases j) auto
qed

text \<open>The word \<open>n\<close> stands between commas or ends at position \<open>j\<close>.\<close>

definition word_at :: "string \<Rightarrow> string \<Rightarrow> nat \<Rightarrow> bool" where
  "word_at h n j \<longleftrightarrow> str_prefix n (drop j h) \<and> j + length n \<le> length h \<and>
     (j = 0 \<or> h ! (j - 1) = CHR '','') \<and> (j + length n = length h \<or> h ! (j + length n) = CHR '','')"

lemma str_prefix_length: "str_prefix n (drop j h) \<Longrightarrow> n \<noteq> [] \<or> j \<le> length h \<Longrightarrow> j + length n \<le> length h"
proof -
  assume p: "str_prefix n (drop j h)" and n: "n \<noteq> [] \<or> j \<le> length h"
  have "length n \<le> length (drop j h)" using p unfolding str_prefix_def by (metis length_take min.cobounded1)
  with n show ?thesis by (cases n) auto
qed

lemma contains_loop_iff:
  assumes "\<forall>j. pos = Some j \<longrightarrow> str_prefix n (drop j h) \<and> j \<le> length h"
  shows "contains_loop h n pos \<longleftrightarrow> (\<exists>p j. pos = Some p \<and> p \<le> j \<and> word_at h n j)"
  using assms
proof (induction h n pos rule: contains_loop.induct)
  case (1 h n pos)
  show ?case
  proof (cases pos)
    case None
    then show ?thesis by (subst contains_loop.simps) simp
  next
    case (Some p)
    have pl: "p + length n \<le> length h" and sp: "str_prefix n (drop p h)"
      using 1(2) Some str_prefix_length by auto
    show ?thesis
    proof (cases "word_at h n p")
      case True
      then show ?thesis using Some pl by (subst contains_loop.simps) (auto simp: word_at_def)
    next
      case False
      let ?q = "map_option (\<lambda>k. p + 1 + k) (strstr (drop (p + 1) h) n)"
      have nw: "\<not> ((p = 0 \<or> h ! (p - 1) = CHR '','') \<and> (p + length n = length h \<or> h ! (p + length n) = CHR '',''))"
        using False sp pl by (auto simp: word_at_def)
      have eq: "contains_loop h n pos = contains_loop h n ?q"
        using Some pl nw by (subst contains_loop.simps) (simp only: option.case not_less [symmetric] if_False)
      have q: "\<forall>j. ?q = Some j \<longrightarrow> str_prefix n (drop j h) \<and> j \<le> length h" if "p < length h"
        using that by (auto dest!: strstr_Some simp: add.commute)
      show ?thesis
      proof (cases "p < length h")
        case True
        have next_pos: "(\<exists>j. p \<le> j \<and> word_at h n j) \<longleftrightarrow> (\<exists>q j. ?q = Some q \<and> q \<le> j \<and> word_at h n j)"
        proof
          assume "\<exists>j. p \<le> j \<and> word_at h n j"
          then obtain j where j: "p < j" "word_at h n j" using False by (metis le_neq_implies_less)
          have jd: "str_prefix n (drop (j - (p + 1)) (drop (p + 1) h))" "j - (p + 1) \<le> length (drop (p + 1) h)"
            using j by (auto simp: word_at_def)
          show "\<exists>q j. ?q = Some q \<and> q \<le> j \<and> word_at h n j"
          proof (cases "strstr (drop (p + 1) h) n")
            case None
            then show ?thesis using strstr_None jd by blast
          next
            case (Some k)
            then have "k \<le> j - (p + 1)" using strstr_Some jd(1) by (meson not_le)
            then have "p + 1 + k \<le> j" using j(1) by simp
            then show ?thesis using Some j by auto
          qed
        next
          assume "\<exists>q j. ?q = Some q \<and> q \<le> j \<and> word_at h n j"
          then obtain z j where "p + 1 + z \<le> j" "word_at h n j" by auto
          then show "\<exists>j. p \<le> j \<and> word_at h n j" by (intro exI [of _ j]) simp
        qed
        have ih: "contains_loop h n ?q \<longleftrightarrow> (\<exists>q j. ?q = Some q \<and> q \<le> j \<and> word_at h n j)"
          using 1(1) [OF Some _ nw q [OF True]] pl by (simp only: not_less)
        show ?thesis unfolding eq ih next_pos [symmetric] using Some by auto
      next
        case ge: False
        then have pe: "p = length h" "n = []" using pl by (cases n; simp)+
        have "\<not> word_at h n j" if "p \<le> j" for j
          using that False pe by (auto simp: word_at_def)
        moreover have "\<not> contains_loop h n ?q"
          using pe by (subst contains_loop.simps) (auto split: option.splits)
        ultimately show ?thesis unfolding eq using Some by blast
      qed
    qed
  qed
qed

lemma word_at_0:
  assumes "CHR '','' \<notin> set n"
  shows "word_at h n 0 \<longleftrightarrow> n = takeWhile (\<lambda>c. c \<noteq> CHR '','') h"
proof
  assume w: "word_at h n 0"
  then have h: "h = n @ drop (length n) h" by (simp add: word_at_def str_prefix_def) (metis append_take_drop_id)
  have "drop (length n) h = [] \<or> hd (drop (length n) h) = CHR '',''"
    using w by (cases "length n < length h") (auto simp: word_at_def hd_drop_conv_nth)
  moreover have "\<forall>c \<in> set n. c \<noteq> CHR '',''" using assms by blast
  ultimately have "takeWhile (\<lambda>c. c \<noteq> CHR '','') (n @ drop (length n) h) = n"
    using takeWhile_append_stop [of n "\<lambda>c. c \<noteq> CHR '',''" "CHR '',''"]
    by (cases "drop (length n) h") (simp_all add: takeWhile_eq_all_conv)
  then show "n = takeWhile (\<lambda>c. c \<noteq> CHR '','') h" using h by simp
next
  assume n: "n = takeWhile (\<lambda>c. c \<noteq> CHR '','') h"
  then have "length n < length h \<Longrightarrow> h ! length n = CHR '',''"
    using nth_length_takeWhile by blast
  moreover have "length n \<le> length h" using n by (simp add: length_takeWhile_le)
  moreover have "take (length n) h = n" using n takeWhile_eq_take by metis
  ultimately show "word_at h n 0" by (cases "length n = length h") (simp_all add: word_at_def str_prefix_def)
qed

lemma word_at_inside:
  assumes "CHR '','' \<notin> set w" "0 < j" "j \<le> length w"
  shows "\<not> word_at (w @ r) n j"
proof -
  have "w ! (j - 1) \<in> set w" using assms by (intro nth_mem) linarith
  moreover have "(w @ r) ! (j - 1) = w ! (j - 1)"
  proof -
    have "j - 1 < length w" using assms by linarith
    then show ?thesis by (simp only: nth_append if_True)
  qed
  ultimately have "(w @ r) ! (j - 1) \<noteq> CHR '',''" using assms(1) by metis
  then show ?thesis using assms(2) by (simp only: word_at_def) simp
qed

lemma word_at_shift: "word_at (w @ CHR '','' # t) n (length w + 1 + j) \<longleftrightarrow> word_at t n j"
  by (cases j) (auto simp: word_at_def nth_append add.assoc)

lemma word_at_split:
  assumes "CHR '','' \<notin> set n"
  shows "(\<exists>j. word_at h n j) \<longleftrightarrow> n \<in> set (split_at (\<lambda>c. c = CHR '','') h)"
proof (induction "length h" arbitrary: h rule: less_induct)
  case less
  define w where "w = takeWhile (\<lambda>c. c \<noteq> CHR '','') h"
  have wc: "CHR '','' \<notin> set w" by (auto simp: w_def dest: set_takeWhileD)
  have w0: "word_at h n 0 \<longleftrightarrow> n = w" using word_at_0 [OF assms] by (simp add: w_def)
  show ?case
  proof (cases "dropWhile (\<lambda>c. c \<noteq> CHR '','') h")
    case Nil
    then have h: "h = w" by (metis w_def takeWhile_dropWhile_id append_Nil2)
    then have "\<not> word_at h n j" if "0 < j" for j
      using word_at_inside [OF wc that, of "[]" n] that by (cases "j \<le> length w") (auto simp: word_at_def)
    then have "(\<exists>j. word_at h n j) \<longleftrightarrow> n = w" using w0 by (metis not_gr_zero)
    then show ?thesis by (simp only: split_at_unfold [of _ h] Nil list.case) (simp add: w_def)
  next
    case (Cons c t)
    then have h: "h = w @ CHR '','' # t"
      by (metis (full_types) w_def dropWhile_eq_Cons_conv takeWhile_dropWhile_id)
    have "(\<exists>j. word_at h n j) \<longleftrightarrow> n = w \<or> (\<exists>j. word_at t n j)"
    proof
      assume "\<exists>j. word_at h n j"
      then obtain j where j: "word_at h n j" by blast
      show "n = w \<or> (\<exists>j. word_at t n j)"
      proof (cases "j \<le> length w")
        case True
        then show ?thesis using j w0 h word_at_inside [OF wc] by (cases "j = 0") auto
      next
        case False
        then have "j = length w + 1 + (j - length w - 1)" by simp
        then show ?thesis using j h word_at_shift by metis
      qed
    qed (use w0 h word_at_shift in metis)
    moreover have "(\<exists>j. word_at t n j) \<longleftrightarrow> n \<in> set (split_at (\<lambda>c. c = CHR '','') t)"
      using less [of t] h by simp
    ultimately show ?thesis using Cons by (subst split_at_unfold) (simp add: w_def)
  qed
qed

lemma str_array_contains_iff:
  assumes "CHR '','' \<notin> set n"
  shows "str_array_contains h n \<longleftrightarrow> n \<in> set (split_at (\<lambda>c. c = CHR '','') h)"
proof -
  have "str_array_contains h n \<longleftrightarrow> (\<exists>p j. strstr h n = Some p \<and> p \<le> j \<and> word_at h n j)"
    unfolding str_array_contains_def by (rule contains_loop_iff) (auto dest: strstr_Some)
  also have "\<dots> \<longleftrightarrow> (\<exists>j. word_at h n j)"
  proof
    assume "\<exists>j. word_at h n j"
    then obtain j where j: "word_at h n j" by blast
    then have jd: "str_prefix n (drop j h)" "j \<le> length h" by (auto simp: word_at_def)
    obtain p where p: "strstr h n = Some p" using strstr_None [of h n j] jd by (cases "strstr h n") auto
    have "p \<le> j" using strstr_Some [OF p] jd by (meson not_le)
    then show "\<exists>p j. strstr h n = Some p \<and> p \<le> j \<and> word_at h n j" using p j by blast
  qed blast
  finally show ?thesis by (simp add: word_at_split [OF assms])
qed

subsection \<open>Decimal numbers in a request\<close>

lemma tolower_digit: "isdigit c \<Longrightarrow> tolower c = c"
  by (simp add: isdigit_def tolower_def)

lemma takeWhile_digits:
  assumes "\<forall>c \<in> set w. P c" "r = [] \<or> \<not> P (hd r)"
  shows "takeWhile P (w @ r) = w" "dropWhile P (w @ r) = r"
  using assms by (induction w) (cases r; auto)+

definition number_end :: "char \<Rightarrow> string \<Rightarrow> bool" where
  "number_end dp r \<longleftrightarrow> r = [] \<or>
     \<not> isdigit (hd r) \<and> hd r \<noteq> dp \<and> tolower (hd r) \<noteq> CHR ''e'' \<and> tolower (hd r) \<noteq> CHR ''x''"

lemma no_hex_prefix:
  assumes "number_end dp r"
  shows "\<not> str_prefix ''0x'' (map tolower (take 2 (show_nat n @ r)))"
proof -
  obtain c ds where d: "show_nat n = c # ds" using show_nat_nonempty by (cases "show_nat n") auto
  have x: "\<not> isdigit (CHR ''x'')" by (simp add: isdigit_def char_code_def)
  show ?thesis
  proof (cases ds)
    case Nil
    then show ?thesis using d assms by (cases r) (auto simp: str_prefix_def number_end_def numeral_2_eq_2)
  next
    case (Cons c2 ds')
    then have "isdigit c2" using show_nat_digits [of n] d by simp
    then have "tolower c2 \<noteq> CHR ''x''" using tolower_digit x by metis
    then show ?thesis using d Cons by (simp add: str_prefix_def numeral_2_eq_2)
  qed
qed

lemma parse_number_show:
  assumes "number_end dp r"
  shows "parse_number dp (show_nat n @ r) = Some (of_nat n, r)"
proof -
  have r: "r = [] \<or> \<not> isdigit (hd r)" using assms by (auto simp: number_end_def)
  note tw = takeWhile_digits [OF show_nat_digits r, of n]
  have "parse_mantissa dp isdigit (show_nat n @ r) = Some (show_nat n, [], r)"
    unfolding parse_mantissa_def tw Let_def
    using assms by (cases r) (simp_all add: show_nat_nonempty number_end_def)
  moreover have "parse_exponent (CHR ''e'') r = (0, r)"
    using assms by (cases r) (simp_all add: parse_exponent_def number_end_def)
  ultimately show ?thesis using no_hex_prefix [OF assms]
    by (simp add: parse_number_def parse_decimal_def digits_val_show_nat)
qed

definition sign_value :: "char \<Rightarrow> nat \<Rightarrow> int" where
  "sign_value c n = (if c = CHR ''-'' then - int n else int n)"

lemma double_int: "\<bar>k\<bar> < 9007199254740992 \<Longrightarrow> fl_round c_double (of_int k) = Fin (of_int k)"
  by (rule dbl.fl_round_int) (simp add: c_double_def)

lemma strtod_signed:
  assumes c: "c = CHR ''+'' \<or> c = CHR ''-''" and r: "number_end dp r" and n: "n < 9007199254740992"
  shows "strtod dp (c # show_nat n @ r) = (Fin (of_int (sign_value c n)), r, False)"
proof -
  have sp: "dropWhile isspace (c # show_nat n @ r) = c # show_nat n @ r" using c by (auto simp: isspace_def)
  have f: "fl_round c_double (of_int (sign_value c n)) = Fin (of_int (sign_value c n))"
    using n by (intro double_int) (simp add: sign_value_def)
  have v: "(if c = CHR ''-'' then - of_nat n else of_nat n) = rat_of_int (sign_value c n)" by (simp add: sign_value_def)
  have e: "\<not> strtod_erange (of_int (sign_value c n))" by (simp add: strtod_erange_def f)
  have ss: "split_sign (c # show_nat n @ r) = (c = CHR ''-'', show_nat n @ r)" using c by auto
  show ?thesis using v f e unfolding strtod_def sp ss by (simp add: parse_number_show [OF r])
qed

lemma double_to_timespec_int:
  assumes "\<bar>k\<bar> < 9007199254740992"
  shows "double_to_timespec (Fin (of_int k)) = Some \<lparr>tv_sec = k, tv_nsec = 0\<rparr>"
proof -
  have z: "fl_round F 0 = Fin 0" for F by (simp add: fl_round_def)
  have "\<not> (k \<ge> 0 \<and> k \<ge> S64_MAX \<or> k < 0 \<and> k \<le> S64_MIN)" using assms by linarith
  then show ?thesis
    by (simp only: double_to_timespec_def cfloat.case Let_def floor_of_int if_False)
      (simp add: z fl_of_int_ld SEC_TO_nSEC_def trunc_rat_def)
qed

text \<open>The units of an offset, as they are written.\<close>

definition unit_seconds :: "string \<Rightarrow> int" where
  "unit_seconds u = (if u = ''m'' then 60 else if u = ''h'' then 3600 else if u = ''d'' then 86400
     else if u = ''y'' then 31536000 else 1)"

lemma units_cases:
  assumes "u \<in> {[], ''m'', ''h'', ''d'', ''y''}" "\<not> isdigit dp" "dp \<notin> set u"
  shows "number_end dp u" and "CHR ''x'' \<notin> set u" and "CHR ''i'' \<notin> set u"
    and "split_unit u = (if u = [] then None else Some (Fin (of_int (unit_seconds u))), [])"
  using assms by (auto simp: number_end_def isdigit_def tolower_def char_code_def split_unit_def unit_factor_def unit_seconds_def)

lemma strchr_None: "c \<notin> set s \<Longrightarrow> strchr s c = None"
  by (simp add: strchr_def dropWhile_eq_Nil_conv [THEN iffD2] split: list.splits)
    (metis (mono_tags, lifting) dropWhile_eq_Nil_conv list.distinct(1))

lemma scale_int:
  assumes "\<bar>a * b\<bar> < 9007199254740992"
  shows "scale_finite_double (Fin (of_int a)) (Fin (of_int b)) = Some (Fin (of_int (a * b)))"
  using double_int [OF assms] by (simp add: scale_finite_double_def isfinite_def)

lemma parse_modifiers_none: "CHR ''x'' \<notin> set uft \<Longrightarrow> CHR ''i'' \<notin> set uft \<Longrightarrow> parse_modifiers uft s = Inr s"
  by (simp add: parse_modifiers_def strchr_None)

lemma parse_offset_int:
  assumes c: "c = CHR ''+'' \<or> c = CHR ''-''" and u: "u \<in> {[], ''m'', ''h'', ''d'', ''y''}"
    and dp: "\<not> isdigit (decimal_point s)" "decimal_point s \<notin> set u"
    and n: "int n * unit_seconds u < 9007199254740992"
  defines "off \<equiv> \<lparr>tv_sec = sign_value c n * unit_seconds u, tv_nsec = 0\<rparr>"
  shows "parse_offset (c # show_nat n @ u) s =
    Inr (s\<lparr>ft_mode := (if ft_mode s \<noteq> FT_NOOP then FT_START_AT else FT_NOOP), user_offset := off,
           user_faked_time_timespec := timespecadd (st_real (ftpl_starttime s)) off\<rparr>)"
proof -
  note un = units_cases [OF u dp]
  have us: "1 \<le> unit_seconds u" by (simp add: unit_seconds_def)
  have "int n * 1 \<le> int n * unit_seconds u" using us by (intro mult_left_mono) simp_all
  then have n': "n < 9007199254740992" using n by simp
  have k: "\<bar>sign_value c n * unit_seconds u\<bar> < 9007199254740992" using n us by (simp add: sign_value_def abs_mult)
  let ?s = "if ft_mode s \<noteq> FT_NOOP then s\<lparr>ft_mode := FT_START_AT\<rparr> else s"
  have s: "decimal_point ?s = decimal_point s" "ftpl_starttime ?s = ftpl_starttime s" by simp_all
  have pp: "parse_finite_double_prefix (decimal_point s) (c # show_nat n @ u) = (True, Fin (of_int (sign_value c n)), u)"
    by (simp add: parse_finite_double_prefix_def strtod_signed [OF c un(1) n'] isfinite_def)
  have sc: "(case (if u = [] then None else Some (Fin (of_int (unit_seconds u)))) of None \<Rightarrow> Some (Fin (of_int (sign_value c n)))
      | Some f \<Rightarrow> scale_finite_double (Fin (of_int (sign_value c n))) f) = Some (Fin (of_int (sign_value c n * unit_seconds u)))"
    using scale_int [OF k] by (simp add: unit_seconds_def)
  have "CHR ''x'' \<notin> set (show_nat n)" "CHR ''i'' \<notin> set (show_nat n)"
    using show_nat_digits [of n] by (auto simp: isdigit_def char_code_def)
  then have m: "parse_modifiers (c # show_nat n @ u) t = Inr t" for t
    using c un by (intro parse_modifiers_none) auto
  show ?thesis
    unfolding parse_offset_def Let_def s pp prod.case un(4) sc option.case double_to_timespec_int [OF k] m off_def
    by (simp add: sc)
qed

lemma parse_ft_string_saved:
  "parse_ft_string uft s = Inr s' \<Longrightarrow> user_faked_time_saved s' = take 255 uft \<or> (s' = s \<and> take 256 uft = take 256 (user_faked_time_saved s))"
  by (auto simp: parse_ft_string_def exit_bind_eq_Inr BUFFERLEN_def split: if_splits)

text \<open>
  The numbers a request has set are usable ones (also while \<^verbatim>\<open>stat\<close> has switched the increment off), and while a file is replayed its records are
  mapped, at least one and all of them valid, as many as \<open>infile_size\<close> says.
\<close>

definition replay_ok :: "ft_state \<Rightarrow> bool" where
  "replay_ok s \<longleftrightarrow> (infile_set s \<longrightarrow>
     stss s \<noteq> [] \<and> infile_size s = 16 * int (length (stss s)) \<and> list_all saved_timestamp_valid (stss s))"

definition config_ok :: "ft_state \<Rightarrow> bool" where
  "config_ok s \<longleftrightarrow> replay_ok s \<and>
    (if user_rate_set s then (\<exists>r > 0. user_rate s = Fin r) else user_rate s = Fin 1) \<and>
    (user_per_tick_inc_set s \<or> user_per_tick_inc_set_backup s \<longrightarrow> ts_normal (user_per_tick_inc s))"

lemma config_ok_cong:
  "user_rate s' = user_rate s \<Longrightarrow> user_rate_set s' = user_rate_set s \<Longrightarrow> user_per_tick_inc s' = user_per_tick_inc s \<Longrightarrow>
   user_per_tick_inc_set s' = user_per_tick_inc_set s \<Longrightarrow> user_per_tick_inc_set_backup s' = user_per_tick_inc_set_backup s \<Longrightarrow> infile_set s' = infile_set s \<Longrightarrow> stss s' = stss s \<Longrightarrow>
   infile_size s' = infile_size s \<Longrightarrow> config_ok s \<Longrightarrow> config_ok s'"
  by (simp add: config_ok_def replay_ok_def)

lemma double_to_timespec_normal: "double_to_timespec v = Some t \<Longrightarrow> ts_normal t"
proof -
  assume t: "double_to_timespec v = Some t"
  then obtain x where x: "v = Fin x" by (cases v) (auto simp: double_to_timespec_def)
  have "\<not> (\<lfloor>x\<rfloor> \<ge> 0 \<and> \<lfloor>x\<rfloor> \<ge> S64_MAX \<or> \<lfloor>x\<rfloor> < 0 \<and> \<lfloor>x\<rfloor> \<le> S64_MIN)"
  proof
    assume "\<lfloor>x\<rfloor> \<ge> 0 \<and> \<lfloor>x\<rfloor> \<ge> S64_MAX \<or> \<lfloor>x\<rfloor> < 0 \<and> \<lfloor>x\<rfloor> \<le> S64_MIN"
    then have "double_to_timespec v = None"
      unfolding double_to_timespec_def x cfloat.case Let_def by (rule if_P)
    with t show False by simp
  qed
  then have b: "S64_MIN < \<lfloor>x\<rfloor>" "\<lfloor>x\<rfloor> < S64_MAX" by linarith+
  obtain n where "0 \<le> n" "n \<le> 1000000000" and d: "double_to_timespec (Fin x) =
      Some (if n \<ge> SEC_TO_nSEC then \<lparr>tv_sec = \<lfloor>x\<rfloor> + 1, tv_nsec = 0\<rparr> else \<lparr>tv_sec = \<lfloor>x\<rfloor>, tv_nsec = n\<rparr>)"
    using b by (rule double_to_timespec_cases)
  moreover have "in_s64 (\<lfloor>x\<rfloor> + 1)" "in_s64 \<lfloor>x\<rfloor>" using b unfolding in_s64_def by linarith+
  ultimately show ?thesis using t x by (auto simp: normal_def SEC_TO_nSEC_def split: if_splits)
qed

lemma parse_modifiers_ok: "config_ok s \<Longrightarrow> returns (parse_modifiers uft s) config_ok"
proof -
  assume ok: "config_ok s"
  show ?thesis
  proof (cases "strchr uft (CHR ''x'')")
    case (Some r)
    obtain b v where p: "parse_finite_double (decimal_point s) (tl r) = (b, v)" by fastforce
    have fin: "b \<Longrightarrow> isfinite v"
      using p by (auto simp: parse_finite_double_def parse_finite_double_prefix_def split: prod.splits)
    have "\<exists>q > 0. v = Fin q" if "b" "\<not> fl_le v (Fin 0)"
      using fin [OF that(1)] that(2) by (cases v) (auto simp: isfinite_def)
    then show ?thesis using ok by (auto simp: parse_modifiers_def Some p config_ok_def replay_ok_def parse_rate_reset_def)
  next
    case None
    then show ?thesis using ok double_to_timespec_normal
      by (auto simp: parse_modifiers_def config_ok_def replay_ok_def split: option.splits prod.splits)
  qed
qed

lemma maybe_reset_time_frame: "returns (maybe_reset_time s) (shared_frame s)"
  using reset_time_frame by (simp add: maybe_reset_time_def)

lemma shared_frame_config_ok: "shared_frame s s' \<Longrightarrow> config_ok s \<Longrightarrow> config_ok s'"
  using erase_shared_fields [of s' s] config_ok_cong [of s' s] by (simp only: shared_frame_def)

lemma parse_ft_string_config_ok:
  assumes ok: "config_ok s"
  shows "returns (parse_ft_string uft s) config_ok"
proof -
  have mode: "config_ok (s\<lparr>ft_mode := m\<rparr>)" "config_ok (if b then s\<lparr>ft_mode := m\<rparr> else s)" for m b
    using ok by (simp_all add: config_ok_def replay_ok_def)
  have upd: "config_ok (t\<lparr>user_faked_time_timespec := x\<rparr>)" "config_ok (t\<lparr>user_faked_time_timespec := x, user_faked_time_set := y\<rparr>)"
    "config_ok (t\<lparr>user_offset := o', user_faked_time_timespec := x\<rparr>)"
    "config_ok (t\<lparr>user_faked_time_timespec := x, ft_mode := m, user_faked_time_set := y\<rparr>)"
    "config_ok (t\<lparr>user_faked_time_saved := z\<rparr>)" if "config_ok t" for t x y z m o'
    using that by (simp_all add: config_ok_def replay_ok_def)
  have df: "returns (parse_default uft s) config_ok"
    unfolding parse_default_def Let_def
    by (rule returns_bind [where P = "\<lambda>_. True"], simp add: returns_def split: sum.split)
      (simp split: option.split add: parse_modifiers_ok upd mode ok)
  have st: "returns (parse_start_at uft s) config_ok"
    unfolding parse_start_at_def Let_def
  proof (rule returns_bind [where P = "\<lambda>_. True"])
    fix r :: "timespec option"
    have "returns (exit_bind (maybe_reset_time t) (parse_modifiers uft)) config_ok" if "config_ok t" for t
      using maybe_reset_time_frame by (rule returns_bind) (use that shared_frame_config_ok parse_modifiers_ok in blast)
    then show "returns (case r of None \<Rightarrow> Inl (Exit EXIT_FAILURE ''libfaketime: In parse_ft_string(), failed to parse FAKETIME timestamp.'')
        | Some t \<Rightarrow> exit_bind (maybe_reset_time (s\<lparr>ft_mode := FT_START_AT, user_faked_time_timespec := t\<rparr>)) (parse_modifiers uft)) config_ok"
      using upd mode by (simp split: option.split)
  qed (simp add: returns_def split: sum.split)
  have fo: "returns (parse_follow uft s) config_ok"
  proof -
    have "returns (exit_bind (maybe_reset_time t) (\<lambda>s. if \<not> user_faked_time_set s then parse_modifiers uft s else Inr s)) config_ok"
      if "config_ok t" for t
      using maybe_reset_time_frame by (rule returns_bind) (use that shared_frame_config_ok parse_modifiers_ok in auto)
    then show ?thesis using upd mode ok by (simp add: parse_follow_def Let_def split: option.split)
  qed
  have off: "returns (parse_offset uft s) config_ok"
    unfolding parse_offset_def Let_def
    by (auto split: prod.split option.split intro!: parse_modifiers_ok upd mode ok)
  show ?thesis
    unfolding parse_ft_string_def
    using ok df st fo off parse_modifiers_ok [OF ok] by (auto intro!: returns_bind [where P = config_ok] upd)
qed

section \<open>Properties\<close>

text \<open>
  Claim C16. An offset of a whole number of seconds, minutes, hours, days or years (of 365 days)
  is parsed to exactly that many seconds, negative ones too, and the faked base time becomes the
  start time plus the offset; faking then starts from there unless the command is one to skip.
\<close>

theorem parse_ft_string_offset:
  assumes "c = CHR ''+'' \<or> c = CHR ''-''" "u \<in> {[], ''m'', ''h'', ''d'', ''y''}"
    and "\<not> isdigit (decimal_point s)" "decimal_point s \<notin> set u"
    and "int n * unit_seconds u < 9007199254740992"
    and "take 256 (c # show_nat n @ u) \<noteq> take 256 (user_faked_time_saved s)"
  shows "\<exists>s'. parse_ft_string (c # show_nat n @ u) s = Inr s' \<and>
    user_offset s' = \<lparr>tv_sec = sign_value c n * unit_seconds u, tv_nsec = 0\<rparr> \<and>
    user_faked_time_timespec s' = timespecadd (st_real (ftpl_starttime s)) (user_offset s') \<and>
    ft_mode s' = (if ft_mode s = FT_NOOP then FT_NOOP else FT_START_AT)"
proof -
  have "(hd (c # show_nat n @ u) = CHR ''+'' \<or> hd (c # show_nat n @ u) = CHR ''-'')" using assms(1) by simp
  then show ?thesis using assms(6)
    by (simp only: parse_ft_string_def parse_offset_int [OF assms(1-5)] BUFFERLEN_def) simp
qed

theorem parse_ft_string_offset_witness:
  "\<exists>s'. parse_ft_string (CHR ''-'' # show_nat 3 @ ''d'')
      ((static_state sample_os)\<lparr>ftpl_starttime := unset_system_time\<lparr>st_real := \<lparr>tv_sec = 1000000, tv_nsec = 5\<rparr>\<rparr>\<rparr>) = Inr s' \<and>
    user_faked_time_timespec s' = \<lparr>tv_sec = 740800, tv_nsec = 5\<rparr>"
  using parse_ft_string_offset [of "CHR ''-''" "''d''"
      "(static_state sample_os)\<lparr>ftpl_starttime := unset_system_time\<lparr>st_real := \<lparr>tv_sec = 1000000, tv_nsec = 5\<rparr>\<rparr>\<rparr>" 3]
  by (auto simp: static_defs isdigit_def char_code_def unit_seconds_def sign_value_def timespecadd_def timeradd2_def
      SEC_TO_nSEC_def wrap_s64_def pair_ts_def)

text \<open>
 Parsing the same request again changes nothing: a cache refresh that finds an
  unchanged request (other than one that follows a file) does not move the faked time.
\<close>

lemma parse_ft_string_idempotent:
  assumes "parse_ft_string uft s = Inr s'" "length uft \<le> 255" "uft = [] \<or> hd uft \<noteq> CHR ''%''"
  shows "parse_ft_string uft s' = Inr s'"
  using parse_ft_string_saved [OF assms(1)] assms(2,3) by (auto simp: parse_ft_string_def BUFFERLEN_def)

lemma parse_ft_string_idempotent_witness:
  "\<exists>s'. parse_ft_string (CHR ''+'' # show_nat 5 @ []) (static_state sample_os) = Inr s' \<and>
     parse_ft_string (CHR ''+'' # show_nat 5 @ []) s' = Inr s'"
proof -
  have "\<exists>t. parse_offset (CHR ''+'' # show_nat 5 @ []) (static_state sample_os) = Inr t"
    by (subst parse_offset_int) (simp_all add: static_defs isdigit_def char_code_def unit_seconds_def)
  then obtain s' where s': "parse_ft_string (CHR ''+'' # show_nat 5 @ []) (static_state sample_os) = Inr s'"
    by (auto simp: parse_ft_string_def BUFFERLEN_def) (simp add: static_defs)
  moreover have "length (CHR ''+'' # show_nat 5 @ []) \<le> 255" by (simp add: show_nat.simps)
  ultimately show ?thesis using parse_ft_string_idempotent [OF s'] by auto
qed

text \<open>
  Whatever request is parsed, a clock rate that is set is a finite positive number and
  a tick increment that is set is a normalised time; a request that would break this ends the
  process instead.
\<close>

lemma parse_ft_string_keeps_config:
  assumes "config_ok s"
  shows "(\<exists>e. parse_ft_string uft s = Inl e) \<or> (\<exists>s'. parse_ft_string uft s = Inr s' \<and> config_ok s')"
  using parse_ft_string_config_ok [OF assms, of uft] by (cases "parse_ft_string uft s") auto

lemma parse_ft_string_keeps_config_witness:
  "config_ok (static_state sample_os) \<and>
    ((\<exists>e. parse_ft_string ''x0'' (static_state sample_os) = Inl e) \<or>
     (\<exists>s'. parse_ft_string ''x0'' (static_state sample_os) = Inr s' \<and> config_ok s'))"
proof -
  have "config_ok (static_state sample_os)" by (simp add: config_ok_def replay_ok_def static_defs)
  with parse_ft_string_keeps_config show ?thesis by blast
qed

text \<open>
  Claim C17. \<^verbatim>\<open>prepare_config_contents\<close> on a file of any number of lines, each ended by one or more carriage returns and line feeds in
  any order and the last one by the end of the file: a line that begins with blanks and tabulators and then \<^verbatim>\<open>#\<close> or \<^verbatim>\<open>;\<close> is dropped; one
  that has another character there, or nothing at all, is kept with its blanks; and the line ends are dropped.
\<close>

theorem prepare_config_contents_lines:
  assumes "\<forall>(blanks, l, ends) \<in> set ls. set blanks \<subseteq> {CHR '' '', CHR 0x09} \<and> CHR 0x0A \<notin> set l \<and> CHR 0x0D \<notin> set l \<and>
      (l = [] \<or> hd l \<noteq> CHR '' '' \<and> hd l \<noteq> CHR 0x09) \<and> set ends \<subseteq> {CHR 0x0A, CHR 0x0D}"
    and "\<forall>(blanks, l, ends) \<in> set (butlast ls). ends \<noteq> []"
  shows "prepare_config_contents (concat (map (\<lambda>(blanks, l, ends). blanks @ l @ ends) ls)) =
    concat (map (\<lambda>(blanks, l, ends). if l \<noteq> [] \<and> (hd l = CHR ''#'' \<or> hd l = CHR '';'') then [] else blanks @ l) ls)"
  using assms by (rule prepare_written_lines)

theorem prepare_config_contents_lines_witness:
  "prepare_config_contents (''# a comment'' @ [CHR 0x0D, CHR 0x0A] @ '' +5d'' @ [CHR 0x0A, CHR 0x0A, CHR 0x09] @ ''; another'') = '' +5d''"
  using prepare_config_contents_lines [of "[([], ''# a comment'', [CHR 0x0D, CHR 0x0A]), ('' '', ''+5d'', [CHR 0x0A, CHR 0x0A]), ([CHR 0x09], ''; another'', [])]"]
  by simp

text \<open>
 \<^verbatim>\<open>str_array_contains\<close> finds exactly the words of the comma separated list, not their
  prefixes, suffixes or parts.
\<close>

lemma str_array_contains_words:
  assumes "CHR '','' \<notin> set needle"
  shows "str_array_contains haystack needle \<longleftrightarrow> needle \<in> set (split_at (\<lambda>c. c = CHR '','') haystack)"
  using assms by (rule str_array_contains_iff)

lemma str_array_contains_words_witness:
  "\<not> str_array_contains ''stat64,lstat'' ''stat'' \<and> str_array_contains ''stat64,lstat'' ''lstat''"
  using str_array_contains_words [of "''stat''" "''stat64,lstat''"] str_array_contains_words [of "''lstat''" "''stat64,lstat''"]
  by simp

text \<open>
  A configuration file is accepted only when it is shorter than 255 bytes: one of exactly
  255 bytes, which would fit the buffer, is reported as too long, because the probe for one more
  byte is never reached.
\<close>

lemma read_config_file_length:
  assumes "open_config s = Some content" "read_script s = []" "\<not> close_fails s" "CHR 0x00 \<notin> set content"
  shows "read_config_file s =
    (if length content < 255 then exit_bind (parse_ft_string (prepare_config_contents content) s) (\<lambda>s. Inr (1, s))
     else Inr (- 1, s))"
proof (cases "length content < 255")
  case True
  have r: "os_read n t s = (int (min n (length t)), s)" for n t using assms(2) by (simp add: os_read_def)
  have "read_config_loop [] content 0 s = (content, [], 0, s)"
    using True by (cases "content = []"; subst read_config_loop.simps; simp add: r BUFFERLEN_def; subst read_config_loop.simps; simp add: r BUFFERLEN_def)
  then show ?thesis using True assms by (simp add: read_config_file_def BUFFERLEN_def)
next
  case False
  have r: "os_read n t s = (int (min n (length t)), s)" for n t using assms(2) by (simp add: os_read_def)
  have "read_config_loop [] content 0 s = (take 255 content, drop 255 content, 255, s)"
    using False by (subst read_config_loop.simps) (simp add: r BUFFERLEN_def, subst read_config_loop.simps, simp add: BUFFERLEN_def)
  then show ?thesis using False assms by (simp add: read_config_file_def BUFFERLEN_def)
qed

lemma read_config_file_length_witness:
  "read_config_file ((static_state sample_os)\<lparr>config_files := [''/etc/faketimerc'' \<mapsto> replicate 255 (CHR '' '')]\<rparr>)
    = Inr (- 1, (static_state sample_os)\<lparr>config_files := [''/etc/faketimerc'' \<mapsto> replicate 255 (CHR '' '')]\<rparr>)"
  by (subst read_config_file_length [where content = "replicate 255 (CHR '' '')"])
    (simp_all add: open_config_def static_defs getenv_def)

end
