(* ===== verification/Fake_Clock.thy ===== *)
theory Fake_Clock
  imports Parse_Config
begin

text \<open>
  The heart of the library: \<^verbatim>\<open>fake_clock_gettime\<close> and \<^verbatim>\<open>fake_gettimeofday\<close> of
  \<^verbatim>\<open>src/src/libfaketime.c\<close>, with the start/stop limits, the spawning of an external command, the
  cache of the configuration, the replay of saved times, the three modes and the
  bookkeeping at the end. The phases of \<^verbatim>\<open>fake_clock_gettime\<close> are definitions of their own,
  composed in the order of the source. No caller passes a NULL pointer, so its
  check at the head of the function is not a branch here; the mutex that the build with
  \<^verbatim>\<open>PTHREAD_SINGLETHREADED_TIME\<close> puts around these phases is the subject of the theory \<open>Time_Mutex\<close>.
\<close>

section \<open>Spawning an external command\<close>

definition parse_spawn_limits :: "ft_state \<Rightarrow> ft_state exitable" where
  "parse_spawn_limits s =
    exit_bind (case getenv ''FAKETIME_SPAWN_SECONDS'' s of
                 Some v \<Rightarrow> exit_bind (parse_long_setting ''FAKETIME_SPAWN_SECONDS'' v) (\<lambda>n. Inr (s\<lparr>ft_spawn_secs := n\<rparr>))
               | None \<Rightarrow> Inr s)
      (\<lambda>s. case getenv ''FAKETIME_SPAWN_NUMCALLS'' s of
             Some v \<Rightarrow> exit_bind (parse_long_setting ''FAKETIME_SPAWN_NUMCALLS'' v) (\<lambda>n. Inr (s\<lparr>ft_spawn_ncalls := n\<rparr>))
           | None \<Rightarrow> Inr s)"

definition is_spawn_environment_entry :: "string \<Rightarrow> bool" where
  "is_spawn_environment_entry entry = str_prefix ''FAKETIME_SPAWN_'' entry"

definition FT_SPAWN_MAX_ENV :: nat where "FT_SPAWN_MAX_ENV = 4096"

text \<open>The entries the child inherits: \<open>None\<close> when there are too many.\<close>

fun spawn_environment :: "string list \<Rightarrow> string list \<Rightarrow> string list option" where
  "spawn_environment [] acc = Some acc"
| "spawn_environment (e # es) acc =
    (if is_spawn_environment_entry e then spawn_environment es acc
     else if length acc + 1 \<ge> FT_SPAWN_MAX_ENV then None
     else spawn_environment es (acc @ [e]))"

text \<open>\<^verbatim>\<open>waitpid\<close> until it is not interrupted; an entry of the script is its error number, 0 for success.\<close>

function wait_child :: "ft_state \<Rightarrow> ft_state" where
  "wait_child s =
    (case spawn_script s of [] \<Rightarrow> s
     | e # es \<Rightarrow> let s = s\<lparr>spawn_script := es\<rparr>
                in if e = EINTR then wait_child (s\<lparr>errno := EINTR\<rparr>)
                   else if e = 0 then s else s\<lparr>errno := e\<rparr>)"
  by pat_completeness auto
termination
  by (relation "measure (\<lambda>s. length (spawn_script s))") auto

definition run_spawn_exec :: "ft_state \<Rightarrow> ft_state" where
  "run_spawn_exec s =
    (case spawn_environment (map (\<lambda>(n, v). n @ ''='' @ v) (environ s)) [] of
       None \<Rightarrow> s
     | Some env \<Rightarrow>
        let s = s\<lparr>spawn_log := spawn_log s @ [Posix_Spawn (ft_spawn_exec s) (ft_spawn_argv s) env]\<rparr>;
            (result, s) = (case spawn_script s of [] \<Rightarrow> (0, s) | r # rs \<Rightarrow> (r, s\<lparr>spawn_script := rs\<rparr>))
        in if result \<noteq> 0 then s else wait_child s)"

section \<open>Limits\<close>

definition count_call :: "ft_state \<Rightarrow> ft_state" where
  "count_call s =
    (if limited_faking s \<and> (ft_start_after_ncalls s \<noteq> - 1 \<or> ft_stop_after_ncalls s \<noteq> - 1)
        \<or> spawnsupport s \<and> ft_spawn_ncalls s \<noteq> 0
     then (if callcounter s < S64_MAX then s\<lparr>callcounter := callcounter s + 1\<rparr> else s)
     else s)"

text \<open>The start time of a clock, in the case distinction the source makes twice.\<close>

definition start_of_clock :: "int \<Rightarrow> system_time_s \<Rightarrow> timespec" where
  "start_of_clock clk st =
    (if clk = CLOCK_REALTIME \<or> clk = CLOCK_REALTIME_COARSE then st_real st
     else if clk = CLOCK_MONOTONIC \<or> clk = CLOCK_MONOTONIC_COARSE then st_mon st
     else if clk = CLOCK_MONOTONIC_RAW then st_mon_raw st
     else if clk = CLOCK_BOOTTIME then st_boot st
     else st_real st)"

definition outside_limits :: "timespec \<Rightarrow> ft_state \<Rightarrow> bool" where
  "outside_limits elapsed s \<longleftrightarrow>
     ft_start_after_secs s \<noteq> - 1 \<and> tv_sec elapsed < ft_start_after_secs s \<or>
     ft_stop_after_secs s \<noteq> - 1 \<and> tv_sec elapsed \<ge> ft_stop_after_secs s \<or>
     ft_start_after_ncalls s \<noteq> - 1 \<and> callcounter s < ft_start_after_ncalls s \<or>
     ft_stop_after_ncalls s \<noteq> - 1 \<and> callcounter s \<ge> ft_stop_after_ncalls s"

definition spawn_once :: "timespec \<Rightarrow> ft_state \<Rightarrow> ft_state" where
  "spawn_once elapsed s =
    (if spawned s = 0 then
       (if ((ft_spawn_secs s > - 1 \<and> tv_sec elapsed \<ge> ft_spawn_secs s) \<or> callcounter s = ft_spawn_ncalls s) \<and> spawned s = 0
        then (let s = s\<lparr>spawned := 1\<rparr>
              in if spawn_exec_support s then run_spawn_exec s
                 else s\<lparr>spawn_log := spawn_log s @ [System_Call (ft_spawn_target s)]\<rparr>)
        else s)
     else s)"

text \<open>The limits and the spawning: whether the real time is to be returned, and the state.\<close>

definition limits_phase :: "int \<Rightarrow> timespec \<Rightarrow> ft_state \<Rightarrow> bool \<times> ft_state" where
  "limits_phase clk tp s =
    (if limited_faking s \<or> spawnsupport s then
       (let tmp_ts = timespecsub tp (start_of_clock clk (ftpl_starttime s))
        in if limited_faking s \<and> outside_limits tmp_ts s then (True, s)
           else (False, if spawnsupport s then spawn_once tmp_ts s else s))
     else (False, s))"

section \<open>The cache of the configuration\<close>

definition expire_cache :: "timespec \<Rightarrow> ft_state \<Rightarrow> ft_state" where
  "expire_cache current s =
    (let s = (if last_data_fetch s > 0
              then s\<lparr>cache_expired := (if tv_sec current - last_data_fetch s > cache_duration s then 1 else 0)\<rparr> else s);
         s = (if cache_enabled s = 0 then s\<lparr>cache_expired := 1\<rparr> else s)
     in if force_cache_expiration s \<noteq> 0 then s\<lparr>cache_expired := 1, force_cache_expiration := 0\<rparr> else s)"

definition refresh_config :: "timespec \<Rightarrow> ft_state \<Rightarrow> ft_state exitable" where
  "refresh_config current s =
    (if cache_expired s = 1 then
       (let user_faked_time = (case getenv ''FAKETIME'' s of Some v \<Rightarrow> take (BUFFERLEN - 1) v | None \<Rightarrow> ''+0'');
            s = s\<lparr>last_data_fetch := tv_sec current\<rparr>
        in exit_bind
             (if parse_config_file s
              then exit_bind (read_config_file s) (\<lambda>(r, s). if r = 0 then parse_ft_string user_faked_time s else Inr s)
              else parse_ft_string user_faked_time s)
             (\<lambda>s. Inr (s\<lparr>fake_monotonic_clock := get_fake_monotonic_setting (fake_monotonic_clock s) s\<rparr>)))
     else Inr s)"

section \<open>The modes\<close>

definition advance_time :: "int \<Rightarrow> timespec \<Rightarrow> ft_state \<Rightarrow> (timespec \<times> ft_state) exitable" where
  "advance_time clk tp s =
    (if user_per_tick_inc_set s then next_time tp (user_per_tick_inc s) s
     else let tdiff = timespecsub tp (start_of_clock clk (ftpl_starttime s));
              timeadj = (if user_rate_set s then timespecmul tdiff (user_rate s) else tdiff)
          in Inr (timespecadd (user_faked_time_timespec s) timeadj, s))"

text \<open>The most recent real and faked time of the four clocks that are cached.\<close>

definition cache_time :: "int \<Rightarrow> timespec \<Rightarrow> system_time_s \<Rightarrow> system_time_s" where
  "cache_time clk t c =
    (if clk = CLOCK_REALTIME then c\<lparr>st_real := t\<rparr>
     else if clk = CLOCK_MONOTONIC then c\<lparr>st_mon := t\<rparr>
     else if clk = CLOCK_MONOTONIC_RAW then c\<lparr>st_mon_raw := t\<rparr>
     else if clk = CLOCK_BOOTTIME then c\<lparr>st_boot := t\<rparr>
     else c)"

definition finish_time :: "int \<Rightarrow> timespec \<Rightarrow> timespec \<Rightarrow> ft_state \<Rightarrow> ((int \<times> timespec) \<times> ft_state) exitable" where
  "finish_time clk tp_save tp s =
    (let tp = normalize_timespec_value tp
     in exit_bind (save_time tp s) (\<lambda>s.
          Inr ((0, tp), s\<lparr>ftpl_timecache := cache_time clk tp_save (ftpl_timecache s),
                         ftpl_faketimecache := cache_time clk tp (ftpl_faketimecache s)\<rparr>)))"

definition mode_phase :: "int \<Rightarrow> timespec \<Rightarrow> timespec \<Rightarrow> ft_state \<Rightarrow> ((int \<times> timespec) \<times> ft_state) exitable" where
  "mode_phase clk tp_save tp s =
    (case ft_mode s of
       FT_FREEZE \<Rightarrow> finish_time clk tp_save (if user_faked_time_set s then user_faked_time_timespec s else tp) s
     | FT_START_AT \<Rightarrow> exit_bind (advance_time clk tp s) (\<lambda>(tp, s). finish_time clk tp_save tp s)
     | FT_NOOP \<Rightarrow> Inr ((- 1, tp), s))"

section \<open>The faked clocks\<close>

definition fake_clock_gettime :: "int \<Rightarrow> timespec \<Rightarrow> ft_state \<Rightarrow> ((int \<times> timespec) \<times> ft_state) exitable" where
  "fake_clock_gettime clk tp s =
    (if dont_fake s then Inr ((0, tp), s)
     else if clk = CLOCK_PROCESS_CPUTIME_ID \<or> clk = CLOCK_THREAD_CPUTIME_ID
     then Inr ((0, if user_rate_set s then timespecmul tp (user_rate s) else tp), s)
     else case limits_phase clk tp (count_call s) of (abort, s) \<Rightarrow>
       if abort then Inr ((0, tp), s)
       else (case real_clock_gettime CLOCK_REALTIME \<lparr>tv_sec = 0, tv_nsec = 0\<rparr> s of ((_, current), s) \<Rightarrow>
         exit_bind (refresh_config current (expire_cache current s)) (\<lambda>s.
         exit_bind (if infile_set s then load_time tp s else Inr ((False, tp), s)) (\<lambda>((loaded, tp'), s).
           if loaded then Inr ((0, tp'), s) else mode_phase clk tp tp' s))))"

definition fake_gettimeofday :: "timeval \<Rightarrow> ft_state \<Rightarrow> ((int \<times> timeval) \<times> ft_state) exitable" where
  "fake_gettimeofday tv s =
    (let ts = \<lparr>tv_sec = tval_sec tv, tv_nsec = tv_usec tv * 1000 + tv_nsec (st_real (ftpl_starttime s)) smod 1000\<rparr>
     in exit_bind (fake_clock_gettime CLOCK_REALTIME ts s) (\<lambda>((ret, ts), s).
          Inr ((ret, \<lparr>tval_sec = tv_sec ts, tv_usec = tv_nsec ts sdiv 1000\<rparr>), s)))"

section \<open>Lemmas: a running clock\<close>

declare wait_child.simps [simp del]

text \<open>
  What a call of \<^verbatim>\<open>fake_clock_gettime\<close> changes in a state whose configuration does not change: the
  moment, the cache bookkeeping, the save file, the lock and \<^verbatim>\<open>errno\<close>.
\<close>

definition erase_clock :: "ft_state \<Rightarrow> ft_state" where
  "erase_clock s = s\<lparr>clk_count := 0, errno := 0, cache_expired := 0, last_data_fetch := 0, force_cache_expiration := 0,
     fake_monotonic_clock := 0, out_bytes := [], write_script := [], lock_script := [], unlock_script := [], sem_held := False,
     ftpl_timecache := unset_system_time, ftpl_faketimecache := unset_system_time\<rparr>"

text \<open>The monotonic clock is faked, now and after another look at the environment.\<close>

definition mono_faked :: "ft_state \<Rightarrow> bool" where
  "mono_faked s \<longleftrightarrow> fake_monotonic_clock s \<noteq> 0 \<and> get_fake_monotonic_setting 1 s \<noteq> 0"

lemma mono_faked_upd [simp]:
  "mono_faked (s\<lparr>clk_count := n\<rparr>) = mono_faked s" "mono_faked (s\<lparr>errno := i\<rparr>) = mono_faked s" "mono_faked (s\<lparr>cache_expired := i\<rparr>) = mono_faked s"
  "mono_faked (s\<lparr>last_data_fetch := i\<rparr>) = mono_faked s" "mono_faked (s\<lparr>force_cache_expiration := i\<rparr>) = mono_faked s"
  "mono_faked (s\<lparr>out_bytes := bs\<rparr>) = mono_faked s" "mono_faked (s\<lparr>write_script := is\<rparr>) = mono_faked s"
  "mono_faked (s\<lparr>ftpl_timecache := st\<rparr>) = mono_faked s" "mono_faked (s\<lparr>ftpl_faketimecache := st\<rparr>) = mono_faked s"
  "mono_faked (locked s) = mono_faked s" "mono_faked (unlocked s) = mono_faked s"
  "mono_faked s \<Longrightarrow> mono_faked (s\<lparr>fake_monotonic_clock := get_fake_monotonic_setting (fake_monotonic_clock s) s\<rparr>)"
  by (auto simp: mono_faked_def get_fake_monotonic_setting_def getenv_def locked_def unlocked_def split: option.splits)

definition clock_frame :: "ft_state \<Rightarrow> ft_state \<Rightarrow> bool" where
  "clock_frame s s' \<longleftrightarrow> erase_clock s' = erase_clock s \<and> (lock_works s \<longrightarrow> lock_works s') \<and> (sem_held s' \<longrightarrow> sem_held s) \<and>
     (mono_faked s \<longrightarrow> mono_faked s')"

lemma clock_frame_refl [simp]: "clock_frame s s"
  by (simp add: clock_frame_def)

lemma clock_frame_trans: "clock_frame s t \<Longrightarrow> clock_frame t u \<Longrightarrow> clock_frame s u"
  by (auto simp: clock_frame_def)

lemma erase_clock_fields:
  assumes "erase_clock s' = erase_clock s"
  shows "environ s' = environ s" "clk_read s' = clk_read s" "dont_fake s' = dont_fake s"
    "user_rate s' = user_rate s" "user_rate_set s' = user_rate_set s" "user_per_tick_inc s' = user_per_tick_inc s"
    "user_per_tick_inc_set s' = user_per_tick_inc_set s" "user_faked_time_timespec s' = user_faked_time_timespec s"
    "user_faked_time_set s' = user_faked_time_set s" "user_faked_time_saved s' = user_faked_time_saved s"
    "ft_mode s' = ft_mode s" "user_offset s' = user_offset s" "ftpl_starttime s' = ftpl_starttime s" "shm s' = shm s"
    "shared_sem_initialized s' = shared_sem_initialized s" "limited_faking s' = limited_faking s"
    "spawnsupport s' = spawnsupport s" "infile_set s' = infile_set s" "parse_config_file s' = parse_config_file s"
    "outfile s' = outfile s" "cache_enabled s' = cache_enabled s" "cache_duration s' = cache_duration s"
  using assms by (cases s; cases s'; simp add: erase_clock_def)+

lemma clock_frame_fields:
  assumes "clock_frame s s'"
  shows "ft_mode s' = ft_mode s" "user_rate s' = user_rate s" "user_rate_set s' = user_rate_set s"
    "user_per_tick_inc_set s' = user_per_tick_inc_set s" "user_faked_time_timespec s' = user_faked_time_timespec s"
    "user_faked_time_set s' = user_faked_time_set s" "ftpl_starttime s' = ftpl_starttime s" "shm s' = shm s"
    "user_per_tick_inc s' = user_per_tick_inc s" "shared_sem_initialized s' = shared_sem_initialized s"
  using assms erase_clock_fields [of s' s] by (simp_all add: clock_frame_def)

text \<open>A state in which no limit, no replay and no new request interferes.\<close>

definition steady :: "ft_state \<Rightarrow> bool" where
  "steady s \<longleftrightarrow> \<not> dont_fake s \<and> \<not> limited_faking s \<and> \<not> spawnsupport s \<and> \<not> infile_set s \<and> \<not> parse_config_file s \<and>
     (\<exists>f. getenv ''FAKETIME'' s = Some f \<and> take 255 f = user_faked_time_saved s \<and> (f = [] \<or> hd f \<noteq> CHR ''%''))"

lemma steady_frame: "clock_frame s s' \<Longrightarrow> steady s \<Longrightarrow> steady s'"
  using erase_clock_fields [of s' s] by (simp add: clock_frame_def steady_def getenv_def)

lemma steady_parse:
  assumes "getenv ''FAKETIME'' s = Some f" "take 255 f = user_faked_time_saved t" "f = [] \<or> hd f \<noteq> CHR ''%''"
  shows "parse_ft_string (take 255 f) t = Inr t"
proof -
  have "take 256 (take 255 f) = take 255 f" by simp
  moreover have "take 256 (user_faked_time_saved t) = user_faked_time_saved t"
    unfolding assms(2) [symmetric] by simp
  moreover have "hd (take 255 f) = hd f" by (cases f) simp_all
  ultimately show ?thesis using assms(2,3) by (auto simp: parse_ft_string_def BUFFERLEN_def)
qed

lemma expire_cache_frame: "clock_frame s (expire_cache current s)"
  by (simp add: clock_frame_def expire_cache_def Let_def erase_clock_def lock_works_def)

text \<open>The same, with limits.\<close>

definition settled :: "ft_state \<Rightarrow> bool" where
  "settled s \<longleftrightarrow> \<not> dont_fake s \<and> \<not> spawnsupport s \<and> \<not> infile_set s \<and> \<not> parse_config_file s \<and>
     (\<exists>f. getenv ''FAKETIME'' s = Some f \<and> take 255 f = user_faked_time_saved s \<and> (f = [] \<or> hd f \<noteq> CHR ''%''))"

lemma steady_settled: "steady s \<longleftrightarrow> settled s \<and> \<not> limited_faking s"
  by (auto simp: steady_def settled_def)

lemma settled_frame: "clock_frame s s' \<Longrightarrow> settled s \<Longrightarrow> settled s'"
  using erase_clock_fields [of s' s] by (simp add: clock_frame_def settled_def getenv_def)

lemma refresh_settled: "settled s \<Longrightarrow> \<exists>s'. refresh_config current s = Inr s' \<and> clock_frame s s'"
proof -
  assume st: "settled s"
  then obtain f where f: "getenv ''FAKETIME'' s = Some f" "take 255 f = user_faked_time_saved s" "f = [] \<or> hd f \<noteq> CHR ''%''"
    and pc: "\<not> parse_config_file s" by (auto simp: settled_def)
  show ?thesis
  proof (cases "cache_expired s = 1")
    case True
    have "parse_ft_string (take 255 f) (s\<lparr>last_data_fetch := tv_sec current\<rparr>) = Inr (s\<lparr>last_data_fetch := tv_sec current\<rparr>)"
      using f by (intro steady_parse) simp_all
    then show ?thesis using True f(1) pc
      by (simp add: refresh_config_def BUFFERLEN_def)
        (use mono_faked_upd(12) [of "s\<lparr>last_data_fetch := tv_sec current\<rparr>"] in \<open>simp add: clock_frame_def erase_clock_def lock_works_def\<close>)
  next
    case False
    then show ?thesis by (simp add: refresh_config_def)
  qed
qed

text \<open>In a settled state and within the limits, only the mode decides.\<close>

lemma fake_clock_settled:
  assumes "settled s" "clk \<noteq> CLOCK_PROCESS_CPUTIME_ID" "clk \<noteq> CLOCK_THREAD_CPUTIME_ID" "limits_phase clk tp (count_call s) = (False, c)" "settled c"
  shows "\<exists>s1. clock_frame c s1 \<and> fake_clock_gettime clk tp s = mode_phase clk tp tp s1"
proof -
  obtain r t e where rt: "real_clock_gettime CLOCK_REALTIME \<lparr>tv_sec = 0, tv_nsec = 0\<rparr> c = ((r, t), c\<lparr>clk_count := Suc (clk_count c), errno := e\<rparr>)"
    by (rule real_clock_gettime_cases)
  let ?s1 = "expire_cache t (c\<lparr>clk_count := Suc (clk_count c), errno := e\<rparr>)"
  have f1: "clock_frame c ?s1"
    by (rule clock_frame_trans [OF _ expire_cache_frame]) (simp add: clock_frame_def erase_clock_def lock_works_def)
  obtain s2 where s2: "refresh_config t ?s1 = Inr s2" "clock_frame ?s1 s2"
    using refresh_settled [OF settled_frame [OF f1 assms(5)]] by blast
  have f2: "clock_frame c s2" using f1 s2(2) by (rule clock_frame_trans)
  have "\<not> infile_set s2" using settled_frame [OF f2 assms(5)] by (simp add: settled_def)
  then have "fake_clock_gettime clk tp s = mode_phase clk tp tp s2"
    using assms rt s2(1) by (simp add: fake_clock_gettime_def settled_def)
  then show ?thesis using f2 by blast
qed

lemma fake_clock_steady:
  assumes "steady s" "clk \<noteq> CLOCK_PROCESS_CPUTIME_ID" "clk \<noteq> CLOCK_THREAD_CPUTIME_ID"
  shows "\<exists>s1. clock_frame s s1 \<and> fake_clock_gettime clk tp s = mode_phase clk tp tp s1"
proof (rule fake_clock_settled)
  show "limits_phase clk tp (count_call s) = (False, s)" using assms(1) by (simp add: steady_def count_call_def limits_phase_def)
qed (use assms in \<open>simp_all add: steady_settled\<close>)

lemma finish_time_ok:
  assumes "lock_works s"
  shows "\<exists>s'. finish_time clk t0 t s = Inr ((0, normalize_timespec_value t), s') \<and> clock_frame s s'"
proof (cases "shared_sem_initialized s \<and> outfile s \<noteq> - 1")
  case True
  let ?r = "record_bytes (normalize_timespec_value t)"
  let ?w = "write_all ?r (locked s)"
  have "wrote ?r ?w (locked s)" by (simp add: write_all_def write_all_loop_wrote)
  then obtain ws e ob where w: "snd ?w = (locked s)\<lparr>write_script := ws, errno := e, out_bytes := ob\<rparr>"
    by (auto simp: wrote_def)
  let ?s' = "unlocked (snd ?w)"
  have sv: "save_time (normalize_timespec_value t) s = Inr ?s'" using True assms by (intro save_time_ok) simp_all
  have lw: "lock_works ?s'" using lock_works_locked [OF assms] by (intro lock_works_unlocked) (simp add: w lock_works_def)
  have "clock_frame s (?s'\<lparr>ftpl_timecache := a, ftpl_faketimecache := b\<rparr>)" for a b
    using lw unfolding w by (simp add: clock_frame_def lock_works_def) (simp add: erase_clock_def unlocked_def locked_def)
  then show ?thesis by (simp add: finish_time_def Let_def sv)
next
  case False
  then have sv: "save_time (normalize_timespec_value t) s = Inr s" unfolding save_time_def by (rule if_not_P)
  show ?thesis by (simp add: finish_time_def Let_def sv) (simp add: clock_frame_def erase_clock_def lock_works_def)
qed

text \<open>The clock that runs from a base time: what it shows for a reading of the real clock.\<close>

definition running_time :: "int \<Rightarrow> ft_state \<Rightarrow> timespec \<Rightarrow> timespec" where
  "running_time clk s tp =
    (let d = timespecsub tp (start_of_clock clk (ftpl_starttime s))
     in timespecadd (user_faked_time_timespec s) (if user_rate_set s then timespecmul d (user_rate s) else d))"

lemma normalize_normal: "ts_normal t \<Longrightarrow> normalize_timespec_value t = t"
  by (simp add: normalize_timespec_value_def normal_def)

lemma running_time_normal:
  assumes "ts_normal tp" "ts_normal (start_of_clock clk (ftpl_starttime s))" "ts_normal (user_faked_time_timespec s)"
  shows "ts_normal (running_time clk s tp)"
  using assms by (simp add: running_time_def Let_def timespec_totals)

lemma fake_clock_running:
  assumes "steady s" "lock_works s" "ft_mode s = FT_START_AT" "\<not> user_per_tick_inc_set s"
    and "clk \<noteq> CLOCK_PROCESS_CPUTIME_ID" "clk \<noteq> CLOCK_THREAD_CPUTIME_ID"
    and "ts_normal tp" "ts_normal (start_of_clock clk (ftpl_starttime s))" "ts_normal (user_faked_time_timespec s)"
  shows "\<exists>s'. fake_clock_gettime clk tp s = Inr ((0, running_time clk s tp), s') \<and> clock_frame s s'"
proof -
  obtain s1 where f: "clock_frame s s1" and fc: "fake_clock_gettime clk tp s = mode_phase clk tp tp s1"
    using fake_clock_steady [OF assms(1,5,6)] by blast
  note fl = clock_frame_fields [OF f]
  have "mode_phase clk tp tp s1 = finish_time clk tp (running_time clk s tp) s1"
    using assms(3,4) by (simp add: mode_phase_def fl advance_time_def running_time_def Let_def)
  moreover have "lock_works s1" using f assms(2) by (simp add: clock_frame_def)
  ultimately obtain s' where "fake_clock_gettime clk tp s = Inr ((0, running_time clk s tp), s')" "clock_frame s1 s'"
    using finish_time_ok [of s1 clk tp "running_time clk s tp"] fc normalize_normal [OF running_time_normal [OF assms(7-9)]] by auto
  then show ?thesis using clock_frame_trans [OF f] by blast
qed

text \<open>On every clock, whatever the system's own reading looks like, such a state is kept.\<close>

lemma fake_clock_keeps_frame:
  assumes "steady s" "lock_works s" "ft_mode s = FT_START_AT" "\<not> user_per_tick_inc_set s"
  shows "\<exists>r s'. fake_clock_gettime clk tp s = Inr (r, s') \<and> clock_frame s s'"
proof (cases "clk = CLOCK_PROCESS_CPUTIME_ID \<or> clk = CLOCK_THREAD_CPUTIME_ID")
  case True
  then show ?thesis using assms(1) by (simp add: fake_clock_gettime_def steady_def)
next
  case False
  then obtain s1 where f: "clock_frame s s1" and fc: "fake_clock_gettime clk tp s = mode_phase clk tp tp s1"
    using fake_clock_steady [OF assms(1)] by blast
  note fl = clock_frame_fields [OF f]
  have "lock_works s1" using f assms(2) by (simp add: clock_frame_def)
  from finish_time_ok [OF this, of clk tp "running_time clk s1 tp"] obtain r s' where
    "finish_time clk tp (running_time clk s1 tp) s1 = Inr (r, s')" "clock_frame s1 s'" by blast
  moreover have "mode_phase clk tp tp s1 = finish_time clk tp (running_time clk s1 tp) s1"
    using assms(3,4) by (simp add: mode_phase_def fl advance_time_def running_time_def Let_def)
  ultimately show ?thesis using fc clock_frame_trans [OF f] by auto
qed

lemma clamp_mono: "x \<le> y \<Longrightarrow> clamp_total U x \<le> clamp_total U y"
  by (auto simp: clamp_total_def)

text \<open>
  A reading within 292 years of the start, on a clock sped up by less than a factor of
  \<open>10 ^ 9\<close>: the scaling of the elapsed time stays in range.
\<close>

definition rate_bounded :: "ft_state \<Rightarrow> bool" where
  "rate_bounded s \<longleftrightarrow> (user_rate_set s \<longrightarrow> (\<exists>r. user_rate s = Fin r \<and> 0 \<le> r \<and> r \<le> 999999999))"

definition near_start :: "int \<Rightarrow> ft_state \<Rightarrow> timespec \<Rightarrow> bool" where
  "near_start clk s tp \<longleftrightarrow> ts_normal tp \<and>
     \<bar>ts_total tp - ts_total (start_of_clock clk (ftpl_starttime s))\<bar> < 9223372036854775808"

lemma elapsed_total:
  assumes "near_start clk s tp" "ts_normal (start_of_clock clk (ftpl_starttime s))"
  defines "d \<equiv> timespecsub tp (start_of_clock clk (ftpl_starttime s))"
  shows "ts_normal d" and "ts_total d = ts_total tp - ts_total (start_of_clock clk (ftpl_starttime s))"
    and "\<bar>tv_sec d\<bar> * SEC_TO_nSEC + \<bar>tv_nsec d\<bar> < 18446744073709551616"
    and "0 \<le> (r::rat) \<Longrightarrow> r \<le> 999999999 \<Longrightarrow> \<bar>of_int (ts_total d) * r\<bar> < 9223372036854775807 * of_int SEC_TO_nSEC"
proof -
  show n: "ts_normal d" using assms by (simp add: near_start_def d_def timespec_totals)
  have "ts_total d = clamp_total SEC_TO_nSEC (ts_total tp - ts_total (start_of_clock clk (ftpl_starttime s)))"
    using assms by (simp add: near_start_def d_def timespec_totals)
  also have "\<dots> = ts_total tp - ts_total (start_of_clock clk (ftpl_starttime s))"
    using assms(1) by (intro clamp_id) (auto simp: near_start_def SEC_TO_nSEC_def)
  finally show t: "ts_total d = ts_total tp - ts_total (start_of_clock clk (ftpl_starttime s))" .
  have b: "\<bar>ts_total d\<bar> < 9223372036854775808" using assms(1) t by (simp add: near_start_def)
  show "\<bar>tv_sec d\<bar> * SEC_TO_nSEC + \<bar>tv_nsec d\<bar> < 18446744073709551616"
    using n b by (auto simp: normal_def total_of_def SEC_TO_nSEC_def)
  assume r: "0 \<le> r" "r \<le> 999999999"
  have "\<bar>rat_of_int (ts_total d)\<bar> \<le> 9223372036854775808" using b by linarith
  then have "\<bar>rat_of_int (ts_total d)\<bar> * \<bar>r\<bar> \<le> 9223372036854775808 * 999999999" using r by (intro mult_mono) simp_all
  then show "\<bar>of_int (ts_total d) * r\<bar> < 9223372036854775807 * of_int SEC_TO_nSEC"
    by (simp add: abs_mult SEC_TO_nSEC_def)
qed

lemma running_time_mono:
  assumes a: "near_start clk s a" and b: "near_start clk s b" and ab: "ts_total a \<le> ts_total b"
    and st: "ts_normal (start_of_clock clk (ftpl_starttime s))" and base: "ts_normal (user_faked_time_timespec s)"
    and rate: "rate_bounded s"
  shows "ts_total (running_time clk s a) \<le> ts_total (running_time clk s b)"
proof -
  let ?d = "\<lambda>x. timespecsub x (start_of_clock clk (ftpl_starttime s))"
  let ?m = "\<lambda>x. if user_rate_set s then timespecmul (?d x) (user_rate s) else ?d x"
  note ea = elapsed_total [OF a st] and eb = elapsed_total [OF b st]
  have "ts_total (?m a) \<le> ts_total (?m b)"
  proof (cases "user_rate_set s")
    case True
    then obtain r where r: "user_rate s = Fin r" "0 \<le> r" "r \<le> 999999999" using rate by (auto simp: rate_bounded_def)
    have "ts_total (?d a) \<le> ts_total (?d b)" using ea(2) eb(2) ab by simp
    then have "total_of SEC_TO_nSEC (snd (timermul2 SEC_TO_nSEC (ts_pair (?d a)) (Fin r)))
        \<le> total_of SEC_TO_nSEC (snd (timermul2 SEC_TO_nSEC (ts_pair (?d b)) (Fin r)))"
      using ea(3) eb(3) ea(4) [OF r(2,3)] eb(4) [OF r(2,3)] r(2) by (intro nsec.mul_mono) simp_all
    then show ?thesis using True r(1) by (simp add: timespecmul_def)
  next
    case False
    then show ?thesis using ea(2) eb(2) ab by simp
  qed
  moreover have "ts_normal (?m a)" "ts_normal (?m b)" using ea(1) eb(1) by (simp_all add: timespecmul_normal)
  ultimately show ?thesis unfolding running_time_def Let_def
    using timespecadd_total(2) [OF base] clamp_mono by simp
qed

text \<open>A sequence of readings of the same clock, with the real times they get.\<close>

fun fake_readings :: "int \<Rightarrow> timespec list \<Rightarrow> ft_state \<Rightarrow> (timespec list \<times> ft_state) exitable" where
  "fake_readings clk [] s = Inr ([], s)"
| "fake_readings clk (t # ts) s = exit_bind (fake_clock_gettime clk t s) (\<lambda>((_, t'), s).
     exit_bind (fake_readings clk ts s) (\<lambda>(ts', s). Inr (t' # ts', s)))"

lemma running_time_frame: "clock_frame s s' \<Longrightarrow> running_time clk s' = running_time clk s"
  using clock_frame_fields [of s s'] by (auto simp: running_time_def fun_eq_iff)

lemma fake_readings_running:
  assumes "steady s" "lock_works s" "ft_mode s = FT_START_AT" "\<not> user_per_tick_inc_set s"
    and "clk \<noteq> CLOCK_PROCESS_CPUTIME_ID" "clk \<noteq> CLOCK_THREAD_CPUTIME_ID"
    and "\<forall>t \<in> set ts. ts_normal t" "ts_normal (start_of_clock clk (ftpl_starttime s))" "ts_normal (user_faked_time_timespec s)"
  shows "\<exists>s'. fake_readings clk ts s = Inr (map (running_time clk s) ts, s') \<and> clock_frame s s'"
  using assms
proof (induction ts arbitrary: s)
  case (Cons t ts)
  obtain s1 where s1: "fake_clock_gettime clk t s = Inr ((0, running_time clk s t), s1)" "clock_frame s s1"
    using fake_clock_running [of s clk t] Cons.prems by auto
  note fl = clock_frame_fields [OF s1(2)]
  have "steady s1" "lock_works s1"
    using steady_frame [OF s1(2)] s1(2) Cons.prems by (simp_all add: clock_frame_def)
  then obtain s2 where "fake_readings clk ts s1 = Inr (map (running_time clk s1) ts, s2)" "clock_frame s1 s2"
    using Cons.IH [of s1] Cons.prems fl by auto
  then show ?case using s1 running_time_frame [OF s1(2)] clock_frame_trans by auto
qed simp

subsection \<open>Limits\<close>

text \<open>
  When a reading is to be faked: the n-th call, made \<open>el\<close> nanoseconds after the start of its clock, is not before the number of
  calls and the seconds to start after, and is before those to stop after; -1 stands for no such limit.
\<close>

definition limits_met :: "ft_state \<Rightarrow> int \<Rightarrow> int \<Rightarrow> bool" where
  "limits_met s n el \<longleftrightarrow>
     (ft_start_after_ncalls s \<noteq> - 1 \<longrightarrow> ft_start_after_ncalls s \<le> n) \<and> (ft_stop_after_ncalls s \<noteq> - 1 \<longrightarrow> n < ft_stop_after_ncalls s) \<and>
     (ft_start_after_secs s \<noteq> - 1 \<longrightarrow> ft_start_after_secs s * SEC_TO_nSEC \<le> el) \<and>
     (ft_stop_after_secs s \<noteq> - 1 \<longrightarrow> el < ft_stop_after_secs s * SEC_TO_nSEC)"

lemma limits_frame:
  assumes "clock_frame s s'"
  shows "callcounter s' = callcounter s" "limits_met s' = limits_met s" "limited_faking s' = limited_faking s"
    "ft_start_after_ncalls s' = ft_start_after_ncalls s" "ft_stop_after_ncalls s' = ft_stop_after_ncalls s"
proof -
  have e: "erase_clock s' = erase_clock s" using assms by (simp add: clock_frame_def)
  then show "callcounter s' = callcounter s" "limited_faking s' = limited_faking s"
    "ft_start_after_ncalls s' = ft_start_after_ncalls s" "ft_stop_after_ncalls s' = ft_stop_after_ncalls s"
    by (cases s; cases s'; simp add: erase_clock_def)+
  moreover from e have "ft_start_after_secs s' = ft_start_after_secs s" "ft_stop_after_secs s' = ft_stop_after_secs s"
    by (cases s; cases s'; simp add: erase_clock_def)+
  ultimately show "limits_met s' = limits_met s" by (simp add: limits_met_def fun_eq_iff)
qed

lemma seconds_of_total: "ts_normal d \<Longrightarrow> tv_sec d < n \<longleftrightarrow> ts_total d < n * SEC_TO_nSEC"
  by (auto simp: normal_def total_of_def SEC_TO_nSEC_def)

text \<open>The number of a call, which is not counted when no limit is a number of calls.\<close>

definition counted :: "ft_state \<Rightarrow> bool" where
  "counted s \<longleftrightarrow> ft_start_after_ncalls s \<noteq> - 1 \<or> ft_stop_after_ncalls s \<noteq> - 1"

lemma outside_limits_met:
  assumes "limited_faking s" "\<not> spawnsupport s" "callcounter s < S64_MAX" "ts_normal d"
  shows "outside_limits d (count_call s) \<longleftrightarrow> \<not> limits_met s (callcounter s + 1) (ts_total d)"
proof -
  have f: "ft_start_after_secs (count_call s) = ft_start_after_secs s" "ft_stop_after_secs (count_call s) = ft_stop_after_secs s"
    "ft_start_after_ncalls (count_call s) = ft_start_after_ncalls s" "ft_stop_after_ncalls (count_call s) = ft_stop_after_ncalls s"
    by (simp_all add: count_call_def)
  have c: "callcounter (count_call s) = callcounter s + 1" if "ft_start_after_ncalls s \<noteq> - 1 \<or> ft_stop_after_ncalls s \<noteq> - 1"
    using that assms(1-3) by (simp add: count_call_def)
  show ?thesis
    unfolding outside_limits_def limits_met_def f not_less [symmetric] seconds_of_total [OF assms(4)] using c by auto
qed

lemma count_call_limited:
  "limited_faking s \<Longrightarrow> \<not> spawnsupport s \<Longrightarrow> callcounter s < S64_MAX \<Longrightarrow>
    count_call s = s\<lparr>callcounter := callcounter s + (if counted s then 1 else 0)\<rparr>"
  by (simp add: count_call_def counted_def)

lemma limited_call:
  assumes "settled s" "limited_faking s" "lock_works s" "ft_mode s = FT_START_AT" "\<not> user_per_tick_inc_set s" "callcounter s < S64_MAX"
    and "clk \<noteq> CLOCK_PROCESS_CPUTIME_ID" "clk \<noteq> CLOCK_THREAD_CPUTIME_ID"
    and "near_start clk s t" "ts_normal (start_of_clock clk (ftpl_starttime s))" "ts_normal (user_faked_time_timespec s)"
  shows "\<exists>s'. clock_frame (s\<lparr>callcounter := callcounter s + (if counted s then 1 else 0)\<rparr>) s' \<and> fake_clock_gettime clk t s =
    Inr ((0, if limits_met s (callcounter s + 1) (ts_total t - ts_total (start_of_clock clk (ftpl_starttime s))) then running_time clk s t else t), s')"
proof -
  let ?c = "s\<lparr>callcounter := callcounter s + (if counted s then 1 else 0)\<rparr>" and ?d = "timespecsub t (start_of_clock clk (ftpl_starttime s))"
  have sp: "\<not> spawnsupport s" "\<not> dont_fake s" using assms(1) by (simp_all add: settled_def)
  note d = elapsed_total(1,2) [OF assms(9,10)]
  have cc: "count_call s = ?c" by (rule count_call_limited [OF assms(2) sp(1) assms(6)])
  have lp: "limits_phase clk t ?c = (outside_limits ?d ?c, ?c)"
    using assms(2) sp(1) by (cases "counted s") (simp_all add: limits_phase_def Let_def)
  have out: "outside_limits ?d ?c \<longleftrightarrow> \<not> limits_met s (callcounter s + 1) (ts_total t - ts_total (start_of_clock clk (ftpl_starttime s)))"
    using outside_limits_met [OF assms(2) sp(1) assms(6) d(1)] d(2) by (simp add: cc)
  show ?thesis
  proof (cases "outside_limits ?d ?c")
    case True
    then have "fake_clock_gettime clk t s = Inr ((0, t), ?c)" using assms(7,8) sp(2) lp by (simp add: fake_clock_gettime_def cc)
    then show ?thesis using True out by auto
  next
    case False
    have "settled ?c" "lock_works ?c" using assms(1,3) by (simp_all add: settled_def getenv_def lock_works_def)
    then obtain s1 where f: "clock_frame ?c s1" and fc: "fake_clock_gettime clk t s = mode_phase clk t t s1"
      using fake_clock_settled [OF assms(1,7,8), of t ?c] lp False cc by auto
    note fl = clock_frame_fields [OF f]
    have "mode_phase clk t t s1 = finish_time clk t (running_time clk s t) s1"
      using assms(4,5) by (simp add: mode_phase_def fl advance_time_def running_time_def Let_def)
    moreover have "lock_works s1" using f \<open>lock_works ?c\<close> by (simp add: clock_frame_def)
    moreover have "ts_normal t" using assms(9) by (simp add: near_start_def)
    ultimately obtain s' where "fake_clock_gettime clk t s = Inr ((0, running_time clk s t), s')" "clock_frame s1 s'"
      using finish_time_ok [of s1 clk t "running_time clk s t"] fc normalize_normal [OF running_time_normal [OF _ assms(10,11)]] by auto
    then show ?thesis using False out clock_frame_trans [OF f] by auto
  qed
qed

lemma running_time_counter: "running_time clk (s\<lparr>callcounter := n\<rparr>) = running_time clk s"
  by (simp add: running_time_def fun_eq_iff cong: if_cong)

lemma limited_readings:
  assumes "settled s" "limited_faking s" "lock_works s" "ft_mode s = FT_START_AT" "\<not> user_per_tick_inc_set s"
    and "callcounter s + int (length ts) \<le> S64_MAX" "clk \<noteq> CLOCK_PROCESS_CPUTIME_ID" "clk \<noteq> CLOCK_THREAD_CPUTIME_ID"
    and "\<forall>t \<in> set ts. near_start clk s t" "ts_normal (start_of_clock clk (ftpl_starttime s))" "ts_normal (user_faked_time_timespec s)"
  shows "\<exists>ts' s'. fake_readings clk ts s = Inr (ts', s') \<and> length ts' = length ts \<and>
    callcounter s' = callcounter s + (if counted s then int (length ts) else 0) \<and>
    (\<forall>k < length ts. ts' ! k =
      (if limits_met s (callcounter s + int k + 1) (ts_total (ts ! k) - ts_total (start_of_clock clk (ftpl_starttime s))) then running_time clk s (ts ! k) else ts ! k))"
  using assms
proof (induction ts arbitrary: s)
  case (Cons t ts)
  let ?st = "start_of_clock clk (ftpl_starttime s)" and ?c = "s\<lparr>callcounter := callcounter s + (if counted s then 1 else 0)\<rparr>"
  define t' where "t' = (if limits_met s (callcounter s + 1) (ts_total t - ts_total ?st) then running_time clk s t else t)"
  obtain s1 where f: "clock_frame ?c s1" and r: "fake_clock_gettime clk t s = Inr ((0, t'), s1)"
    using limited_call [of s clk t] Cons.prems unfolding t'_def by auto
  note fl = clock_frame_fields [OF f] and lf = limits_frame [OF f]
  have "settled ?c" "lock_works ?c" using Cons.prems(1,3) by (simp_all add: settled_def getenv_def lock_works_def)
  then have s1: "settled s1" "lock_works s1" using settled_frame [OF f] f by (simp_all add: clock_frame_def)
  have cn: "counted s1 = counted s" by (simp add: counted_def lf)
  have met: "limits_met s1 = limits_met s" unfolding lf(2) by (simp add: limits_met_def fun_eq_iff)
  have run: "running_time clk s1 = running_time clk s" using running_time_frame [OF f, of clk] running_time_counter [where s = s] by simp
  have n: "limits_met s (callcounter s1 + int k + 1) = limits_met s (callcounter s + int (Suc k) + 1)" for k
    using lf(1) by (auto simp: limits_met_def counted_def fun_eq_iff algebra_simps)
  have near: "\<forall>t \<in> set ts. near_start clk s1 t" using Cons.prems(9) by (simp add: near_start_def fl)
  have "callcounter s1 + int (length ts) \<le> S64_MAX" using lf(1) Cons.prems(6) by (simp split: if_splits)
  from Cons.IH [OF s1(1) _ s1(2) _ _ this Cons.prems(7,8) near] Cons.prems fl lf(3)
  obtain ts' s2 where IH: "fake_readings clk ts s1 = Inr (ts', s2)" "length ts' = length ts"
    "callcounter s2 = callcounter s1 + (if counted s then int (length ts) else 0)"
    "\<forall>k < length ts. ts' ! k = (if limits_met s (callcounter s + int (Suc k) + 1) (ts_total (ts ! k) - ts_total ?st) then running_time clk s (ts ! k) else ts ! k)"
    by (auto simp: cn met run n)
  have "(t' # ts') ! k = (if limits_met s (callcounter s + int k + 1) (ts_total ((t # ts) ! k) - ts_total ?st) then running_time clk s ((t # ts) ! k) else (t # ts) ! k)"
    if "k < length (t # ts)" for k
    using that IH(4) t'_def by (cases k) simp_all
  then show ?case using r IH(1-3) lf(1) by auto
qed simp

section \<open>Lemmas: what every call keeps\<close>

text \<open>
  The invariant of the library: a usable configuration, and no lock held between calls. Inside \<^verbatim>\<open>stat\<close> the faked clock is read while the lock is held; what has to stay
  there is that there is a lock to release.
\<close>

definition lock_state :: "bool \<Rightarrow> ft_state \<Rightarrow> bool" where
  "lock_state h s \<longleftrightarrow> (if h then shared_sem_initialized s else \<not> sem_held s)"

definition inv_upto :: "bool \<Rightarrow> ft_state \<Rightarrow> bool" where
  "inv_upto h s \<longleftrightarrow> config_ok s \<and> lock_state h s"

abbreviation ft_inv :: "ft_state \<Rightarrow> bool" where "ft_inv \<equiv> inv_upto False"

lemma ft_inv_def: "ft_inv s \<longleftrightarrow> config_ok s \<and> \<not> sem_held s"
  by (simp add: inv_upto_def lock_state_def)

lemma lock_state_upd [simp]:
  "lock_state h (s\<lparr>ft_mode := m\<rparr>) = lock_state h s" "lock_state h (s\<lparr>user_faked_time_timespec := t\<rparr>) = lock_state h s"
  "lock_state h (s\<lparr>user_faked_time_set := b\<rparr>) = lock_state h s" "lock_state h (s\<lparr>user_offset := t\<rparr>) = lock_state h s"
  "lock_state h (s\<lparr>user_faked_time_saved := u\<rparr>) = lock_state h s" "lock_state h (s\<lparr>errno := i\<rparr>) = lock_state h s"
  by (simp_all add: lock_state_def)

lemma lock_state_frame: "shared_frame s s' \<Longrightarrow> lock_state h s \<Longrightarrow> lock_state h s'"
  using erase_shared_fields [of s' s] by (auto simp: lock_state_def shared_frame_def)

lemma ft_inv_upd [simp]:
  "inv_upto h (s\<lparr>callcounter := i\<rparr>) = inv_upto h s" "inv_upto h (s\<lparr>spawned := i\<rparr>) = inv_upto h s" "inv_upto h (s\<lparr>spawn_log := sl\<rparr>) = inv_upto h s"
  "inv_upto h (s\<lparr>spawn_script := is\<rparr>) = inv_upto h s" "inv_upto h (s\<lparr>errno := i\<rparr>) = inv_upto h s" "inv_upto h (s\<lparr>clk_count := n\<rparr>) = inv_upto h s"
  "inv_upto h (s\<lparr>last_data_fetch := i\<rparr>) = inv_upto h s" "inv_upto h (s\<lparr>fake_monotonic_clock := i\<rparr>) = inv_upto h s"
  "inv_upto h (s\<lparr>cache_expired := i\<rparr>) = inv_upto h s" "inv_upto h (s\<lparr>force_cache_expiration := i\<rparr>) = inv_upto h s"
  "inv_upto h (s\<lparr>read_script := is\<rparr>) = inv_upto h s" "inv_upto h (s\<lparr>ftpl_timecache := st\<rparr>) = inv_upto h s"
  "inv_upto h (s\<lparr>ftpl_faketimecache := st\<rparr>) = inv_upto h s" "inv_upto h (s\<lparr>dont_fake := b\<rparr>) = inv_upto h s"
  "inv_upto h (s\<lparr>environ := env\<rparr>) = inv_upto h s" "inv_upto h (s\<lparr>ft_mode := m\<rparr>) = inv_upto h s"
  by (simp_all add: inv_upto_def config_ok_def replay_ok_def lock_state_def)

lemma ft_inv_shared_frame: "shared_frame s s' \<Longrightarrow> inv_upto h s \<Longrightarrow> inv_upto h s'"
  using shared_frame_config_ok [of s s'] lock_state_frame [of s s'] by (auto simp: inv_upto_def)

lemma parse_modifiers_sem: "returns (parse_modifiers uft s) (\<lambda>s'. lock_state h s' = lock_state h s)"
  by (auto simp: parse_modifiers_def parse_rate_reset_def lock_state_def split: option.split prod.split)

lemma reset_then_modifiers_sem:
  "lock_state h t \<Longrightarrow> (\<And>t. lock_state h t \<Longrightarrow> returns (f t) (\<lambda>s'. lock_state h s')) \<Longrightarrow>
     returns (exit_bind (maybe_reset_time t) f) (\<lambda>s'. lock_state h s')"
  by (rule returns_bind [OF maybe_reset_time_frame]) (auto dest: lock_state_frame)

lemma parse_modifiers_free: "lock_state h t \<Longrightarrow> returns (parse_modifiers uft t) (\<lambda>s'. lock_state h s')"
  by (rule returns_mono [OF parse_modifiers_sem [where h = h]]) simp

lemma parse_ft_string_free:
  assumes free: "lock_state h s"
  shows "returns (parse_ft_string uft s) (\<lambda>s'. lock_state h s')"
proof -
  note pm = parse_modifiers_free and rm = reset_then_modifiers_sem
  have any: "returns m (\<lambda>_. True)" for m :: "'a exitable" by (simp add: returns_def split: sum.split)
  have df: "returns (parse_default uft s) (\<lambda>s'. lock_state h s')"
    unfolding parse_default_def Let_def
    by (rule returns_bind [OF any]) (use free in \<open>auto split: option.split intro!: pm\<close>)
  have st: "returns (parse_start_at uft s) (\<lambda>s'. lock_state h s')"
    unfolding parse_start_at_def Let_def
    by (rule returns_bind [OF any]) (use free in \<open>auto split: option.split intro!: rm pm\<close>)
  have fo: "returns (parse_follow uft s) (\<lambda>s'. lock_state h s')"
    unfolding parse_follow_def Let_def using free by (auto split: option.split intro!: rm pm)
  have off: "returns (parse_offset uft s) (\<lambda>s'. lock_state h s')"
    unfolding parse_offset_def Let_def using free by (auto split: prod.split option.split intro!: pm)
  show ?thesis unfolding parse_ft_string_def
    using df st fo off pm [OF free, of uft] free by (auto intro!: returns_bind [where P = "\<lambda>s'. lock_state h s'"])
qed

lemma parse_ft_string_inv: "inv_upto h s \<Longrightarrow> returns (parse_ft_string uft s) (inv_upto h)"
  using parse_ft_string_config_ok [of s uft] parse_ft_string_free [of h s uft]
  by (cases "parse_ft_string uft s") (auto simp: inv_upto_def)

lemma os_read_inv: "inv_upto h s \<Longrightarrow> inv_upto h (snd (os_read n t s))"
  by (simp add: os_read_def split: list.split)

lemma read_config_loop_inv: "inv_upto h s \<Longrightarrow> inv_upto h (snd (snd (snd (read_config_loop buf t b s))))"
proof (induction buf t b s rule: read_config_loop.induct)
  case (1 buf t b s)
  show ?case
  proof (cases "length buf < BUFFERLEN - 1")
    case True
    obtain n s1 where r: "os_read (BUFFERLEN - 1 - length buf) t s = (n, s1)" by fastforce
    have "inv_upto h s1" using os_read_inv [OF "1.prems", of "BUFFERLEN - 1 - length buf" t] r by simp
    then show ?thesis using "1.IH" [OF True r [symmetric]] True r by (subst read_config_loop.simps) simp
  next
    case False
    then show ?thesis using "1.prems" by (subst read_config_loop.simps) simp
  qed
qed

lemma read_config_file_inv: "inv_upto h s \<Longrightarrow> returns (read_config_file s) (\<lambda>(r, s'). inv_upto h s')"
proof (cases "open_config s")
  case (Some content)
  assume inv: "inv_upto h s"
  obtain buf t b s1 where l: "read_config_loop [] content 0 s = (buf, t, b, s1)" by (metis surj_pair)
  have i1: "inv_upto h s1" using read_config_loop_inv [OF inv, of "[]" content 0] l by simp
  obtain b2 s2 where p: "(if length buf = BUFFERLEN - 1 \<and> b = 0 then os_read 1 t s1 else (b, s1)) = (b2, s2)" by fastforce
  have "inv_upto h s2" using os_read_inv [OF i1, of 1 t] i1 p by (auto split: if_splits)
  then show ?thesis
    unfolding read_config_file_def Some option.case l prod.case Let_def p
    by (auto intro!: returns_bind [where P = "inv_upto h"] parse_ft_string_inv)
qed (simp add: read_config_file_def)

text \<open>Operations under the lock end with releasing it.\<close>

lemma unlock_inv: "config_ok s \<Longrightarrow> (h \<Longrightarrow> shared_sem_initialized s) \<Longrightarrow> fst (ft_sem_unlock s) \<noteq> - 1 \<Longrightarrow> inv_upto h (snd (ft_sem_unlock s))"
  by (cases rule: ft_sem_unlock_cases [of s]) (auto simp: inv_upto_def config_ok_def replay_ok_def lock_state_def)

lemma config_ok_locked [simp]: "config_ok (locked s) = config_ok s"
  by (simp add: config_ok_def replay_ok_def locked_def)

lemma next_time_inv: "inv_upto h s \<Longrightarrow> returns (next_time tp inc s) (\<lambda>(t, s'). inv_upto h s')"
proof (cases "shared_sem_initialized s")
  case True
  assume "inv_upto h s"
  then have ok: "config_ok ((locked s)\<lparr>shm := x\<rparr>)" for x by (simp add: inv_upto_def config_ok_def replay_ok_def locked_def)
  then have "returns (next_time_locked inc (locked s)) (\<lambda>(t, s'). inv_upto h s')"
    using unlock_inv [OF ok, of h] True by (auto simp: next_time_locked_def split_def Let_def)
  then show ?thesis by (simp add: next_time.run_closed [OF True])
qed (simp add: next_time.simps)

lemma save_time_inv: "inv_upto h s \<Longrightarrow> returns (save_time tp s) (inv_upto h)"
proof (cases "shared_sem_initialized s \<and> outfile s \<noteq> - 1")
  case True
  assume "inv_upto h s"
  moreover obtain ws e o' where "snd (write_all (be64_encode (tv_sec tp) @ be64_encode (tv_nsec tp)) (locked s)) =
      (locked s)\<lparr>write_script := ws, errno := e, out_bytes := o'\<rparr>"
    using write_all_loop_wrote [of "be64_encode (tv_sec tp) @ be64_encode (tv_nsec tp)" 0 "locked s"]
    by (auto simp: write_all_def wrote_def)
  ultimately have "config_ok (snd (write_all (be64_encode (tv_sec tp) @ be64_encode (tv_nsec tp)) (locked s)))"
    "shared_sem_initialized (snd (write_all (be64_encode (tv_sec tp) @ be64_encode (tv_nsec tp)) (locked s)))"
    using True by (simp_all add: inv_upto_def config_ok_def replay_ok_def locked_def)
  then show ?thesis using unlock_inv [of _ h] True
    by (simp add: save_time_def save_lock.run_closed split_def Let_def)
next
  case False
  assume "inv_upto h s"
  then show ?thesis using False unfolding save_time_def if_not_P [OF False] by simp
qed

lemma system_time_config: "config_ok s \<Longrightarrow> config_ok (snd (system_time_from_system old s))"
  by (rule system_time_from_system_cases [of old s]) (simp add: config_ok_def replay_ok_def)

lemma system_time_shared [simp]: "shared_sem_initialized (snd (system_time_from_system old s)) = shared_sem_initialized s"
  by (rule system_time_from_system_cases [of old s]) simp

lemma load_time_locked_inv: "config_ok s \<Longrightarrow> shared_sem_initialized s \<Longrightarrow> returns (load_time_locked tp s) (\<lambda>(r, s'). inv_upto h s')"
proof -
  assume ok: "config_ok s" "shared_sem_initialized s"
  have upd: "config_ok (t\<lparr>user_faked_time_timespec := a\<rparr>)" "config_ok (t\<lparr>shm := x\<rparr>)" "config_ok (t\<lparr>ftpl_starttime := st\<rparr>)"
    "config_ok (t\<lparr>infile_set := False\<rparr>)" if "config_ok t" for t a x st using that by (simp_all add: config_ok_def replay_ok_def)
  show ?thesis
    unfolding load_time_locked_def Let_def split_def
    using ok by (auto intro!: unlock_inv upd system_time_config)
qed

lemma load_time_inv: "inv_upto h s \<Longrightarrow> returns (load_time tp s) (\<lambda>(r, s'). inv_upto h s')"
proof (cases "shared_sem_initialized s \<and> infile_set s")
  case True
  assume "inv_upto h s"
  then have "returns (load_time_locked tp (locked s)) (\<lambda>(r, s'). inv_upto h s')"
    using True by (intro load_time_locked_inv) (simp_all add: inv_upto_def)
  then show ?thesis by (simp add: load_lock.run_closed [OF True])
next
  case False
  assume "inv_upto h s"
  then show ?thesis by (subst load_time.simps) (simp only: if_not_P [OF False] returns_Inr prod.case)
qed

lemma wait_child_inv: "inv_upto h (wait_child s) = inv_upto h s"
proof (induction s rule: wait_child.induct)
  case (1 s)
  show ?case
  proof (cases "spawn_script s")
    case Nil
    then show ?thesis by (simp add: wait_child.simps)
  next
    case (Cons e es)
    then show ?thesis using 1 [OF Cons refl] by (subst wait_child.simps) (simp add: Let_def)
  qed
qed

lemma run_spawn_exec_inv: "inv_upto h (run_spawn_exec s) = inv_upto h s"
  by (simp add: run_spawn_exec_def wait_child_inv Let_def split: option.split list.split)

lemma limits_phase_inv: "inv_upto h (snd (limits_phase clk tp (count_call s))) = inv_upto h s"
proof -
  have "inv_upto h (count_call s) = inv_upto h s" by (simp add: count_call_def)
  moreover have "inv_upto h (spawn_once e t) = inv_upto h t" for e t
    by (simp add: spawn_once_def run_spawn_exec_inv Let_def)
  ultimately show ?thesis by (simp add: limits_phase_def Let_def)
qed

lemma refresh_config_inv: "inv_upto h s \<Longrightarrow> returns (refresh_config current s) (inv_upto h)"
proof -
  assume inv: "inv_upto h s"
  have rc: "returns (exit_bind (read_config_file t) (\<lambda>(r, s). if r = 0 then parse_ft_string u s else Inr s)) (inv_upto h)" if "inv_upto h t" for t u
    using read_config_file_inv [OF that] by (rule returns_bind) (auto intro: parse_ft_string_inv)
  show ?thesis unfolding refresh_config_def Let_def
    using inv by (auto intro!: returns_bind [where P = "inv_upto h"] rc parse_ft_string_inv)
qed

lemma expire_cache_inv: "inv_upto h (expire_cache current s) = inv_upto h s"
  by (simp add: expire_cache_def Let_def)

lemma finish_time_inv: "inv_upto h s \<Longrightarrow> returns (finish_time clk t0 t s) (\<lambda>(r, s'). inv_upto h s')"
  unfolding finish_time_def Let_def
  by (rule returns_bind [OF save_time_inv]) simp_all

lemma mode_phase_inv: "inv_upto h s \<Longrightarrow> returns (mode_phase clk t0 tp s) (\<lambda>(r, s'). inv_upto h s')"
proof -
  assume inv: "inv_upto h s"
  have "returns (advance_time clk tp s) (\<lambda>(t, s'). inv_upto h s')"
    using inv by (simp add: advance_time_def Let_def next_time_inv)
  then have "returns (exit_bind (advance_time clk tp s) (\<lambda>(tp, s). finish_time clk t0 tp s)) (\<lambda>(r, s'). inv_upto h s')"
    by (rule returns_bind) (auto intro: finish_time_inv)
  then show ?thesis using inv finish_time_inv by (simp add: mode_phase_def split: ft_mode_t.split)
qed

lemma fake_clock_gettime_inv: "inv_upto h s \<Longrightarrow> returns (fake_clock_gettime clk tp s) (\<lambda>(r, s'). inv_upto h s')"
proof -
  assume inv: "inv_upto h s"
  obtain ab s1 where l: "limits_phase clk tp (count_call s) = (ab, s1)" by fastforce
  have i1: "inv_upto h s1" using limits_phase_inv [of h clk tp s] l inv by simp
  obtain r t e where rt: "real_clock_gettime CLOCK_REALTIME \<lparr>tv_sec = 0, tv_nsec = 0\<rparr> s1 = ((r, t), s1\<lparr>clk_count := Suc (clk_count s1), errno := e\<rparr>)"
    by (rule real_clock_gettime_cases)
  let ?s2 = "s1\<lparr>clk_count := Suc (clk_count s1), errno := e\<rparr>"
  have "inv_upto h ?s2" using i1 by simp
  then have rf: "returns (refresh_config t (expire_cache t ?s2)) (inv_upto h)" by (intro refresh_config_inv) (simp add: expire_cache_inv)
  have ld: "returns (if infile_set u then load_time tp u else Inr ((False, tp), u)) (\<lambda>(r, s'). inv_upto h s')" if "inv_upto h u" for u
    using that load_time_inv by simp
  have "returns (exit_bind (refresh_config t (expire_cache t ?s2)) (\<lambda>s.
         exit_bind (if infile_set s then load_time tp s else Inr ((False, tp), s)) (\<lambda>((loaded, tp'), s).
           if loaded then Inr ((0, tp'), s) else mode_phase clk tp tp' s))) (\<lambda>(r, s'). inv_upto h s')"
    by (rule returns_bind [OF rf], rule returns_bind [OF ld]) (auto intro: mode_phase_inv)
  then show ?thesis using inv i1
    unfolding fake_clock_gettime_def l prod.case rt by auto
qed

section \<open>Properties\<close>

text \<open>A library that was started at second 1000 with the request "5 seconds ahead".\<close>

definition sample_start :: system_time_s where
  "sample_start = \<lparr>st_real = \<lparr>tv_sec = 1000, tv_nsec = 0\<rparr>, st_mon = \<lparr>tv_sec = 50, tv_nsec = 0\<rparr>,
     st_mon_raw = \<lparr>tv_sec = 50, tv_nsec = 0\<rparr>, st_boot = \<lparr>tv_sec = 60, tv_nsec = 0\<rparr>\<rparr>"

definition sample_running :: ft_state where
  "sample_running = (static_state sample_os)\<lparr>environ := [(''FAKETIME'', ''+5'')], user_faked_time_saved := ''+5'',
     parse_config_file := False, ft_mode := FT_START_AT, user_faked_time_timespec := \<lparr>tv_sec = 1005, tv_nsec = 0\<rparr>,
     ftpl_starttime := sample_start\<rparr>"

lemma steady_sample: "steady sample_running" "lock_works sample_running"
  by (simp_all add: steady_def sample_running_def static_defs getenv_def lock_works_def)

lemma sample_running_fields:
  "ft_mode sample_running = FT_START_AT" "\<not> user_per_tick_inc_set sample_running" "\<not> user_rate_set sample_running"
  "user_faked_time_timespec sample_running = \<lparr>tv_sec = 1005, tv_nsec = 0\<rparr>" "ftpl_starttime sample_running = sample_start"
  by (simp_all add: sample_running_def static_defs)

text \<open>
  Claim C18. With an offset (or a start date) and no clock rate, every faked clock other than the
  CPU clocks shows the faked base time plus the time that clock has really advanced since the
  start, to the nanosecond (saturated at the ends of the range of times), and the call
  succeeds however often the configuration is looked up again meanwhile.
\<close>

theorem fake_clock_offset:
  assumes "steady s" "lock_works s" "ft_mode s = FT_START_AT" "\<not> user_per_tick_inc_set s" "\<not> user_rate_set s"
    and "clk \<noteq> CLOCK_PROCESS_CPUTIME_ID" "clk \<noteq> CLOCK_THREAD_CPUTIME_ID"
    and "ts_normal tp" "ts_normal (start_of_clock clk (ftpl_starttime s))" "ts_normal (user_faked_time_timespec s)"
  shows "\<exists>tp' s'. fake_clock_gettime clk tp s = Inr ((0, tp'), s') \<and> ts_normal tp' \<and>
    ts_total tp' = clamp_total SEC_TO_nSEC (ts_total (user_faked_time_timespec s) +
      clamp_total SEC_TO_nSEC (ts_total tp - ts_total (start_of_clock clk (ftpl_starttime s))))"
proof -
  obtain s' where "fake_clock_gettime clk tp s = Inr ((0, running_time clk s tp), s')"
    using fake_clock_running [OF assms(1-4,6-10)] by blast
  moreover have "ts_normal (running_time clk s tp)" using assms by (intro running_time_normal) simp_all
  ultimately show ?thesis using assms by (simp add: running_time_def timespec_totals)
qed

theorem fake_clock_offset_witness:
  "\<exists>tp' s'. fake_clock_gettime CLOCK_MONOTONIC \<lparr>tv_sec = 53, tv_nsec = 0\<rparr> sample_running = Inr ((0, tp'), s') \<and>
     ts_total tp' = 1008000000000"
  using fake_clock_offset [OF steady_sample, of CLOCK_MONOTONIC "\<lparr>tv_sec = 53, tv_nsec = 0\<rparr>"]
  by (auto simp: sample_running_fields normal_def in_s64_def start_of_clock_def sample_start_def total_of_def clamp_total_def SEC_TO_nSEC_def)

text \<open>
  Claim C19. With a clock rate r (up to 10^9), the faked clock shows the base time plus r times the
  real time elapsed since the start, with an error below one nanosecond plus the rounding of
  the 64-bit significand.
\<close>

theorem fake_clock_rate:
  assumes "steady s" "lock_works s" "ft_mode s = FT_START_AT" "\<not> user_per_tick_inc_set s"
    and "user_rate_set s" "user_rate s = Fin r" "0 \<le> r" "r \<le> 999999999"
    and "clk \<noteq> CLOCK_PROCESS_CPUTIME_ID" "clk \<noteq> CLOCK_THREAD_CPUTIME_ID"
    and "near_start clk s tp" "ts_normal (start_of_clock clk (ftpl_starttime s))" "ts_normal (user_faked_time_timespec s)"
    and "el = ts_total tp - ts_total (start_of_clock clk (ftpl_starttime s))"
  shows "\<exists>tp' s' adj. fake_clock_gettime clk tp s = Inr ((0, tp'), s') \<and> ts_normal tp' \<and>
    ts_total tp' = clamp_total SEC_TO_nSEC (ts_total (user_faked_time_timespec s) + adj) \<and>
    \<bar>of_int adj - of_int el * r\<bar> < 1 + \<bar>of_int el * r\<bar> / 18446744073709551616"
proof -
  have tp: "ts_normal tp" using assms(11) by (simp add: near_start_def)
  obtain s' where c: "fake_clock_gettime clk tp s = Inr ((0, running_time clk s tp), s')"
    using fake_clock_running [OF assms(1-4,9,10) tp assms(12,13)] by blast
  have n: "ts_normal (running_time clk s tp)" using assms tp by (intro running_time_normal) simp_all
  let ?d = "timespecsub tp (start_of_clock clk (ftpl_starttime s))"
  note e = elapsed_total [OF assms(11,12)]
  have "\<bar>of_int (ts_total (timespecmul ?d (Fin r))) - of_int (ts_total ?d) * r\<bar>
      < 1 + \<bar>of_int (ts_total ?d) * r\<bar> / 18446744073709551616"
    using nsec.mul_error(2) [of "ts_pair ?d" r] e(3) e(4) [OF assms(7,8)] by (simp add: timespecmul_def)
  moreover have "ts_total (running_time clk s tp) =
      clamp_total SEC_TO_nSEC (ts_total (user_faked_time_timespec s) + ts_total (timespecmul ?d (Fin r)))"
    using assms by (simp add: running_time_def timespec_totals)
  ultimately show ?thesis using c n unfolding e(2) assms(14) [symmetric] by blast
qed

theorem fake_clock_rate_witness:
  "\<exists>tp' s' adj. fake_clock_gettime CLOCK_REALTIME \<lparr>tv_sec = 1010, tv_nsec = 0\<rparr>
      (sample_running\<lparr>user_rate_set := True, user_rate := Fin (5/2)\<rparr>) = Inr ((0, tp'), s') \<and>
     \<bar>of_int adj - 25000000000\<bar> < (2::rat) \<and>
     ts_total tp' = clamp_total SEC_TO_nSEC (1005000000000 + adj)"
proof -
  let ?s = "sample_running\<lparr>user_rate_set := True, user_rate := Fin (5/2)\<rparr>"
  have "steady ?s" "lock_works ?s" using steady_sample by (simp_all add: steady_def lock_works_def getenv_def)
  moreover have "near_start CLOCK_REALTIME ?s \<lparr>tv_sec = 1010, tv_nsec = 0\<rparr>"
    by (simp add: near_start_def normal_def in_s64_def sample_running_fields start_of_clock_def sample_start_def total_of_def SEC_TO_nSEC_def)
  ultimately have "\<exists>tp' s' adj. fake_clock_gettime CLOCK_REALTIME \<lparr>tv_sec = 1010, tv_nsec = 0\<rparr> ?s = Inr ((0, tp'), s') \<and> ts_normal tp' \<and>
    ts_total tp' = clamp_total SEC_TO_nSEC (ts_total (user_faked_time_timespec ?s) + adj) \<and>
    \<bar>of_int adj - of_int 10000000000 * (5/2)\<bar> < 1 + \<bar>of_int 10000000000 * (5/2 :: rat)\<bar> / 18446744073709551616"
    by (intro fake_clock_rate)
      (simp_all add: sample_running_fields normal_def in_s64_def start_of_clock_def sample_start_def total_of_def SEC_TO_nSEC_def)
  then obtain tp' s' adj where r: "fake_clock_gettime CLOCK_REALTIME \<lparr>tv_sec = 1010, tv_nsec = 0\<rparr> ?s = Inr ((0, tp'), s')"
    "ts_total tp' = clamp_total SEC_TO_nSEC (ts_total (user_faked_time_timespec ?s) + adj)"
    "\<bar>of_int adj - of_int 10000000000 * (5/2)\<bar> < 1 + \<bar>of_int 10000000000 * (5/2 :: rat)\<bar> / 18446744073709551616" by blast
  have "\<bar>of_int adj - 25000000000\<bar> < (2::rat)" using r(3) by simp
  then show ?thesis using r(1,2) by (auto simp: sample_running_fields total_of_def SEC_TO_nSEC_def)
qed

text \<open>
  Claim C20. A faked clock does not run backwards: readings of a clock whose real times do not
  decrease, on a clock with any rate between 0 and 10^9, return faked times that do not decrease,
  across cache refreshes and the saving of timestamps.
\<close>

theorem fake_readings_monotone:
  assumes "steady s" "lock_works s" "ft_mode s = FT_START_AT" "\<not> user_per_tick_inc_set s" "rate_bounded s"
    and "clk \<noteq> CLOCK_PROCESS_CPUTIME_ID" "clk \<noteq> CLOCK_THREAD_CPUTIME_ID"
    and "ts_normal (start_of_clock clk (ftpl_starttime s))" "ts_normal (user_faked_time_timespec s)"
    and "\<forall>t \<in> set ts. near_start clk s t" "sorted (map ts_total ts)"
  shows "\<exists>ts' s'. fake_readings clk ts s = Inr (ts', s') \<and> length ts' = length ts \<and> sorted (map ts_total ts')"
proof -
  have n: "\<forall>t \<in> set ts. ts_normal t" using assms(10) by (simp add: near_start_def)
  obtain s' where r: "fake_readings clk ts s = Inr (map (running_time clk s) ts, s')"
    using fake_readings_running [OF assms(1-4,6,7) n assms(8,9)] by blast
  have "sorted (map (ts_total \<circ> running_time clk s) ts)"
    using assms(10,11) running_time_mono [OF _ _ _ assms(8,9,5)]
    by (induction ts) auto
  then show ?thesis using r by (auto simp: comp_def)
qed

theorem fake_readings_monotone_witness:
  "\<exists>ts' s'. fake_readings CLOCK_REALTIME [\<lparr>tv_sec = 1001, tv_nsec = 0\<rparr>, \<lparr>tv_sec = 1004, tv_nsec = 0\<rparr>] sample_running = Inr (ts', s') \<and>
     length ts' = 2 \<and> sorted (map ts_total ts')"
  using fake_readings_monotone [OF steady_sample, of CLOCK_REALTIME "[\<lparr>tv_sec = 1001, tv_nsec = 0\<rparr>, \<lparr>tv_sec = 1004, tv_nsec = 0\<rparr>]"]
  by (simp add: sample_running_fields normal_def in_s64_def rate_bounded_def near_start_def start_of_clock_def sample_start_def
      total_of_def SEC_TO_nSEC_def numeral_2_eq_2)

text \<open>
 A frozen clock (an absolute date without a start sign) shows the requested time, its
  nanoseconds brought into range, on every clock other than the CPU clocks and whatever
  the real time is.
\<close>

lemma fake_clock_freeze:
  assumes "steady s" "lock_works s" "ft_mode s = FT_FREEZE" "user_faked_time_set s"
    and "clk \<noteq> CLOCK_PROCESS_CPUTIME_ID" "clk \<noteq> CLOCK_THREAD_CPUTIME_ID"
  shows "\<exists>s'. fake_clock_gettime clk tp s = Inr ((0, normalize_timespec_value (user_faked_time_timespec s)), s')"
proof -
  obtain s1 where f: "clock_frame s s1" and fc: "fake_clock_gettime clk tp s = mode_phase clk tp tp s1"
    using fake_clock_steady [OF assms(1,5,6)] by blast
  have "lock_works s1" using f assms(2) by (simp add: clock_frame_def)
  then show ?thesis using finish_time_ok [of s1 clk tp "user_faked_time_timespec s"] assms(3,4) fc
    by (auto simp: mode_phase_def clock_frame_fields [OF f])
qed

lemma fake_clock_freeze_witness:
  "\<exists>s'. fake_clock_gettime CLOCK_BOOTTIME \<lparr>tv_sec = 77, tv_nsec = 1\<rparr>
      (sample_running\<lparr>ft_mode := FT_FREEZE, user_faked_time_set := True\<rparr>) = Inr ((0, \<lparr>tv_sec = 1005, tv_nsec = 0\<rparr>), s')"
proof -
  let ?s = "sample_running\<lparr>ft_mode := FT_FREEZE, user_faked_time_set := True\<rparr>"
  have "steady ?s" "lock_works ?s" using steady_sample by (simp_all add: steady_def lock_works_def getenv_def)
  from fake_clock_freeze [OF this] show ?thesis
    by (simp add: sample_running_fields normalize_timespec_value_def SEC_TO_nSEC_def)
qed

text \<open>
  Claim C21. The start and stop limits delimit the faking, call by call: of a series of readings, the n-th call since the program began
  is faked (base time plus the time its clock has advanced) exactly when n has reached the number of calls to start after and not the one to stop
  after, and the clock has advanced at least the seconds to start after and less than those to stop after; every other call
  returns the real time it was given. Calls are counted, one by one, whenever a limit is a number of calls.
\<close>

theorem limits_delimit_faking:
  assumes "settled s" "limited_faking s" "lock_works s" "ft_mode s = FT_START_AT" "\<not> user_per_tick_inc_set s" "\<not> user_rate_set s"
    and "callcounter s + int (length ts) \<le> S64_MAX" "clk \<noteq> CLOCK_PROCESS_CPUTIME_ID" "clk \<noteq> CLOCK_THREAD_CPUTIME_ID"
    and "\<forall>t \<in> set ts. near_start clk s t"
    and "st = start_of_clock clk (ftpl_starttime s)" "ts_normal st" "ts_normal (user_faked_time_timespec s)"
  shows "\<exists>ts' s'. fake_readings clk ts s = Inr (ts', s') \<and> length ts' = length ts \<and>
    callcounter s' = callcounter s + (if ft_start_after_ncalls s \<noteq> - 1 \<or> ft_stop_after_ncalls s \<noteq> - 1 then int (length ts) else 0) \<and>
    (\<forall>k < length ts.
      if (ft_start_after_ncalls s \<noteq> - 1 \<longrightarrow> ft_start_after_ncalls s \<le> callcounter s + int k + 1) \<and>
         (ft_stop_after_ncalls s \<noteq> - 1 \<longrightarrow> callcounter s + int k + 1 < ft_stop_after_ncalls s) \<and>
         (ft_start_after_secs s \<noteq> - 1 \<longrightarrow> ft_start_after_secs s * 1000000000 \<le> ts_total (ts ! k) - ts_total st) \<and>
         (ft_stop_after_secs s \<noteq> - 1 \<longrightarrow> ts_total (ts ! k) - ts_total st < ft_stop_after_secs s * 1000000000)
      then ts_total (ts' ! k) = clamp_total SEC_TO_nSEC (ts_total (user_faked_time_timespec s) + (ts_total (ts ! k) - ts_total st))
      else ts' ! k = ts ! k)"
proof -
  obtain ts' s' where r: "fake_readings clk ts s = Inr (ts', s')" "length ts' = length ts"
    "callcounter s' = callcounter s + (if counted s then int (length ts) else 0)"
    "\<forall>k < length ts. ts' ! k = (if limits_met s (callcounter s + int k + 1) (ts_total (ts ! k) - ts_total st) then running_time clk s (ts ! k) else ts ! k)"
    using limited_readings [OF assms(1-5,7-10)] assms(11-13) by auto
  have run: "ts_total (running_time clk s (ts ! k)) = clamp_total SEC_TO_nSEC (ts_total (user_faked_time_timespec s) + (ts_total (ts ! k) - ts_total st))"
    if "k < length ts" for k
  proof -
    have "near_start clk s (ts ! k)" using assms(10) that by simp
    from elapsed_total(1,2) [OF this] show ?thesis
      using assms(6,11-13) timespecadd_total(2) by (simp add: running_time_def Let_def)
  qed
  show ?thesis
    using r run by (intro exI [of _ ts'] exI [of _ s']) (auto simp: limits_met_def counted_def SEC_TO_nSEC_def)
qed

text \<open>Faking from the second call on, and not any more from the third on.\<close>

theorem limits_delimit_faking_witness:
  "\<exists>ts' s'. fake_readings CLOCK_REALTIME (replicate 3 \<lparr>tv_sec = 1002, tv_nsec = 0\<rparr>)
      (sample_running\<lparr>limited_faking := True, ft_start_after_ncalls := 2, ft_stop_after_ncalls := 3\<rparr>) = Inr (ts', s') \<and>
     callcounter s' = 3 \<and> ts' ! 0 = \<lparr>tv_sec = 1002, tv_nsec = 0\<rparr> \<and> ts_total (ts' ! 1) = 1007000000000 \<and> ts' ! 2 = \<lparr>tv_sec = 1002, tv_nsec = 0\<rparr>"
proof -
  let ?s = "sample_running\<lparr>limited_faking := True, ft_start_after_ncalls := 2, ft_stop_after_ncalls := 3\<rparr>" and ?t = "\<lparr>tv_sec = 1002, tv_nsec = 0\<rparr>"
  have s: "settled ?s" "limited_faking ?s" "lock_works ?s" "ft_mode ?s = FT_START_AT" "\<not> user_per_tick_inc_set ?s" "\<not> user_rate_set ?s" "callcounter ?s = 0"
    "ft_start_after_secs ?s = - 1" "ft_stop_after_secs ?s = - 1"
    by (simp_all add: settled_def sample_running_def static_defs getenv_def lock_works_def)
  have n: "\<forall>t \<in> set (replicate 3 ?t). near_start CLOCK_REALTIME ?s t" "ts_normal (start_of_clock CLOCK_REALTIME (ftpl_starttime ?s))"
    "ts_normal (user_faked_time_timespec ?s)" "callcounter ?s + int (length (replicate 3 ?t)) \<le> S64_MAX"
    using s(7) by (simp_all add: sample_running_fields near_start_def normal_def in_s64_def start_of_clock_def sample_start_def total_of_def SEC_TO_nSEC_def)
  have c: "clamp_total SEC_TO_nSEC (ts_total (user_faked_time_timespec ?s) + (ts_total ?t - ts_total (start_of_clock CLOCK_REALTIME (ftpl_starttime ?s)))) = 1007000000000"
    by (simp add: sample_running_fields start_of_clock_def sample_start_def total_of_def SEC_TO_nSEC_def clamp_total_def)
  obtain ts' s' where *: "fake_readings CLOCK_REALTIME (replicate 3 ?t) ?s = Inr (ts', s')" "callcounter s' = 3" and
    k: "\<And>k. k < 3 \<Longrightarrow> if 2 \<le> int k + 1 \<and> int k + 1 < 3
      then ts_total (ts' ! k) = clamp_total SEC_TO_nSEC (ts_total (user_faked_time_timespec ?s) +
        (ts_total (replicate 3 ?t ! k) - ts_total (start_of_clock CLOCK_REALTIME (ftpl_starttime ?s))))
      else ts' ! k = replicate 3 ?t ! k"
    using limits_delimit_faking [OF s(1-6) n(4) _ _ n(1) refl n(2,3)] s(7-9) by auto
  have "ts' ! 0 = ?t" "ts_total (ts' ! 1) = 1007000000000" "ts' ! 2 = ?t"
    using k [of 0] k [of 1] k [of 2] c by simp_all
  then show ?thesis using * by blast
qed

text \<open>
 Every call of \<^verbatim>\<open>fake_clock_gettime\<close>, in any state and mode, whatever request it reads,
  returns with a usable configuration and without holding the lock of the shared memory, or
  ends the process.
\<close>

lemma fake_clock_keeps_inv:
  assumes "ft_inv s"
  shows "(\<exists>e. fake_clock_gettime clk tp s = Inl e) \<or> (\<exists>r s'. fake_clock_gettime clk tp s = Inr (r, s') \<and> ft_inv s')"
  using fake_clock_gettime_inv [OF assms, of clk tp] by (cases "fake_clock_gettime clk tp s") auto

lemma fake_clock_keeps_inv_witness:
  "ft_inv sample_running \<and> ((\<exists>e. fake_clock_gettime CLOCK_REALTIME unset_time sample_running = Inl e) \<or>
     (\<exists>r s'. fake_clock_gettime CLOCK_REALTIME unset_time sample_running = Inr (r, s') \<and> ft_inv s'))"
proof -
  have "ft_inv sample_running" by (simp add: ft_inv_def config_ok_def replay_ok_def sample_running_def static_defs)
  with fake_clock_keeps_inv show ?thesis by blast
qed

text \<open>
  In the mode for commands to skip, a call that does fake (the flag \<^verbatim>\<open>dont_fake\<close> is per thread, and
  set only in the thread that initialised the library) fails with -1 instead of
  returning the real time.
\<close>

lemma fake_clock_noop_fails:
  assumes "steady s" "ft_mode s = FT_NOOP" "clk \<noteq> CLOCK_PROCESS_CPUTIME_ID" "clk \<noteq> CLOCK_THREAD_CPUTIME_ID"
  shows "\<exists>s'. fake_clock_gettime clk tp s = Inr ((- 1, tp), s')"
proof -
  obtain s1 where f: "clock_frame s s1" and fc: "fake_clock_gettime clk tp s = mode_phase clk tp tp s1"
    using fake_clock_steady [OF assms(1,3,4)] by blast
  then show ?thesis using assms(2) by (simp add: mode_phase_def clock_frame_fields [OF f])
qed

lemma fake_clock_noop_fails_witness:
  "\<exists>s'. fake_clock_gettime CLOCK_REALTIME \<lparr>tv_sec = 1002, tv_nsec = 0\<rparr> (sample_running\<lparr>ft_mode := FT_NOOP\<rparr>)
     = Inr ((- 1, \<lparr>tv_sec = 1002, tv_nsec = 0\<rparr>), s')"
proof -
  have "steady (sample_running\<lparr>ft_mode := FT_NOOP\<rparr>)" using steady_sample by (simp add: steady_def getenv_def)
  from fake_clock_noop_fails [OF this] show ?thesis by simp
qed

end
