(* ===== verification/Shm_Lifecycle.thy ===== *)
theory Shm_Lifecycle
  imports Fake_Clock
begin

text \<open>
  Creating the shared objects and attaching to them: the \<^verbatim>\<open>flock\<close> backend of
  \<^verbatim>\<open>src/src/ft_sem.c\<close> (lock files below \<^verbatim>\<open>/dev/shm\<close>), \<^verbatim>\<open>ft_shm_create\<close>, \<^verbatim>\<open>ft_shm_really_init\<close>
  of \<^verbatim>\<open>src/src/libfaketime.c\<close>, and the once-only initialisation \<^verbatim>\<open>ft_init_once_generic\<close>. The removal at
  the end of a process is in the theory \<^verbatim>\<open>Shm_Cleanup\<close>. The system's lock files and shared memory objects are
  association lists in the state; the outcome of a system call that may fail for other reasons is
  taken from \<open>call_script\<close>, that of the calls that remove an object from \<open>unlink_script\<close> (0 is
  success, as is the end of the script). A semaphore is represented by its name.
\<close>

section \<open>System calls\<close>

definition os_call :: "ft_state \<Rightarrow> int \<times> ft_state" where
  "os_call s =
    (case call_script s of [] \<Rightarrow> (0, s)
     | e # es \<Rightarrow> if e = 0 then (0, s\<lparr>call_script := es\<rparr>) else (- 1, s\<lparr>call_script := es, errno := e\<rparr>))"

text \<open>The same for \<^verbatim>\<open>unlink\<close> and \<^verbatim>\<open>shm_unlink\<close>.\<close>

definition os_unlink :: "ft_state \<Rightarrow> int \<times> ft_state" where
  "os_unlink s =
    (case unlink_script s of [] \<Rightarrow> (0, s)
     | e # es \<Rightarrow> if e = 0 then (0, s\<lparr>unlink_script := es\<rparr>) else (- 1, s\<lparr>unlink_script := es, errno := e\<rparr>))"

text \<open>The test of the intercepted functions for a real function that was not found.\<close>

definition check_missing_real :: "string \<Rightarrow> ft_state \<Rightarrow> bool \<times> ft_state" where
  "check_missing_real name s = (if missing_real s name then (False, s\<lparr>errno := ENOSYS\<rparr>) else (True, s))"

text \<open>
  An \<^verbatim>\<open>exit()\<close> that keeps the state, so that what an ending process leaves behind in the system can be stated, and the
  same without it.
\<close>

datatype wrapper_exit = Stopped (stop_status: int) (stop_diag: string) (stop_state: ft_state)

type_synonym 'a stoppable = "wrapper_exit + 'a"

definition stop_bind :: "'a stoppable \<Rightarrow> ('a \<Rightarrow> 'b stoppable) \<Rightarrow> 'b stoppable" where
  "stop_bind m f = (case m of Inl e \<Rightarrow> Inl e | Inr x \<Rightarrow> f x)"

text \<open>A system call whose failure is reported and ends the process, after some cleaning up.\<close>

definition checked_call :: "string \<Rightarrow> (ft_state \<Rightarrow> ft_state) \<Rightarrow> ft_state \<Rightarrow> ft_state stoppable" where
  "checked_call diag cleanup s =
    (case os_call s of (r, s) \<Rightarrow> if r = - 1 then Inl (Stopped EXIT_FAILURE diag (cleanup s)) else Inr s)"

definition exit_of :: "'a stoppable \<Rightarrow> 'a exitable" where
  "exit_of m = (case m of Inl e \<Rightarrow> Inl (Exit (stop_status e) (stop_diag e)) | Inr x \<Rightarrow> Inr x)"

section \<open>The semaphores of \<^verbatim>\<open>ft_sem.c\<close>\<close>

definition ft_sem_name_to_path :: "string \<Rightarrow> string option" where
  "ft_sem_name_to_path name =
    (case strstr name ''/faketime_sem_'' of
       None \<Rightarrow> None
     | Some p \<Rightarrow> Some (take 255 (''/dev/shm/faketime_lock_'' @ drop (p + length ''/faketime_sem_'') name)))"

text \<open>\<^verbatim>\<open>open\<close> with \<^verbatim>\<open>O_CREAT|O_EXCL\<close> fails on an existing file; the plain one on a missing one.\<close>

definition ft_sem_create :: "string \<Rightarrow> ft_state \<Rightarrow> string option \<times> ft_state" where
  "ft_sem_create name s =
    (case ft_sem_name_to_path name of
       None \<Rightarrow> (None, s)
     | Some path \<Rightarrow>
        if path \<in> set (lock_files s) then (None, s\<lparr>errno := 17\<rparr>)
        else case os_call s of (r, s) \<Rightarrow>
          if r < 0 then (None, s) else (Some (take 255 name), s\<lparr>lock_files := path # lock_files s\<rparr>))"

definition ft_sem_open :: "string \<Rightarrow> ft_state \<Rightarrow> string option \<times> ft_state" where
  "ft_sem_open name s =
    (case ft_sem_name_to_path name of
       None \<Rightarrow> (None, s)
     | Some path \<Rightarrow>
        if path \<notin> set (lock_files s) then (None, s\<lparr>errno := 2\<rparr>)
        else case os_call s of (r, s) \<Rightarrow> if r < 0 then (None, s) else (Some (take 255 name), s))"

definition ft_sem_close :: "ft_state \<Rightarrow> int \<times> ft_state" where
  "ft_sem_close s = os_call s"

definition ft_sem_unlink :: "string \<Rightarrow> ft_state \<Rightarrow> int \<times> ft_state" where
  "ft_sem_unlink name s =
    (case ft_sem_name_to_path name of
       None \<Rightarrow> (- 1, s)
     | Some path \<Rightarrow>
        case os_unlink s of (r, s) \<Rightarrow>
        if r = - 1 then (- 1, s)
        else if path \<in> set (lock_files s) then (0, s\<lparr>lock_files := filter (\<lambda>p. p \<noteq> path) (lock_files s)\<rparr>)
        else (- 1, s\<lparr>errno := 2\<rparr>))"

definition shm_unlink :: "string \<Rightarrow> ft_state \<Rightarrow> int \<times> ft_state" where
  "shm_unlink name s =
    (case os_unlink s of (r, s) \<Rightarrow>
     if r = - 1 then (- 1, s)
     else if map_of (shm_objs s) name \<noteq> None then (0, s\<lparr>shm_objs := AList.delete name (shm_objs s)\<rparr>)
     else (- 1, s\<lparr>errno := 2\<rparr>))"

section \<open>Creation\<close>

text \<open>Both objects are removed again, as far as the system lets them; the results are ignored.\<close>

definition unlink_both :: "string \<Rightarrow> string \<Rightarrow> ft_state \<Rightarrow> ft_state" where
  "unlink_both sem shm_name s = snd (shm_unlink shm_name (snd (ft_sem_unlink sem s)))"

text \<open>What a failing creation does before it ends the process; unmapping and closing the object leave no trace.\<close>

definition ft_shm_cleanup_created :: "string \<Rightarrow> string \<Rightarrow> bool \<Rightarrow> ft_state \<Rightarrow> ft_state" where
  "ft_shm_cleanup_created sem shm_name is_locked s =
    (let s = (if is_locked then snd (ft_sem_unlock s) else s)
     in unlink_both sem shm_name (snd (ft_sem_close s)))"

text \<open>The part of \<^verbatim>\<open>ft_shm_create\<close> behind \<^verbatim>\<open>shm_open\<close>: sizing, mapping and filling the object.\<close>

definition ft_shm_fill :: "string \<Rightarrow> string \<Rightarrow> ft_state \<Rightarrow> ft_state stoppable" where
  "ft_shm_fill sem shm_name s =
    (let cleanup = ft_shm_cleanup_created sem shm_name
     in stop_bind (checked_call ''libfaketime: In ft_shm_create(), ftruncate failed'' (cleanup False) s) (\<lambda>s.
        stop_bind (checked_call ''libfaketime: In ft_shm_create(), mmap failed'' (cleanup False) s) (\<lambda>s.
        stop_bind (checked_call ''libfaketime: In ft_shm_create(), close failed'' (cleanup False) s) (\<lambda>s.
        case ft_sem_lock s of (r, s) \<Rightarrow>
        if r = - 1 then Inl (Stopped EXIT_FAILURE ''libfaketime: In ft_shm_create(), ft_sem_lock failed'' (cleanup False s))
        else let s = s\<lparr>shm_objs := AList.update shm_name (sizeof_ft_shared_s, new_shared) (shm_objs s)\<rparr>
        in case ft_sem_unlock s of (r, s) \<Rightarrow>
        if r = - 1 then Inl (Stopped EXIT_FAILURE ''libfaketime: In ft_shm_create(), ft_sem_unlock failed'' (cleanup True s))
        else checked_call ''libfaketime: In ft_shm_create(), munmap failed'' (cleanup False) s))))"

text \<open>The part behind it: a check that the semaphore can be opened, and the publication of the names.\<close>

definition ft_shm_publish :: "string \<Rightarrow> string \<Rightarrow> string \<Rightarrow> ft_state \<Rightarrow> ft_state" where
  "ft_shm_publish sem sem_name shm_name s =
    (case ft_sem_close s of (r, s) \<Rightarrow>
     if r = - 1 then unlink_both sem shm_name s
     else case ft_sem_open sem_name s of (t, s) \<Rightarrow>
       (case t of None \<Rightarrow> unlink_both sem shm_name s
        | Some _ \<Rightarrow>
           case ft_sem_close s of (_, s) \<Rightarrow>
           case os_call s of (r, s) \<Rightarrow>
           if r = - 1 then unlink_both sem shm_name s
           else (setenv ''FAKETIME_SHARED'' (sem_name @ '' '' @ shm_name) s)\<lparr>shmCreator := True\<rparr>))"

definition ft_shm_creation :: "ft_state \<Rightarrow> ft_state stoppable" where
  "ft_shm_creation s =
    (case check_missing_real ''getpid'' s of (ok, s) \<Rightarrow>
     if \<not> ok then Inr s
     else let pid = self_pid s; sem_name = ''/faketime_sem_'' @ show_int pid; shm_name = ''/faketime_shm_'' @ show_int pid
     in if length sem_name \<ge> 256 \<or> length shm_name \<ge> 256 then Inr s
        else case ft_sem_create sem_name s of (sem, s) \<Rightarrow>
          (case sem of None \<Rightarrow> Inr s
           | Some sem \<Rightarrow>
              if map_of (shm_objs s) shm_name \<noteq> None
              then (case ft_sem_close s of (_, s) \<Rightarrow> Inr (snd (ft_sem_unlink sem s)))
              else case os_call s of (r, s) \<Rightarrow>
                if r = - 1 then (case ft_sem_close s of (_, s) \<Rightarrow> Inr (snd (ft_sem_unlink sem s)))
                else stop_bind (ft_shm_fill sem shm_name (s\<lparr>shm_objs := AList.update shm_name (0, new_shared) (shm_objs s)\<rparr>))
                       (\<lambda>s. Inr (ft_shm_publish sem sem_name shm_name s))))"

text \<open>The rest of the library does not look at the state of an ended process.\<close>

definition ft_shm_create :: "ft_state \<Rightarrow> ft_state exitable" where
  "ft_shm_create s = exit_of (ft_shm_creation s)"

section \<open>Attaching\<close>

text \<open>The shared memory of a name: opened, measured, mapped and validated.\<close>

definition ft_shm_map :: "string \<Rightarrow> ft_state \<Rightarrow> ft_state exitable" where
  "ft_shm_map shm_name s =
    (case os_call s of (r, s) \<Rightarrow>
     (case map_of (shm_objs s) shm_name of
        None \<Rightarrow> Inl (Exit 1 ''libfaketime: In ft_shm_init(), shm_open failed'')
      | Some (st_size, contents) \<Rightarrow>
        if r = - 1 then Inl (Exit 1 ''libfaketime: In ft_shm_init(), shm_open failed'')
        else if missing_real s ''fstat'' \<and> missing_real s ''fxstat'' then Inl (Exit 1 ''libfaketime: In ft_shm_init(), fstat on shared memory failed'')
        else case os_call s of (r, s) \<Rightarrow>
        if r = - 1 then Inl (Exit 1 ''libfaketime: In ft_shm_init(), fstat on shared memory failed'')
        else if st_size < 0 \<or> st_size < sizeof_ft_shared_s then Inl (Exit 1 ''libfaketime: In ft_shm_init(), shared memory is too small'')
        else case os_call s of (r, s) \<Rightarrow>
        if r = - 1 then Inl (Exit 1 ''libfaketime: In ft_shm_init(), mmap failed'')
        else if \<not> valid_shared_header (Some contents) then Inl (Exit 1 ''libfaketime: In ft_shm_init(), incompatible shared-memory header'')
        else case os_call s of (r, s) \<Rightarrow>
        if r = - 1 then Inl (Exit 1 ''libfaketime: In ft_shm_init(), close failed'')
        else Inr (s\<lparr>shm := contents, ft_shared_mapped := True\<rparr>)))"

definition FT_SHM_RETRY_LIMIT :: nat where "FT_SHM_RETRY_LIMIT = 3"

text \<open>The loop \<^verbatim>\<open>retry_shared_objects\<close>: replace a stale pair of objects, a bounded number of times.\<close>

function ft_shm_attach :: "nat \<Rightarrow> ft_state \<Rightarrow> ft_state exitable" where
  "ft_shm_attach retry_count s =
    (case getenv ''FAKETIME_SHARED'' s of
       None \<Rightarrow> Inr s
     | Some env \<Rightarrow>
        (case scan_word 255 env of
           None \<Rightarrow> Inl (Exit 1 (''libfaketime: In ft_shm_init(), error parsing semaphore name and shared memory id from string: '' @ env))
         | Some (sem_name, r) \<Rightarrow>
           (case scan_word 255 r of
              None \<Rightarrow> Inl (Exit 1 (''libfaketime: In ft_shm_init(), error parsing semaphore name and shared memory id from string: '' @ env))
            | Some (shm_name, _) \<Rightarrow>
               (case ft_sem_open sem_name s of (t, s) \<Rightarrow>
                  if t = None then
                    (if shmCreator s then Inl (Exit 1 ''libfaketime: In ft_shm_init(), sem_open failed'')
                     else if retry_count + 1 > FT_SHM_RETRY_LIMIT
                     then Inl (Exit 1 ''libfaketime: In ft_shm_init(), sem_open failed and recreation attempts failed'')
                     else exit_bind (ft_shm_create (unsetenv ''FAKETIME_SHARED'' s)) (ft_shm_attach (retry_count + 1)))
                  else ft_shm_map shm_name (s\<lparr>shared_sem_initialized := True\<rparr>)))))"
  by pat_completeness auto
termination
  by (relation "measure (\<lambda>(n, s). FT_SHM_RETRY_LIMIT - n)") auto

definition ft_shm_really_init :: "ft_state \<Rightarrow> ft_state exitable" where
  "ft_shm_really_init s =
    exit_bind (if getenv ''FAKETIME_SHARED'' s = None then ft_shm_create s else Inr s) (\<lambda>s.
    exit_bind (case getenv ''FAKETIME_SHARED'' s of
                 None \<Rightarrow> Inr s
               | Some env \<Rightarrow>
                  (case parse_shared_objects env of
                     None \<Rightarrow> Inl (Exit 1 (''libfaketime: In ft_shm_init(), error parsing semaphore name and shared memory id from string: '' @ env))
                   | Some (sem_name, shm_name) \<Rightarrow>
                      case ft_sem_open sem_name s of (t, s) \<Rightarrow>
                        if t = None then ft_shm_create s else Inr (snd (ft_sem_close s)))) (\<lambda>s.
    exit_bind (ft_shm_attach 1 s) (\<lambda>s.
      Inr (if getenv ''FAKETIME_FLSHM'' s \<noteq> None then unsetenv ''FAKETIME_SHARED'' s else s))))"

section \<open>Once-only initialisation\<close>

text \<open>
  \<^verbatim>\<open>ft_init_once_generic\<close> for a state variable read by \<open>get\<close> and written by \<open>put\<close>: \<open>once\<close> is the
  result of \<^verbatim>\<open>pthread_once\<close>, \<open>lock\<close> that of \<^verbatim>\<open>pthread_mutex_lock\<close> (35 is \<^verbatim>\<open>EDEADLK\<close>: this thread is
  initialising already).
\<close>

abbreviation (input) EDEADLK :: int where "EDEADLK \<equiv> 35"

definition ft_init_once_generic ::
  "(ft_state \<Rightarrow> ft_init_state) \<Rightarrow> (ft_init_state \<Rightarrow> ft_state \<Rightarrow> ft_state) \<Rightarrow> int \<Rightarrow> int \<Rightarrow>
    (ft_state \<Rightarrow> ft_state exitable) \<Rightarrow> ft_state \<Rightarrow> (bool \<times> ft_state) exitable" where
  "ft_init_once_generic get put once lock init s =
    (if once \<noteq> 0 then Inr (False, (put FT_INIT_FAILED s)\<lparr>errno := once\<rparr>)
     else if get s = FT_INIT_FAILED then Inr (False, s)
     else if lock = EDEADLK \<and> get s = FT_INIT_INITIALIZING then Inr (True, s)
     else if lock = 0 then
       exit_bind (if get s = FT_INIT_UNINITIALIZED
                  then exit_bind (init (put FT_INIT_INITIALIZING s)) (\<lambda>s. Inr (put FT_INIT_READY s))
                  else Inr s)
         (\<lambda>s. Inr (get s = FT_INIT_READY, s))
     else Inr (False, (put FT_INIT_FAILED s)\<lparr>errno := lock\<rparr>))"

section \<open>Lemmas\<close>

lemma exit_of_simps [simp]:
  "exit_of (Inl (Stopped n d s)) = Inl (Exit n d)" "exit_of (Inr x) = Inr x"
  "exit_of (stop_bind m f) = exit_bind (exit_of m) (\<lambda>x. exit_of (f x))"
  "exit_of (if b then m else m') = (if b then exit_of m else exit_of m')"
  "exit_of (case q of (x, y) \<Rightarrow> g x y) = (case q of (x, y) \<Rightarrow> exit_of (g x y))"
  "exit_of (case z of None \<Rightarrow> m | Some w \<Rightarrow> h w) = (case z of None \<Rightarrow> exit_of m | Some w \<Rightarrow> exit_of (h w))"
  by (simp_all add: exit_of_def stop_bind_def exit_bind_def split: sum.split prod.split option.split)

lemma exit_of_checked_call [simp]:
  "exit_of (checked_call d c s) = (case os_call s of (r, s) \<Rightarrow> if r = - 1 then Inl (Exit EXIT_FAILURE d) else Inr s)"
  by (simp add: checked_call_def split: prod.split)

text \<open>Creation without what it leaves behind when it fails.\<close>

lemma ft_shm_fill_exit: "exit_of (ft_shm_fill sem shm_name s) =
    (case os_call s of (r, s) \<Rightarrow>
     if r = - 1 then Inl (Exit EXIT_FAILURE ''libfaketime: In ft_shm_create(), ftruncate failed'')
     else case os_call s of (r, s) \<Rightarrow>
     if r = - 1 then Inl (Exit EXIT_FAILURE ''libfaketime: In ft_shm_create(), mmap failed'')
     else case os_call s of (r, s) \<Rightarrow>
     if r = - 1 then Inl (Exit EXIT_FAILURE ''libfaketime: In ft_shm_create(), close failed'')
     else case ft_sem_lock s of (r, s) \<Rightarrow>
     if r = - 1 then Inl (Exit EXIT_FAILURE ''libfaketime: In ft_shm_create(), ft_sem_lock failed'')
     else let s = s\<lparr>shm_objs := AList.update shm_name (sizeof_ft_shared_s, new_shared) (shm_objs s)\<rparr>
     in case ft_sem_unlock s of (r, s) \<Rightarrow>
     if r = - 1 then Inl (Exit EXIT_FAILURE ''libfaketime: In ft_shm_create(), ft_sem_unlock failed'')
     else case os_call s of (r, s) \<Rightarrow>
     if r = - 1 then Inl (Exit EXIT_FAILURE ''libfaketime: In ft_shm_create(), munmap failed'')
     else Inr s)"
  unfolding ft_shm_fill_def Let_def by (simp add: split_def exit_bind_def)

lemma ft_shm_create_unfold: "ft_shm_create s =
    (case check_missing_real ''getpid'' s of (ok, s) \<Rightarrow>
     if \<not> ok then Inr s
     else let pid = self_pid s; sem_name = ''/faketime_sem_'' @ show_int pid; shm_name = ''/faketime_shm_'' @ show_int pid
     in if length sem_name \<ge> 256 \<or> length shm_name \<ge> 256 then Inr s
        else case ft_sem_create sem_name s of (sem, s) \<Rightarrow>
          (case sem of None \<Rightarrow> Inr s
           | Some sem \<Rightarrow>
              if map_of (shm_objs s) shm_name \<noteq> None
              then (case ft_sem_close s of (_, s) \<Rightarrow> Inr (snd (ft_sem_unlink sem s)))
              else case os_call s of (r, s) \<Rightarrow>
                if r = - 1 then (case ft_sem_close s of (_, s) \<Rightarrow> Inr (snd (ft_sem_unlink sem s)))
                else exit_bind (exit_of (ft_shm_fill sem shm_name (s\<lparr>shm_objs := AList.update shm_name (0, new_shared) (shm_objs s)\<rparr>)))
                       (\<lambda>s. Inr (ft_shm_publish sem sem_name shm_name s))))"
  unfolding ft_shm_create_def ft_shm_creation_def Let_def exit_of_simps ..

declare ft_shm_attach.simps [simp del]

lemma os_call_ok [simp]: "call_script s = [] \<Longrightarrow> os_call s = (0, s)"
  by (simp add: os_call_def)

lemma sem_path: "ft_sem_name_to_path (''/faketime_sem_'' @ d) = Some (take 255 (''/dev/shm/faketime_lock_'' @ d))"
proof -
  have "str_prefix ''/faketime_sem_'' (''/faketime_sem_'' @ d)" by (simp add: str_prefix_def)
  then have "strstr (''/faketime_sem_'' @ d) ''/faketime_sem_'' = Some 0" by (subst strstr.simps) (simp only: if_True)
  then show ?thesis by (simp add: ft_sem_name_to_path_def)
qed

lemma new_shared_valid: "valid_shared_header (Some new_shared)"
  by (simp add: valid_shared_header_def ft_shared_header_valid_def new_shared_def ft_shared_time_valid_def)

lemma show_int_nonneg: "0 \<le> n \<Longrightarrow> show_int n = show_nat (nat n)"
  by (simp add: show_int_def)

definition sem_name_of :: "int \<Rightarrow> string" where "sem_name_of p = ''/faketime_sem_'' @ show_int p"
definition shm_name_of :: "int \<Rightarrow> string" where "shm_name_of p = ''/faketime_shm_'' @ show_int p"
definition lock_path_of :: "int \<Rightarrow> string" where "lock_path_of p = ''/dev/shm/faketime_lock_'' @ show_int p"
definition shared_env_of :: "int \<Rightarrow> string" where "shared_env_of p = sem_name_of p @ '' '' @ shm_name_of p"

text \<open>A process id as the system gives them: a non-negative \<^verbatim>\<open>int\<close>.\<close>

definition pid_ok :: "int \<Rightarrow> bool" where
  "pid_ok p \<longleftrightarrow> 0 \<le> p \<and> p \<le> 2147483647"

lemma pid_length: "pid_ok p \<Longrightarrow> length (show_int p) \<le> 10"
proof -
  assume p: "pid_ok p"
  then have "nat p < 10 ^ 10" by (simp add: pid_ok_def nat_less_iff)
  then show ?thesis using p show_nat_length [of "nat p" 10] by (simp add: pid_ok_def show_int_nonneg)
qed

lemma sem_path_of: "pid_ok p \<Longrightarrow> ft_sem_name_to_path (sem_name_of p) = Some (lock_path_of p)"
proof -
  assume "pid_ok p"
  then have "length (''/dev/shm/faketime_lock_'' @ show_int p) \<le> 255" using pid_length by fastforce
  then show ?thesis unfolding sem_name_of_def lock_path_of_def sem_path by (simp only: take_all)
qed

lemma show_int_word:
  assumes "pid_ok p"
  shows "\<forall>c \<in> set (show_int p). isdigit c" "show_int p \<noteq> []"
  using assms by (simp_all add: pid_ok_def show_int_nonneg show_nat_digits show_nat_nonempty)

lemma name_words:
  assumes "pid_ok p"
  shows "\<forall>c \<in> set (sem_name_of p). \<not> isspace c" "\<forall>c \<in> set (shm_name_of p). \<not> isspace c"
proof -
  have "\<forall>c \<in> set (show_int p). \<not> isspace c" using show_int_word [OF assms] isdigit_not by blast
  then show "\<forall>c \<in> set (sem_name_of p). \<not> isspace c" "\<forall>c \<in> set (shm_name_of p). \<not> isspace c"
    unfolding sem_name_of_def shm_name_of_def by (simp_all only: set_append ball_Un) (simp_all add: isspace_def)
qed

lemma scan_env:
  assumes "pid_ok p"
  shows "scan_word 255 (shared_env_of p) = Some (sem_name_of p, '' '' @ shm_name_of p)"
    and "scan_word 255 ('' '' @ shm_name_of p) = Some (shm_name_of p, [])"
proof -
  note w = name_words [OF assms]
  have sp: "isspace (CHR '' '')" by (simp add: isspace_def)
  have l: "length (sem_name_of p) \<le> 255" "length (shm_name_of p) \<le> 255" "sem_name_of p \<noteq> []" "shm_name_of p \<noteq> []"
    using pid_length [OF assms] by (simp_all add: sem_name_of_def shm_name_of_def)
  show "scan_word 255 (shared_env_of p) = Some (sem_name_of p, '' '' @ shm_name_of p)"
    unfolding shared_env_of_def using w l sp by (intro scan_word_word) simp_all
  have "scan_word 255 ('' '' @ shm_name_of p) = scan_word 255 (shm_name_of p @ [])"
    using scan_word_space [OF sp] by simp
  also have "\<dots> = Some (shm_name_of p, [])" using w l by (intro scan_word_word) simp_all
  finally show "scan_word 255 ('' '' @ shm_name_of p) = Some (shm_name_of p, [])" .
qed

lemma parse_env:
  assumes "pid_ok p"
  shows "parse_shared_objects (shared_env_of p) = Some (sem_name_of p, shm_name_of p)"
proof -
  note d = show_int_word [OF assms]
  have "valid_shared_name (sem_name_of p) ''/faketime_sem_''"
    unfolding sem_name_of_def by (rule valid_shared_name_digits [OF d(2) d(1)])
  moreover have "valid_shared_name (shm_name_of p) ''/faketime_shm_''"
    unfolding shm_name_of_def by (rule valid_shared_name_digits [OF d(2) d(1)])
  moreover have "scan_word 1 [] = None" by (simp add: scan_word_def)
  ultimately show ?thesis
    using scan_env [OF assms] by (simp add: parse_shared_objects_def del: append.simps)
qed

lemma getenv_setenv: "getenv n (setenv n v s) = Some v"
  by (simp add: getenv_def setenv_def update_conv)

lemma getenv_unsetenv: "getenv n (unsetenv n s) = None"
  by (simp add: getenv_def unsetenv_def delete_conv)

text \<open>A process that finds no shared objects, and no call of which fails.\<close>

definition fresh_process :: "ft_state \<Rightarrow> bool" where
  "fresh_process s \<longleftrightarrow> pid_ok (self_pid s) \<and> getenv ''FAKETIME_SHARED'' s = None \<and> getenv ''FAKETIME_FLSHM'' s = None \<and>
     lock_path_of (self_pid s) \<notin> set (lock_files s) \<and> map_of (shm_objs s) (shm_name_of (self_pid s)) = None \<and>
     call_script s = [] \<and> lock_script s = [] \<and> unlock_script s = [] \<and> \<not> missing_real s ''fstat'' \<and> \<not> missing_real s ''getpid''"

definition created :: "ft_state \<Rightarrow> ft_state" where
  "created s = (setenv ''FAKETIME_SHARED'' (shared_env_of (self_pid s)) s)\<lparr>
     lock_files := lock_path_of (self_pid s) # lock_files s, sem_held := False,
     shm_objs := AList.update (shm_name_of (self_pid s)) (sizeof_ft_shared_s, new_shared)
       (AList.update (shm_name_of (self_pid s)) (0, new_shared) (shm_objs s)), shmCreator := True\<rparr>"

lemma ft_shm_create_fresh:
  assumes "fresh_process s"
  shows "ft_shm_create s = Inr (created s)"
proof -
  let ?p = "self_pid s"
  have l: "length (sem_name_of ?p) < 256" "length (shm_name_of ?p) < 256" "take 255 (sem_name_of ?p) = sem_name_of ?p"
    using assms pid_length [of ?p] by (simp_all add: fresh_process_def sem_name_of_def shm_name_of_def)
  have pa: "ft_sem_name_to_path (sem_name_of ?p) = Some (lock_path_of ?p)" using assms by (intro sem_path_of) (simp add: fresh_process_def)
  show ?thesis
    using assms l pa unfolding ft_shm_create_unfold Let_def sem_name_of_def [symmetric] shm_name_of_def [symmetric]
    by (simp add: fresh_process_def check_missing_real_def ft_sem_create_def ft_shm_fill_exit ft_shm_publish_def ft_sem_close_def ft_sem_open_def
        ft_sem_lock_def ft_sem_unlock_def created_def setenv_def shared_env_of_def)
qed

lemma getenv_created: "getenv ''FAKETIME_SHARED'' (created s) = Some (shared_env_of (self_pid s))"
  "getenv ''FAKETIME_FLSHM'' (created s) = getenv ''FAKETIME_FLSHM'' s"
  by (simp_all add: created_def getenv_def setenv_def update_conv)

text \<open>A process that finds the pair of objects that process \<open>p\<close> has published, with contents \<open>c\<close>.\<close>

definition can_attach :: "int \<Rightarrow> ft_shared_s \<Rightarrow> ft_state \<Rightarrow> bool" where
  "can_attach p c s \<longleftrightarrow> pid_ok p \<and> getenv ''FAKETIME_SHARED'' s = Some (shared_env_of p) \<and>
     getenv ''FAKETIME_FLSHM'' s = None \<and> lock_path_of p \<in> set (lock_files s) \<and>
     map_of (shm_objs s) (shm_name_of p) = Some (sizeof_ft_shared_s, c) \<and> valid_shared_header (Some c) \<and>
     call_script s = [] \<and> \<not> missing_real s ''fstat''"

lemma ft_sem_open_attach:
  assumes "can_attach p c s" shows "ft_sem_open (sem_name_of p) s = (Some (sem_name_of p), s)"
proof -
  have "take 255 (sem_name_of p) = sem_name_of p" using assms pid_length [of p] by (simp add: can_attach_def sem_name_of_def)
  then show ?thesis using assms sem_path_of [of p] by (simp add: can_attach_def ft_sem_open_def)
qed

definition attached :: "ft_shared_s \<Rightarrow> ft_state \<Rightarrow> ft_state" where
  "attached c s = s\<lparr>shm := c, shared_sem_initialized := True, ft_shared_mapped := True\<rparr>"

lemma ft_shm_attach_ok:
  assumes "can_attach p c s" shows "ft_shm_attach n s = Inr (attached c s)"
proof -
  have "pid_ok p" using assms by (simp add: can_attach_def)
  note sc = scan_env [OF this]
  have m: "ft_shm_map (shm_name_of p) (s\<lparr>shared_sem_initialized := True\<rparr>) = Inr (attached c s)"
    using assms by (simp add: ft_shm_map_def can_attach_def attached_def sizeof_ft_shared_s_def)
  show ?thesis
    using assms sc ft_sem_open_attach [OF assms] m
    by (subst ft_shm_attach.simps) (simp add: can_attach_def del: append.simps)
qed

lemma ft_shm_really_init_attached:
  assumes "can_attach p c s" shows "ft_shm_really_init s = Inr (attached c s)"
proof -
  have e: "getenv n (attached c s) = getenv n s" for n by (simp add: attached_def getenv_def)
  have p: "parse_shared_objects (shared_env_of p) = Some (sem_name_of p, shm_name_of p)"
    using assms by (intro parse_env) (simp add: can_attach_def)
  show ?thesis
    using assms p ft_sem_open_attach [OF assms] ft_shm_attach_ok [OF assms] e
    by (simp add: ft_shm_really_init_def can_attach_def ft_sem_close_def)
qed

lemma created_can_attach: "fresh_process s \<Longrightarrow> can_attach (self_pid s) new_shared (created s)"
  using getenv_created [of s] new_shared_valid
  by (simp add: fresh_process_def can_attach_def) (simp add: created_def setenv_def update_conv)

lemma ft_shm_really_init_fresh:
  assumes "fresh_process s"
  shows "ft_shm_really_init s = Inr (attached new_shared (created s))"
proof -
  have "getenv ''FAKETIME_SHARED'' s = None" using assms by (simp add: fresh_process_def)
  moreover have "getenv ''FAKETIME_SHARED'' (created s) \<noteq> None" by (simp add: getenv_created)
  ultimately have "ft_shm_really_init s = ft_shm_really_init (created s)"
    unfolding ft_shm_really_init_def by (simp only: ft_shm_create_fresh [OF assms] if_True if_False exit_bind_Inr refl)
  then show ?thesis using ft_shm_really_init_attached [OF created_can_attach [OF assms]] by simp
qed

section \<open>Examples\<close>

text \<open>A process and a child of it that inherits its environment.\<close>

definition sample_parent :: ft_state where "sample_parent = static_state sample_os"
definition sample_child :: ft_state where "sample_child = (created sample_parent)\<lparr>self_pid := 43, shmCreator := False\<rparr>"

lemma sample_parent_fresh: "fresh_process sample_parent"
  by (simp add: sample_parent_def fresh_process_def static_defs getenv_def pid_ok_def)

lemma sample_child_attach: "can_attach 42 new_shared sample_child"
  using created_can_attach [OF sample_parent_fresh]
  by (simp add: sample_child_def can_attach_def getenv_def) (simp add: sample_parent_def static_defs)

section \<open>Initialising once\<close>

text \<open>A sequence of calls, each with what \<^verbatim>\<open>pthread_once\<close> and \<^verbatim>\<open>pthread_mutex_lock\<close> give it.\<close>

fun once_calls ::
  "(ft_state \<Rightarrow> ft_init_state) \<Rightarrow> (ft_init_state \<Rightarrow> ft_state \<Rightarrow> ft_state) \<Rightarrow> (ft_state \<Rightarrow> ft_state exitable) \<Rightarrow>
    (int \<times> int) list \<Rightarrow> ft_state \<Rightarrow> ft_state exitable" where
  "once_calls get put init [] s = Inr s" |
  "once_calls get put init ((once, lock) # cs) s =
    exit_bind (ft_init_once_generic get put once lock init s) (\<lambda>(b, s). once_calls get put init cs s)"

text \<open>
  The interface \<^verbatim>\<open>ft_init_once_generic\<close> needs of its state variable: what is written is read back,
  a write replaces the previous one, and \<^verbatim>\<open>errno\<close> is another variable.
\<close>

locale init_cell =
  fixes get :: "ft_state \<Rightarrow> ft_init_state" and put :: "ft_init_state \<Rightarrow> ft_state \<Rightarrow> ft_state"
  assumes get_put: "get (put c s) = c"
    and put_put: "put c (put d s) = put c s"
    and put_get: "put (get s) s = s"
    and get_errno: "get (s\<lparr>errno := e\<rparr>) = get s"
    and put_errno: "put c (s\<lparr>errno := e\<rparr>) = (put c s)\<lparr>errno := e\<rparr>"
begin

lemmas cell_laws = get_put put_put put_get get_errno put_errno

lemma once_started:
  assumes "get s \<in> {FT_INIT_READY, FT_INIT_FAILED}"
  shows "\<exists>b c e. ft_init_once_generic get put once lock init s = Inr (b, (put c s)\<lparr>errno := e\<rparr>) \<and> c \<in> {FT_INIT_READY, FT_INIT_FAILED}"
proof -
  have "ft_init_once_generic get put once lock init s = Inr (False, (put FT_INIT_FAILED s)\<lparr>errno := once\<rparr>) \<or>
      ft_init_once_generic get put once lock init s = Inr (False, (put FT_INIT_FAILED s)\<lparr>errno := lock\<rparr>) \<or>
      ft_init_once_generic get put once lock init s = Inr (get s = FT_INIT_READY, (put (get s) s)\<lparr>errno := errno s\<rparr>)"
    using assms by (auto simp: ft_init_once_generic_def put_get)
  then show ?thesis using assms by (metis insert_iff)
qed

lemma once_uninitialized:
  assumes "get s = FT_INIT_UNINITIALIZED" "init (put FT_INIT_INITIALIZING s) = Inr s1"
  shows "ft_init_once_generic get put once lock init s =
    Inr (if once = 0 \<and> lock = 0 then (True, put FT_INIT_READY s1)
         else (False, (put FT_INIT_FAILED s)\<lparr>errno := if once \<noteq> 0 then once else lock\<rparr>))"
  using assms by (simp add: ft_init_once_generic_def get_put)

lemma calls_started:
  "get s \<in> {FT_INIT_READY, FT_INIT_FAILED} \<Longrightarrow> \<exists>c e. once_calls get put init cs s = Inr ((put c s)\<lparr>errno := e\<rparr>)"
proof (induction cs arbitrary: s)
  case Nil
  show ?case by (auto simp: put_get intro!: exI [of _ "get s"] exI [of _ "errno s"])
next
  case (Cons a cs)
  obtain once lock where a: "a = (once, lock)" by fastforce
  obtain b c e where *: "ft_init_once_generic get put once lock init s = Inr (b, (put c s)\<lparr>errno := e\<rparr>)" "c \<in> {FT_INIT_READY, FT_INIT_FAILED}"
    using once_started [OF Cons.prems, of once lock init] by blast
  then obtain d e' where "once_calls get put init cs ((put c s)\<lparr>errno := e\<rparr>) = Inr ((put d ((put c s)\<lparr>errno := e\<rparr>))\<lparr>errno := e'\<rparr>)"
    using Cons.IH [of "(put c s)\<lparr>errno := e\<rparr>"] by (auto simp: cell_laws)
  then show ?case using * a by (auto simp: cell_laws)
qed

lemma calls_once:
  assumes "get s = FT_INIT_UNINITIALIZED" "init (put FT_INIT_INITIALIZING s) = Inr s1"
  shows "\<exists>c e. once_calls get put init cs s = Inr ((put c s)\<lparr>errno := e\<rparr>) \<or> once_calls get put init cs s = Inr ((put c s1)\<lparr>errno := e\<rparr>)"
proof (cases cs)
  case Nil
  then show ?thesis by (auto simp: put_get intro!: exI [of _ "get s"] exI [of _ "errno s"])
next
  case (Cons a cs')
  obtain once lock where a: "a = (once, lock)" by fastforce
  let ?f = "(put FT_INIT_FAILED s)\<lparr>errno := if once \<noteq> 0 then once else lock\<rparr>"
  obtain d x where d: "once_calls get put init cs' (put FT_INIT_READY s1) = Inr ((put d (put FT_INIT_READY s1))\<lparr>errno := x\<rparr>)"
    using calls_started [of "put FT_INIT_READY s1" init cs'] get_put by auto
  obtain e y where e: "once_calls get put init cs' ?f = Inr ((put e ?f)\<lparr>errno := y\<rparr>)"
    using calls_started [of ?f init cs'] by (auto simp: cell_laws)
  have "once_calls get put init cs s = (if once = 0 \<and> lock = 0 then Inr ((put d s1)\<lparr>errno := x\<rparr>) else Inr ((put e s)\<lparr>errno := y\<rparr>))"
    using d e by (simp add: Cons a once_uninitialized [where init = init, OF assms] put_put put_errno)
  then show ?thesis by auto
qed

end

abbreviation (input) put_shm_init :: "ft_init_state \<Rightarrow> ft_state \<Rightarrow> ft_state" where
  "put_shm_init c s \<equiv> s\<lparr>shm_init_state := c\<rparr>"

definition ft_shm_init :: "int \<Rightarrow> int \<Rightarrow> ft_state \<Rightarrow> (bool \<times> ft_state) exitable" where
  "ft_shm_init once lock s = ft_init_once_generic shm_init_state put_shm_init once lock ft_shm_really_init s"

interpretation shm_cell: init_cell shm_init_state put_shm_init
  by unfold_locales simp_all

text \<open>
  Claim C23.
  However many threads ask for the shared memory, and whatever \<^verbatim>\<open>pthread_once\<close> and
  \<^verbatim>\<open>pthread_mutex_lock\<close> return to them, the initialiser runs at most once: the state after all calls
  is the first one or the one the initialiser left, up to the state variable and \<^verbatim>\<open>errno\<close>. The first call whose
  locking works runs it and reports success; one whose \<^verbatim>\<open>pthread_once\<close> or lock fails marks the initialisation as
  failed, with the error number in \<^verbatim>\<open>errno\<close>; and a call from inside the initialiser is let through unchanged.
\<close>

theorem shm_init_once:
  assumes "shm_init_state s = FT_INIT_UNINITIALIZED" "ft_shm_really_init (s\<lparr>shm_init_state := FT_INIT_INITIALIZING\<rparr>) = Inr s1"
  shows "(\<exists>c e. once_calls shm_init_state (\<lambda>c s. s\<lparr>shm_init_state := c\<rparr>) ft_shm_really_init cs s = Inr (s\<lparr>shm_init_state := c, errno := e\<rparr>) \<or>
      once_calls shm_init_state (\<lambda>c s. s\<lparr>shm_init_state := c\<rparr>) ft_shm_really_init cs s = Inr (s1\<lparr>shm_init_state := c, errno := e\<rparr>)) \<and>
    ft_shm_init 0 0 s = Inr (True, s1\<lparr>shm_init_state := FT_INIT_READY\<rparr>) \<and>
    (n \<noteq> 0 \<longrightarrow> ft_shm_init n m s = Inr (False, s\<lparr>shm_init_state := FT_INIT_FAILED, errno := n\<rparr>) \<and>
       ft_shm_init 0 n s = Inr (False, s\<lparr>shm_init_state := FT_INIT_FAILED, errno := n\<rparr>)) \<and>
    ft_shm_init 0 EDEADLK (t\<lparr>shm_init_state := FT_INIT_INITIALIZING\<rparr>) = Inr (True, t\<lparr>shm_init_state := FT_INIT_INITIALIZING\<rparr>)"
  using shm_cell.calls_once [where init = ft_shm_really_init, OF assms, of cs]
    shm_cell.once_uninitialized [where init = ft_shm_really_init, OF assms]
  by (simp_all add: ft_shm_init_def) (simp add: ft_init_once_generic_def)

lemma sample_parent_initializing:
  "shm_init_state sample_parent = FT_INIT_UNINITIALIZED" "fresh_process (sample_parent\<lparr>shm_init_state := FT_INIT_INITIALIZING\<rparr>)"
  using sample_parent_fresh by (simp_all add: fresh_process_def getenv_def) (simp add: sample_parent_def static_defs)

theorem shm_init_once_witness:
  "\<exists>s1 c e. ft_shm_init 0 0 sample_parent = Inr (True, s1) \<and>
     ft_shm_init 0 22 sample_parent = Inr (False, sample_parent\<lparr>shm_init_state := FT_INIT_FAILED, errno := 22\<rparr>) \<and>
     (once_calls shm_init_state (\<lambda>c s. s\<lparr>shm_init_state := c\<rparr>) ft_shm_really_init [(0, 0), (0, 35)] sample_parent = Inr (sample_parent\<lparr>shm_init_state := c, errno := e\<rparr>) \<or>
      once_calls shm_init_state (\<lambda>c s. s\<lparr>shm_init_state := c\<rparr>) ft_shm_really_init [(0, 0), (0, 35)] sample_parent = Inr (s1\<lparr>shm_init_state := c, errno := e\<rparr>))"
proof -
  note f = sample_parent_initializing(1) ft_shm_really_init_fresh [OF sample_parent_initializing(2)]
  show ?thesis using shm_init_once [OF f, of "[(0, 0), (0, 35)]" 22 0] by fastforce
qed

end
