(* ===== verification/Ftpl_Init.thy ===== *)
theory Ftpl_Init
  imports Shm_Lifecycle
begin

text \<open>
  Initialisation: \<^verbatim>\<open>ftpl_really_init\<close> of \<^verbatim>\<open>src/src/libfaketime.c\<close> in the steps it takes, each a
  definition of its own, and \<^verbatim>\<open>ftpl_init\<close>, which runs it once. The real functions are found by name:
  \<open>have_symbol\<close> says which names the dynamic linker resolves, and afterwards \<open>missing_real\<close> which
  of the \<^verbatim>\<open>real_*\<close> pointers are NULL. The state is that of a build with the options of
  \<^verbatim>\<open>src/src/Makefile\<close> and the optional \<^verbatim>\<open>FAKE_RANDOM\<close>, \<^verbatim>\<open>FAKE_PID\<close> and \<^verbatim>\<open>INTERCEPT_SYSCALL\<close>, on Linux with glibc.
\<close>

section \<open>Looking up the real functions\<close>

definition ft_dlvsym :: "string \<Rightarrow> string option \<Rightarrow> 'a os_state_scheme \<Rightarrow> bool" where
  "ft_dlvsym full_name ignore_list s =
    (case ignore_list of
       Some l \<Rightarrow> if str_array_contains l full_name then False else have_symbol s full_name
     | None \<Rightarrow> have_symbol s full_name)"

text \<open>Each \<^verbatim>\<open>real_\<close> pointer with the names that are tried for it, in order.\<close>

definition real_symbols :: "(string \<times> string list) list" where
  "real_symbols =
    [(''stat'', [''stat'']), (''lstat'', [''lstat'']), (''fstat'', [''fstat'']),
     (''xstat'', [''__xstat'']), (''fxstat'', [''__fxstat'']), (''fxstatat'', [''__fxstatat'']), (''lxstat'', [''__lxstat'']),
     (''stat64'', [''stat64'']), (''lstat64'', [''lstat64'']), (''fstat64'', [''fstat64'']),
     (''fstatat'', [''fstatat'']), (''fstatat64'', [''fstatat64'']), (''xstat64'', [''__xstat64'']),
     (''fxstat64'', [''__fxstat64'']), (''fxstatat64'', [''__fxstatat64'']), (''lxstat64'', [''__lxstat64'']),
     (''statx'', [''statx'']), (''time'', [''time'']), (''ftime'', [''ftime'']), (''timespec_get'', [''timespec_get'']),
     (''utimes'', [''utimes'']), (''utime'', [''utime'']), (''utimensat'', [''utimensat'']), (''futimens'', [''futimens'']),
     (''gettimeofday'', [''gettimeofday'']), (''nanosleep'', [''nanosleep'']), (''clock_nanosleep'', [''clock_nanosleep'']),
     (''usleep'', [''usleep'']), (''sleep'', [''sleep'']), (''alarm'', [''alarm'']), (''poll'', [''poll'']), (''ppoll'', [''ppoll'']),
     (''epoll_wait'', [''epoll_wait'']), (''epoll_pwait'', [''epoll_pwait'']), (''select'', [''select'']),
     (''pselect'', [''pselect'']), (''sem_timedwait'', [''sem_timedwait'']), (''sem_clockwait'', [''sem_clockwait'']),
     (''__ftime'', [''__ftime'']), (''__gettimeofday'', [''__gettimeofday'']), (''__clock_gettime'', [''__clock_gettime'']),
     (''getrandom'', [''getrandom'']), (''getentropy'', [''getentropy'']), (''getpid'', [''getpid'']), (''syscall'', [''syscall'']),
     (''pthread_cond_timedwait_225'', [''pthread_cond_timedwait@GLIBC_2.2.5'']),
     (''pthread_cond_timedwait_232'', [''pthread_cond_timedwait@GLIBC_2.3.2'', ''pthread_cond_timedwait'']),
     (''pthread_cond_init_232'', [''pthread_cond_init@GLIBC_2.3.2'', ''pthread_cond_init'']),
     (''pthread_cond_destroy_232'', [''pthread_cond_destroy@GLIBC_2.3.2'', ''pthread_cond_destroy'']),
     (''clock_gettime'', [''__clock_gettime'', ''clock_gettime'']),
     (''clock_gettime64'', [''clock_gettime64'', ''__clock_gettime64'']),
     (''timer_settime_22'', [''timer_settime@GLIBC_2.2'']),
     (''timer_settime_233'', [''timer_settime@GLIBC_2.3.3'', ''timer_settime'']),
     (''timer_gettime_22'', [''timer_gettime@GLIBC_2.2'']),
     (''timer_gettime_233'', [''timer_gettime@GLIBC_2.3.3'', ''timer_gettime'']),
     (''timerfd_create'', [''timerfd_create'']), (''timerfd_gettime'', [''timerfd_gettime'']),
     (''timerfd_settime'', [''timerfd_settime''])]"

definition resolve_symbols :: "ft_state \<Rightarrow> ft_state" where
  "resolve_symbols s =
    (let ignore_list = getenv ''FAKETIME_IGNORE_SYMBOLS'' s
     in s\<lparr>missing_real := (\<lambda>r. case map_of real_symbols r of
            None \<Rightarrow> True
          | Some names \<Rightarrow> \<not> list_ex (\<lambda>n. ft_dlvsym n ignore_list s) names)\<rparr>)"

section \<open>Settings\<close>

text \<open>A setting that is read as a number and stored when the variable exists.\<close>

definition long_setting :: "string \<Rightarrow> (int \<Rightarrow> ft_state \<Rightarrow> ft_state) \<Rightarrow> ft_state \<Rightarrow> ft_state exitable" where
  "long_setting name store s =
    (case getenv name s of
       None \<Rightarrow> Inr s
     | Some v \<Rightarrow> exit_bind (parse_long_setting name v) (\<lambda>n. Inr (store n s)))"

definition init_file_settings :: "ft_state \<Rightarrow> ft_state exitable" where
  "init_file_settings s =
    (let s = (if getenv ''NO_FAKE_STAT'' s \<noteq> None then s\<lparr>fake_stat_disabled := True\<rparr> else s)
     in case getenv ''FAKE_UTIME'' s of
          None \<Rightarrow> Inr s
        | Some v \<Rightarrow>
           if v = [] \<or> hd v \<in> {CHR ''y'', CHR ''Y'', CHR ''t'', CHR ''T''} then Inr (s\<lparr>fake_utime_disabled := 0\<rparr>)
           else exit_bind (parse_long_setting ''FAKE_UTIME'' v) (\<lambda>n. Inr (s\<lparr>fake_utime_disabled := (if n = 0 then 1 else 0)\<rparr>)))"

definition init_cache_settings :: "ft_state \<Rightarrow> ft_state exitable" where
  "init_cache_settings s =
    exit_bind (case getenv ''FAKETIME_CACHE_DURATION'' s of
                 None \<Rightarrow> Inr s
               | Some v \<Rightarrow> exit_bind (parse_long_setting ''FAKETIME_CACHE_DURATION'' v) (\<lambda>n.
                   if \<not> in_s32 n then Inl (Exit EXIT_FAILURE (''libfaketime: FAKETIME_CACHE_DURATION is out of range: '' @ v))
                   else Inr (s\<lparr>cache_duration := n\<rparr>)))
      (\<lambda>s. let s = (if getenv ''FAKETIME_NO_CACHE'' s = Some ''1'' then s\<lparr>cache_enabled := 0\<rparr> else s)
           in Inr (s\<lparr>fake_monotonic_clock := get_fake_monotonic_setting (fake_monotonic_clock s) s\<rparr>))"

section \<open>Commands to skip or to fake\<close>

text \<open>The loop over \<^verbatim>\<open>strtok_r(..., ",", ...)\<close>: whether a token is the name of the program.\<close>

function token_matches :: "string \<Rightarrow> string \<Rightarrow> bool" where
  "token_matches name l =
    (case dropWhile (\<lambda>c. c = CHR '','') l of
       [] \<Rightarrow> False
     | t \<Rightarrow> if takeWhile (\<lambda>c. c \<noteq> CHR '','') t = name then True
            else token_matches name (drop 1 (dropWhile (\<lambda>c. c \<noteq> CHR '','') t)))"
  by pat_completeness auto
termination
proof (relation "measure (\<lambda>(name, l). length l)")
  fix name l :: string and x :: char and xs :: string
  assume e: "dropWhile (\<lambda>c. c = CHR '','') l = x # xs"
  have "length (dropWhile (\<lambda>c. c \<noteq> CHR '','') (x # xs)) \<le> length (x # xs)" by (rule length_dropWhile_le)
  also have "\<dots> \<le> length l" using length_dropWhile_le [of "\<lambda>c. c = CHR '',''" l] e by simp
  finally show "((name, drop 1 (dropWhile (\<lambda>c. c \<noteq> CHR '','') (x # xs))), name, l) \<in> measure (\<lambda>(name, l). length l)"
    using e by (cases l) auto
qed simp

text \<open>The list is searched in a copy that \<^verbatim>\<open>strdup\<close> makes. The result is \<^verbatim>\<open>dont_fake_final\<close> and the state with its mode.\<close>

definition copied_matches :: "string \<Rightarrow> ft_state \<Rightarrow> (bool \<times> ft_state) exitable" where
  "copied_matches l s =
    (case os_call s of (r, s) \<Rightarrow>
     if r = - 1 then Inl (Exit EXIT_FAILURE ''Error: Could not copy the environment variable value.'')
     else Inr (token_matches (progname s) l, s))"

definition init_commands :: "ft_state \<Rightarrow> (bool \<times> ft_state) exitable" where
  "init_commands s =
    exit_bind (case getenv ''FAKETIME_SKIP_CMDS'' s of
                 None \<Rightarrow> Inr (False, s)
               | Some l \<Rightarrow> exit_bind (copied_matches l s) (\<lambda>(m, s). Inr (m, if m then s\<lparr>ft_mode := FT_NOOP\<rparr> else s))) (\<lambda>(final, s).
      case getenv ''FAKETIME_ONLY_CMDS'' s of
        None \<Rightarrow> Inr (final, s)
      | Some l \<Rightarrow>
         if getenv ''FAKETIME_SKIP_CMDS'' s \<noteq> None
         then Inl (Exit EXIT_FAILURE ''Error: Both FAKETIME_SKIP_CMDS and FAKETIME_ONLY_CMDS can't be set.'')
         else exit_bind (copied_matches l s) (\<lambda>(m, s). Inr (if m then (final, s) else (True, s\<lparr>ft_mode := FT_NOOP\<rparr>))))"

section \<open>Limits and spawning\<close>

definition init_limits :: "ft_state \<Rightarrow> ft_state exitable" where
  "init_limits s =
    exit_bind (long_setting ''FAKETIME_START_AFTER_SECONDS'' (\<lambda>n s. s\<lparr>ft_start_after_secs := n, limited_faking := True\<rparr>) s) (\<lambda>s.
    exit_bind (long_setting ''FAKETIME_STOP_AFTER_SECONDS'' (\<lambda>n s. s\<lparr>ft_stop_after_secs := n, limited_faking := True\<rparr>) s) (\<lambda>s.
    exit_bind (long_setting ''FAKETIME_START_AFTER_NUMCALLS'' (\<lambda>n s. s\<lparr>ft_start_after_ncalls := n, limited_faking := True\<rparr>) s)
      (long_setting ''FAKETIME_STOP_AFTER_NUMCALLS'' (\<lambda>n s. s\<lparr>ft_stop_after_ncalls := n, limited_faking := True\<rparr>))))"

definition FT_SPAWN_VALUE_SIZE :: nat where "FT_SPAWN_VALUE_SIZE = 1024"
definition FT_SPAWN_MAX_ARGS :: nat where "FT_SPAWN_MAX_ARGS = 8"

text \<open>The loop over the numbered arguments: none may follow a missing one.\<close>

fun spawn_arguments :: "nat list \<Rightarrow> bool \<Rightarrow> ft_state \<Rightarrow> string list exitable" where
  "spawn_arguments [] missing_argument s = Inr []"
| "spawn_arguments (i # is) missing_argument s =
    (case getenv (''FAKETIME_SPAWN_ARG_'' @ show_nat i) s of
       None \<Rightarrow> spawn_arguments is True s
     | Some argument \<Rightarrow>
        if missing_argument \<or> length argument \<ge> FT_SPAWN_VALUE_SIZE
        then Inl (Exit EXIT_FAILURE ''libfaketime: invalid FAKETIME_SPAWN_ARG configuration'')
        else exit_bind (spawn_arguments is missing_argument s) (\<lambda>as. Inr (argument # as)))"

definition init_spawn :: "ft_state \<Rightarrow> ft_state exitable" where
  "init_spawn s =
    exit_bind (case getenv ''FAKETIME_SPAWN_TARGET'' s of
                 None \<Rightarrow> Inr s
               | Some v \<Rightarrow>
                  if getenv ''FAKETIME_SPAWN_EXEC'' s \<noteq> None
                  then Inl (Exit EXIT_FAILURE ''libfaketime: FAKETIME_SPAWN_TARGET and FAKETIME_SPAWN_EXEC are mutually exclusive'')
                  else Inr (s\<lparr>spawnsupport := True, ft_spawn_target := take (FT_SPAWN_VALUE_SIZE - 1) v\<rparr>)) (\<lambda>s.
    exit_bind (case getenv ''FAKETIME_SPAWN_EXEC'' s of
                 None \<Rightarrow> Inr s
               | Some v \<Rightarrow>
                  if getenv ''FAKETIME_SPAWN_TARGET'' s \<noteq> None \<or> v = [] \<or> length v \<ge> FT_SPAWN_VALUE_SIZE
                  then Inl (Exit EXIT_FAILURE ''libfaketime: invalid FAKETIME_SPAWN_EXEC configuration'')
                  else exit_bind (spawn_arguments [1..<Suc FT_SPAWN_MAX_ARGS] False s) (\<lambda>as.
                         Inr (s\<lparr>ft_spawn_exec := v, ft_spawn_argv := v # as, spawn_exec_support := True, spawnsupport := True\<rparr>)))
      (\<lambda>s. if spawnsupport s then parse_spawn_limits s else Inr s))"

section \<open>Files of timestamps\<close>

text \<open>The descriptor of the file for saving is some number other than -1.\<close>

definition init_save_file :: "ft_state \<Rightarrow> ft_state exitable" where
  "init_save_file s =
    (case getenv ''FAKETIME_SAVE_FILE'' s of
       None \<Rightarrow> Inr s
     | Some path \<Rightarrow>
        case os_call s of (r, s) \<Rightarrow>
          if r = - 1 then Inl (Exit EXIT_FAILURE ''libfaketime: In ftpl_init(), opening file for saving timestamps failed'')
          else Inr (s\<lparr>outfile := 3\<rparr>))"

definition init_load_file :: "ft_state \<Rightarrow> ft_state exitable" where
  "init_load_file s =
    (case getenv ''FAKETIME_LOAD_FILE'' s of
       None \<Rightarrow> Inr s
     | Some path \<Rightarrow>
        case os_call s of (r, s) \<Rightarrow>
        (case data_files s path of
           None \<Rightarrow> Inl (Exit EXIT_FAILURE ''libfaketime: In ftpl_init(), opening file for loading timestamps failed'')
         | Some bs \<Rightarrow>
           if r = - 1 then Inl (Exit EXIT_FAILURE ''libfaketime: In ftpl_init(), opening file for loading timestamps failed'')
           else if missing_real s ''fstat'' \<and> missing_real s ''fxstat''
           then Inl (Exit EXIT_FAILURE ''libfaketime: In ftpl_init(), inspecting timestamp file failed'')
           else case os_call s of (r, s) \<Rightarrow>
           if r = - 1 then Inl (Exit EXIT_FAILURE ''libfaketime: In ftpl_init(), inspecting timestamp file failed'')
           else let s = s\<lparr>infile_size := int (length bs)\<rparr>
           in if 16 > length bs then Inl (Exit EXIT_FAILURE ''There are no timestamps in the provided file to load timestamps from'')
           else if length bs mod 16 \<noteq> 0 then Inl (Exit EXIT_FAILURE ''File size is not multiple of timestamp size. It is probably damaged.'')
           else case os_call s of (r, s) \<Rightarrow>
           if r = - 1 then Inl (Exit EXIT_FAILURE ''libfaketime: In ftpl_init(), mapping file for loading timestamps failed'')
           else if \<not> list_all saved_timestamp_valid (map_records bs)
           then Inl (Exit EXIT_FAILURE ''libfaketime: invalid nanoseconds in timestamp load file'')
           else case os_call s of (_, s) \<Rightarrow> Inr (s\<lparr>stss := map_records bs, infile_set := True\<rparr>)))"

section \<open>Format, start time and request\<close>

definition init_format :: "ft_state \<Rightarrow> ft_state exitable" where
  "init_format s =
    (case getenv ''FAKETIME_FMT'' s of
       None \<Rightarrow> Inr (s\<lparr>user_faked_time_fmt := ''%Y-%m-%d %T''\<rparr>)
     | Some v \<Rightarrow>
        if length v \<ge> BUFSIZ then Inl (Exit EXIT_FAILURE ''libfaketime: FAKETIME_FMT is too long'')
        else Inr (s\<lparr>user_faked_time_fmt := v\<rparr>))"

definition init_start_time :: "ft_state \<Rightarrow> ft_state exitable" where
  "init_start_time s =
    (if shared_sem_initialized s then
       (case ft_sem_lock s of (r, s) \<Rightarrow>
        if r = - 1 then Inl (Exit 1 ''libfaketime: In ftpl_init(), ft_sem_lock failed'')
        else let s = (if sh_nsec (start_time_real (shm s)) = - 1
                      then (case system_time_from_system (ftpl_starttime s) s of (st, s) \<Rightarrow>
                              s\<lparr>ftpl_starttime := st, shm := system_time_to_shared st (shm s)\<rparr>)
                      else s\<lparr>ftpl_starttime := shared_to_system_time (shm s)\<rparr>)
             in case ft_sem_unlock s of (r, s) \<Rightarrow>
                if r = - 1 then Inl (Exit 1 ''libfaketime: In ftpl_init(), ft_sem_unlock failed'') else Inr s)
     else case system_time_from_system (ftpl_starttime s) s of (st, s) \<Rightarrow> Inr (s\<lparr>ftpl_starttime := st\<rparr>))"

definition init_request :: "ft_state \<Rightarrow> ft_state exitable" where
  "init_request s =
    (case getenv ''FAKETIME'' s of
       Some v \<Rightarrow> parse_ft_string v (s\<lparr>parse_config_file := False\<rparr>)
     | None \<Rightarrow> exit_bind (read_config_file s) (\<lambda>(_, s). Inr s))"

section \<open>The initialiser\<close>

text \<open>\<open>once\<close> and \<open>lock\<close> are what the nested initialisation of the shared memory gets.\<close>

definition ftpl_really_init :: "ft_state \<Rightarrow> ft_state exitable" where
  "ftpl_really_init s =
    (let s = resolve_symbols (s\<lparr>dont_fake := True\<rparr>)
     in case os_call s of (r, s) \<Rightarrow>
     if r \<noteq> 0 then Inl (Exit (- 1) ''monotonic_conds_lock init failed'')
     else exit_bind (case getenv ''FAKETIME_DISABLE_SHM'' s of
                       Some v \<Rightarrow> if v \<noteq> [] \<and> hd v = CHR ''0'' then exit_bind (ft_shm_init 0 0 s) (\<lambda>(_, s). Inr s) else Inr s
                     | None \<Rightarrow> exit_bind (ft_shm_init 0 0 s) (\<lambda>(_, s). Inr s)) (\<lambda>s.
     exit_bind (init_file_settings s) (\<lambda>s.
     exit_bind (init_cache_settings s) (\<lambda>s.
     exit_bind (init_commands s) (\<lambda>(dont_fake_final, s).
     exit_bind (init_limits s) (\<lambda>s.
     exit_bind (init_spawn s) (\<lambda>s.
     exit_bind (init_save_file s) (\<lambda>s.
     exit_bind (init_load_file s) (\<lambda>s.
     exit_bind (init_format s) (\<lambda>s.
     exit_bind (init_start_time s) (\<lambda>s.
     exit_bind (init_request s) (\<lambda>s.
       Inr (s\<lparr>dont_fake := dont_fake_final\<rparr>)))))))))))))"

abbreviation (input) put_ftpl_init :: "ft_init_state \<Rightarrow> ft_state \<Rightarrow> ft_state" where
  "put_ftpl_init c s \<equiv> s\<lparr>ftpl_init_state := c\<rparr>"

definition ftpl_init :: "int \<Rightarrow> int \<Rightarrow> ft_state \<Rightarrow> (bool \<times> ft_state) exitable" where
  "ftpl_init once lock s = ft_init_once_generic ftpl_init_state put_ftpl_init once lock ftpl_really_init s"

interpretation ftpl_cell: init_cell ftpl_init_state put_ftpl_init
  by unfold_locales simp_all

section \<open>Lemmas\<close>

declare token_matches.simps [simp del]

subsection \<open>Lists of commands\<close>

lemma split_at_dropWhile: "set (split_at P (dropWhile P l)) - {[]} = set (split_at P l) - {[]}"
  by (induction l) auto

lemma token_matches_split:
  "token_matches name l \<longleftrightarrow> name \<noteq> [] \<and> name \<in> set (split_at (\<lambda>c. c = CHR '','') l)"
proof (induction name l rule: token_matches.induct)
  case (1 name l)
  let ?sep = "\<lambda>c. c = CHR '',''"
  let ?t = "dropWhile ?sep l"
  have sp: "name \<noteq> [] \<and> name \<in> set (split_at ?sep l) \<longleftrightarrow> name \<noteq> [] \<and> name \<in> set (split_at ?sep ?t)"
    using split_at_dropWhile [of ?sep l] by blast
  show ?case
  proof (cases ?t)
    case Nil
    then show ?thesis unfolding sp token_matches.simps [of name l] Nil by simp
  next
    case (Cons x xs)
    have x: "\<not> ?sep x" using Cons hd_dropWhile [of ?sep l] by auto
    let ?w = "takeWhile (\<lambda>c. \<not> ?sep c) ?t" and ?r = "dropWhile (\<lambda>c. \<not> ?sep c) ?t"
    have w: "?w \<noteq> []" using x Cons by simp
    have tail: "name \<noteq> [] \<and> name \<in> set (case r of [] \<Rightarrow> [] | _ # u \<Rightarrow> split_at ?sep u) \<longleftrightarrow>
        name \<noteq> [] \<and> name \<in> set (split_at ?sep (drop 1 r))" for r by (cases r) auto
    note rest = tail [of ?r]
    have "token_matches name l \<longleftrightarrow> ?w = name \<or> token_matches name (drop 1 ?r)"
      unfolding token_matches.simps [of name l] Cons list.case by (simp only: if_True if_False split: if_split) blast
    moreover have "?w \<noteq> name \<Longrightarrow> token_matches name (drop 1 ?r) \<longleftrightarrow> name \<noteq> [] \<and> name \<in> set (split_at ?sep (drop 1 ?r))"
      using 1 [OF Cons] Cons by simp
    moreover have "set (split_at ?sep ?t) = insert ?w (set (case ?r of [] \<Rightarrow> [] | _ # u \<Rightarrow> split_at ?sep u))"
      by (subst split_at_unfold) simp
    ultimately show ?thesis using sp rest w by auto
  qed
qed

subsection \<open>The invariant is established\<close>

lemma ft_inv_upd_init [simp]:
  "ft_inv (s\<lparr>missing_real := mr\<rparr>) = ft_inv s" "ft_inv (s\<lparr>call_script := is\<rparr>) = ft_inv s" "ft_inv (s\<lparr>unlink_script := us\<rparr>) = ft_inv s" "ft_inv (s\<lparr>lock_files := ls\<rparr>) = ft_inv s"
  "ft_inv (s\<lparr>shm_objs := so\<rparr>) = ft_inv s" "ft_inv (s\<lparr>shmCreator := b\<rparr>) = ft_inv s" "ft_inv (s\<lparr>ft_shared_mapped := b\<rparr>) = ft_inv s"
  "ft_inv (s\<lparr>shared_sem_initialized := b\<rparr>) = ft_inv s" "ft_inv (s\<lparr>shm_init_state := c\<rparr>) = ft_inv s"
  "ft_inv (s\<lparr>ftpl_init_state := c\<rparr>) = ft_inv s" "ft_inv (s\<lparr>shm := sh\<rparr>) = ft_inv s"
  "ft_inv (s\<lparr>fake_stat_disabled := b\<rparr>) = ft_inv s" "ft_inv (s\<lparr>fake_utime_disabled := i\<rparr>) = ft_inv s"
  "ft_inv (s\<lparr>cache_duration := i\<rparr>) = ft_inv s" "ft_inv (s\<lparr>cache_enabled := i\<rparr>) = ft_inv s"
  "ft_inv (s\<lparr>limited_faking := b\<rparr>) = ft_inv s" "ft_inv (s\<lparr>ft_start_after_secs := i\<rparr>) = ft_inv s"
  "ft_inv (s\<lparr>ft_stop_after_secs := i\<rparr>) = ft_inv s" "ft_inv (s\<lparr>ft_start_after_ncalls := i\<rparr>) = ft_inv s"
  "ft_inv (s\<lparr>ft_stop_after_ncalls := i\<rparr>) = ft_inv s" "ft_inv (s\<lparr>spawnsupport := b\<rparr>) = ft_inv s"
  "ft_inv (s\<lparr>spawn_exec_support := b\<rparr>) = ft_inv s" "ft_inv (s\<lparr>ft_spawn_target := str\<rparr>) = ft_inv s"
  "ft_inv (s\<lparr>ft_spawn_exec := str\<rparr>) = ft_inv s" "ft_inv (s\<lparr>ft_spawn_argv := strs\<rparr>) = ft_inv s"
  "ft_inv (s\<lparr>ft_spawn_secs := i\<rparr>) = ft_inv s" "ft_inv (s\<lparr>ft_spawn_ncalls := i\<rparr>) = ft_inv s"
  "ft_inv (s\<lparr>outfile := i\<rparr>) = ft_inv s" "ft_inv (s\<lparr>user_faked_time_fmt := str\<rparr>) = ft_inv s"
  "ft_inv (s\<lparr>ftpl_starttime := st\<rparr>) = ft_inv s" "ft_inv (s\<lparr>parse_config_file := b\<rparr>) = ft_inv s"
  by (simp_all add: ft_inv_def config_ok_def replay_ok_def)

lemma os_call_inv [simp]: "ft_inv (snd (os_call s)) = ft_inv s"
  by (simp add: os_call_def split: list.split)

lemma os_call_invD: "os_call s = (r, s') \<Longrightarrow> ft_inv s' = ft_inv s"
  using os_call_inv [of s] by simp

lemma env_inv [simp]: "ft_inv (setenv n v s) = ft_inv s" "ft_inv (unsetenv n s) = ft_inv s"
  by (simp_all add: setenv_def unsetenv_def)

lemma os_unlink_inv [simp]: "ft_inv (snd (os_unlink s)) = ft_inv s"
  by (simp add: os_unlink_def split: list.split)

lemma unlink_inv [simp]:
  "ft_inv (snd (ft_sem_unlink n s)) = ft_inv s" "ft_inv (snd (shm_unlink n s)) = ft_inv s" "ft_inv (unlink_both n m s) = ft_inv s"
proof -
  show sem: "ft_inv (snd (ft_sem_unlink n s)) = ft_inv s" and shm: "ft_inv (snd (shm_unlink n s)) = ft_inv s" for n s
    using os_unlink_inv [of s] by (simp_all add: ft_sem_unlink_def shm_unlink_def split_def split: option.split)
  show "ft_inv (unlink_both n m s) = ft_inv s" by (simp add: unlink_both_def sem shm)
qed

lemma sem_inv [simp]:
  "ft_inv (snd (ft_sem_create n s)) = ft_inv s" "ft_inv (snd (ft_sem_open n s)) = ft_inv s" "ft_inv (snd (ft_sem_close s)) = ft_inv s"
  by (simp_all add: ft_sem_create_def ft_sem_open_def ft_sem_close_def os_call_invD split: option.split prod.split)

lemma sem_invD:
  "ft_sem_create n s = (t, s') \<Longrightarrow> ft_inv s' = ft_inv s" "ft_sem_open n s = (t, s') \<Longrightarrow> ft_inv s' = ft_inv s"
  "ft_sem_close s = (i, s') \<Longrightarrow> ft_inv s' = ft_inv s" "ft_sem_unlink n s = (i, s') \<Longrightarrow> ft_inv s' = ft_inv s"
  using sem_inv(1-2) [of n s] sem_inv(3) [of s] unlink_inv(1) [of n s] by simp_all

lemma ft_shm_publish_inv: "ft_inv s \<Longrightarrow> ft_inv (ft_shm_publish a b c s)"
  unfolding ft_shm_publish_def
  by (auto simp: os_call_invD sem_invD split: prod.split option.split)

lemma ft_sem_unlock_inv: "ft_inv s \<Longrightarrow> ft_sem_lock s = (r, s1) \<Longrightarrow> r \<noteq> - 1 \<Longrightarrow> ft_sem_unlock (s1\<lparr>shm_objs := so\<rparr>) = (u, s2) \<Longrightarrow> u \<noteq> - 1 \<Longrightarrow> ft_inv s2"
  by (cases rule: ft_sem_lock_cases [of s]; cases rule: ft_sem_unlock_cases [of "s1\<lparr>shm_objs := so\<rparr>"])
    (auto simp: ft_inv_def config_ok_def replay_ok_def)

lemma ft_shm_fill_inv: "ft_inv s \<Longrightarrow> returns (exit_of (ft_shm_fill sem n s)) ft_inv"
  unfolding ft_shm_fill_exit Let_def
  by (auto simp: os_call_invD split: prod.split elim!: ft_sem_unlock_inv [rotated])

lemma ft_shm_create_inv: "ft_inv s \<Longrightarrow> returns (ft_shm_create s) ft_inv"
  unfolding ft_shm_create_unfold Let_def
  by (auto simp: check_missing_real_def os_call_invD sem_invD split: prod.split option.split
      intro!: returns_bind [where P = ft_inv] ft_shm_fill_inv ft_shm_publish_inv)

lemma ft_shm_map_inv: "ft_inv s \<Longrightarrow> returns (ft_shm_map n s) ft_inv"
  unfolding ft_shm_map_def by (auto simp: os_call_invD split: prod.split option.split)

lemma ft_shm_attach_inv: "ft_inv s \<Longrightarrow> returns (ft_shm_attach n s) ft_inv"
proof (induction n s rule: ft_shm_attach.induct)
  case (1 n s)
  show ?case
  proof (cases "getenv ''FAKETIME_SHARED'' s")
    case None
    then show ?thesis using "1.prems" by (simp add: ft_shm_attach.simps)
  next
    case (Some env)
    have *: "returns (exit_bind (ft_shm_create (unsetenv ''FAKETIME_SHARED'' t)) (ft_shm_attach (n + 1))) ft_inv"
      if "scan_word 255 env = Some (a, r)" "scan_word 255 r = Some (b, r')" "ft_sem_open a s = (None, t)" "\<not> shmCreator t"
        "\<not> n + 1 > FT_SHM_RETRY_LIMIT" for a r b r' t
    proof (cases "ft_shm_create (unsetenv ''FAKETIME_SHARED'' t)")
      case (Inr x)
      have "ft_inv t" using sem_invD(2) [OF that(3)] "1.prems" by simp
      then have "ft_inv x" using ft_shm_create_inv [of "unsetenv ''FAKETIME_SHARED'' t"] Inr by simp
      then show ?thesis
        using "1.IH" [OF Some that(1) refl that(2) refl that(3) [symmetric] refl that(4,5) Inr] Inr by simp
    qed simp
    show ?thesis
      by (subst ft_shm_attach.simps)
        (use "1.prems" in \<open>auto simp: Some sem_invD split: prod.split option.split intro!: ft_shm_map_inv * [simplified]\<close>)
  qed
qed

lemma ft_shm_really_init_inv: "ft_inv s \<Longrightarrow> returns (ft_shm_really_init s) ft_inv"
  unfolding ft_shm_really_init_def
  by (auto simp: sem_invD split: prod.split option.split
      intro!: returns_bind [where P = ft_inv] ft_shm_create_inv ft_shm_attach_inv)

lemma once_inv:
  assumes "ft_inv s" "\<And>c t. ft_inv t \<Longrightarrow> ft_inv (put c t)" "\<And>t. ft_inv t \<Longrightarrow> returns (init t) ft_inv"
  shows "returns (ft_init_once_generic get put once lock init s) (\<lambda>(b, s'). ft_inv s')"
  unfolding ft_init_once_generic_def using assms(1)
  by (auto intro!: returns_bind [where P = ft_inv] assms(2,3))

lemma ft_shm_init_inv: "ft_inv s \<Longrightarrow> returns (ft_shm_init once lock s) (\<lambda>(b, s'). ft_inv s')"
  unfolding ft_shm_init_def by (rule once_inv) (simp_all add: ft_shm_really_init_inv)

lemma long_setting_inv: "ft_inv s \<Longrightarrow> (\<And>n t. ft_inv t \<Longrightarrow> ft_inv (store n t)) \<Longrightarrow> returns (long_setting name store s) ft_inv"
  by (auto simp: long_setting_def returns_def exit_bind_def split: option.split sum.split)

lemma exit_any: "(\<And>x. returns (f x) P) \<Longrightarrow> returns (exit_bind m f) P"
  by (cases m) simp_all

lemma init_file_settings_inv: "ft_inv s \<Longrightarrow> returns (init_file_settings s) ft_inv"
  by (auto simp: init_file_settings_def Let_def split: option.split intro!: exit_any)

lemma init_cache_settings_inv: "ft_inv s \<Longrightarrow> returns (init_cache_settings s) ft_inv"
  unfolding init_cache_settings_def Let_def
  by (rule returns_bind [where P = ft_inv]) (auto split: option.split intro!: exit_any)

lemma init_commands_inv: "ft_inv s \<Longrightarrow> returns (init_commands s) (\<lambda>(b, s'). ft_inv s')"
proof -
  assume s: "ft_inv s"
  have c: "returns (copied_matches l t) (\<lambda>(b, s'). ft_inv s')" if "ft_inv t" for l t
    using that by (auto simp: copied_matches_def os_call_invD split: prod.split)
  have skip: "returns (case getenv ''FAKETIME_SKIP_CMDS'' s of
                 None \<Rightarrow> Inr (False, s)
               | Some l \<Rightarrow> exit_bind (copied_matches l s) (\<lambda>(m, s). Inr (m, if m then s\<lparr>ft_mode := FT_NOOP\<rparr> else s))) (\<lambda>(b, s'). ft_inv s')"
    using s by (auto split: option.split intro!: returns_bind [OF c])
  show ?thesis unfolding init_commands_def
    by (rule returns_bind [OF skip]) (auto split: option.split intro!: returns_bind [OF c])
qed

lemma init_limits_inv: "ft_inv s \<Longrightarrow> returns (init_limits s) ft_inv"
  by (auto simp: init_limits_def intro!: returns_bind [where P = ft_inv] long_setting_inv)

lemma init_save_file_inv: "ft_inv s \<Longrightarrow> returns (init_save_file s) ft_inv"
  by (auto simp: init_save_file_def os_call_invD split: option.split prod.split)

lemma init_format_inv: "ft_inv s \<Longrightarrow> returns (init_format s) ft_inv"
  by (auto simp: init_format_def split: option.split)

lemma spawn_limits_inv: "ft_inv s \<Longrightarrow> returns (parse_spawn_limits s) ft_inv"
proof -
  assume i: "ft_inv s"
  have *: "returns (exit_bind (parse_long_setting n v) (\<lambda>n. Inr (s\<lparr>ft_spawn_secs := n\<rparr>))) ft_inv"
    "returns (exit_bind (parse_long_setting n v) (\<lambda>n. Inr (t\<lparr>ft_spawn_ncalls := n\<rparr>))) ft_inv" if "ft_inv t" for n v t
    using i that by (auto intro!: exit_any)
  show ?thesis unfolding parse_spawn_limits_def
    using i * by (auto split: option.split intro!: returns_bind [where P = ft_inv])
qed

lemma init_spawn_inv: "ft_inv s \<Longrightarrow> returns (init_spawn s) ft_inv"
proof -
  assume i: "ft_inv s"
  have "returns (exit_bind (case getenv ''FAKETIME_SPAWN_EXEC'' t of
                 None \<Rightarrow> Inr t
               | Some v \<Rightarrow>
                  if getenv ''FAKETIME_SPAWN_TARGET'' t \<noteq> None \<or> v = [] \<or> length v \<ge> FT_SPAWN_VALUE_SIZE
                  then Inl (Exit EXIT_FAILURE ''libfaketime: invalid FAKETIME_SPAWN_EXEC configuration'')
                  else exit_bind (spawn_arguments [1..<Suc FT_SPAWN_MAX_ARGS] False t) (\<lambda>as.
                         Inr (t\<lparr>ft_spawn_exec := v, ft_spawn_argv := v # as, spawn_exec_support := True, spawnsupport := True\<rparr>)))
      (\<lambda>s. if spawnsupport s then parse_spawn_limits s else Inr s)) ft_inv" if "ft_inv t" for t
    by (rule returns_bind [where P = ft_inv]) (use that in \<open>auto split: option.split intro!: exit_any spawn_limits_inv\<close>)
  with i show ?thesis unfolding init_spawn_def by (auto split: option.split intro!: returns_bind [where P = ft_inv])
qed

lemma length_map_records: "length bs mod 16 = 0 \<Longrightarrow> length bs = 16 * length (map_records bs)"
proof (induction bs rule: map_records.induct)
  case (1 bs)
  show ?case
  proof (cases "length bs < 16")
    case True
    with "1.prems" show ?thesis by (subst map_records.simps) simp
  next
    case False
    have "length (drop 16 bs) mod 16 = 0" using False "1.prems" by (simp add: mod_if)
    then have "length (drop 16 bs) = 16 * length (map_records (drop 16 bs))" by (rule "1.IH" [OF False])
    then show ?thesis using False by (subst map_records.simps) simp
  qed
qed

lemma init_load_file_inv: "ft_inv s \<Longrightarrow> returns (init_load_file s) ft_inv"
proof -
  let ?idle = "\<lambda>t. ft_inv (t\<lparr>infile_set := False\<rparr>)"
  assume i: "ft_inv s"
  then have idle: "?idle s" by (simp add: ft_inv_def config_ok_def replay_ok_def)
  have oc: "?idle t' = ?idle t" "infile_size t' = infile_size t" if "os_call t = (r, t')" for t r t'
    using that by (auto simp: os_call_def ft_inv_def config_ok_def replay_ok_def split: list.splits if_splits)
  have sz: "?idle (t\<lparr>infile_size := z\<rparr>)" if "?idle t" for t z
    using that by (auto simp: ft_inv_def config_ok_def replay_ok_def split: if_splits)
  have fin: "ft_inv (t\<lparr>stss := map_records bs, infile_set := True\<rparr>)"
    if "?idle t" "infile_size t = int (length bs)" "\<not> length bs < 16" "length bs mod 16 = 0"
      "list_all saved_timestamp_valid (map_records bs)" for t bs
    using that length_map_records [of bs] by (auto simp: ft_inv_def config_ok_def replay_ok_def)
  show ?thesis unfolding init_load_file_def Let_def
    using i idle by (auto simp: oc sz split: prod.split option.split intro!: fin)
qed

lemma init_start_time_inv: "ft_inv s \<Longrightarrow> returns (init_start_time s) ft_inv"
proof -
  assume i: "ft_inv s"
  have sys: "config_ok s'" if "system_time_from_system old t = (st, s')" "config_ok t" for old t st s'
    using system_time_config [of t old] that by simp
  have sysi: "ft_inv s'" if "system_time_from_system old t = (st, s')" "ft_inv t" for old t st s'
    by (rule system_time_from_system_cases [of old t]) (use that in auto)
  have lk: "config_ok s'" if "ft_sem_lock s = (r, s')" for r s'
    using that i by (cases rule: ft_sem_lock_cases [of s]) (auto simp: ft_inv_def config_ok_def replay_ok_def)
  have up: "config_ok (t\<lparr>ftpl_starttime := st\<rparr>)" "config_ok (t\<lparr>ftpl_starttime := st, shm := sh\<rparr>)" if "config_ok t" for t st sh
    using that by (simp_all add: config_ok_def replay_ok_def)
  have ul: "ft_inv s'" if "ft_sem_unlock t = (r, s')" "r \<noteq> - 1" "config_ok t" for t r s'
    using unlock_inv [OF that(3), of False] that by simp
  have first: "ft_inv s'" if "ft_sem_unlock (t\<lparr>ftpl_starttime := st, shm := sh\<rparr>) = (r, s')" "r \<noteq> - 1"
    "system_time_from_system old x = (st, t)" "ft_sem_lock s = (q, x)" for t st sh r s' old x q
    using ul [OF that(1,2)] up(2) sys [OF that(3)] lk [OF that(4)] by blast
  show ?thesis unfolding init_start_time_def Let_def
    using i by (auto split: prod.split intro: ul [OF _ _ up(1) [OF lk]] first sysi)
qed

lemma init_request_inv: "ft_inv s \<Longrightarrow> returns (init_request s) ft_inv"
proof -
  assume i: "ft_inv s"
  have "returns (exit_bind (read_config_file s) (\<lambda>(_, s). Inr s)) ft_inv"
    using read_config_file_inv [OF i] by (rule returns_bind) auto
  then show ?thesis using i by (simp add: init_request_def parse_ft_string_inv split: option.split)
qed

lemma ftpl_really_init_inv: "ft_inv s \<Longrightarrow> returns (ftpl_really_init s) ft_inv"
proof -
  assume i: "ft_inv s"
  have r: "ft_inv (resolve_symbols (s\<lparr>dont_fake := True\<rparr>))" using i by (simp add: resolve_symbols_def Let_def)
  have sh: "returns (exit_bind (ft_shm_init 0 0 t) (\<lambda>(_, s). Inr s)) ft_inv" if "ft_inv t" for t
    using ft_shm_init_inv [OF that] by (rule returns_bind) auto
  have cm: "returns (exit_bind (init_commands t) (\<lambda>(b, s). f b s)) ft_inv" if "ft_inv t" "\<And>b u. ft_inv u \<Longrightarrow> returns (f b u) ft_inv" for t f
    using init_commands_inv [OF that(1)] by (rule returns_bind) (use that(2) in auto)
  note steps = init_file_settings_inv init_cache_settings_inv init_limits_inv init_spawn_inv
    init_save_file_inv init_load_file_inv init_format_inv init_start_time_inv init_request_inv
  have sh': "returns (case getenv ''FAKETIME_DISABLE_SHM'' t of
        Some v \<Rightarrow> if v \<noteq> [] \<and> hd v = CHR ''0'' then exit_bind (ft_shm_init 0 0 t) (\<lambda>(_, s). Inr s) else Inr t
      | None \<Rightarrow> exit_bind (ft_shm_init 0 0 t) (\<lambda>(_, s). Inr s)) ft_inv" if "ft_inv t" for t
    using sh [OF that] that by (simp split: option.split)
  obtain q t where t: "os_call (resolve_symbols (s\<lparr>dont_fake := True\<rparr>)) = (q, t)" by fastforce
  have "ft_inv t" using os_call_invD [OF t] r by simp
  then show ?thesis unfolding ftpl_really_init_def Let_def t prod.case
    by (auto intro!: returns_bind [OF sh'] cm returns_bind [OF steps(1)] returns_bind [OF steps(2)] returns_bind [OF steps(3)]
        returns_bind [OF steps(4)] returns_bind [OF steps(5)] returns_bind [OF steps(6)] returns_bind [OF steps(7)]
        returns_bind [OF steps(8)] returns_bind [OF steps(9)])
qed

lemma ftpl_init_inv: "ft_inv s \<Longrightarrow> returns (ftpl_init once lock s) (\<lambda>(b, s'). ft_inv s')"
  unfolding ftpl_init_def by (rule once_inv) (simp_all add: ftpl_really_init_inv)

subsection \<open>A plain start\<close>

text \<open>The variables of \<^verbatim>\<open>ftpl_really_init\<close> other than \<^verbatim>\<open>FAKETIME\<close>.\<close>

definition other_settings :: "string list" where
  "other_settings =
    [''FAKETIME_IGNORE_SYMBOLS'', ''FAKETIME_DISABLE_SHM'', ''NO_FAKE_STAT'', ''FAKE_UTIME'', ''FAKETIME_CACHE_DURATION'',
     ''FAKETIME_NO_CACHE'', ''FAKETIME_DONT_FAKE_MONOTONIC'', ''DONT_FAKE_MONOTONIC'', ''FAKETIME_SKIP_CMDS'', ''FAKETIME_ONLY_CMDS'',
     ''FAKETIME_START_AFTER_SECONDS'', ''FAKETIME_STOP_AFTER_SECONDS'', ''FAKETIME_START_AFTER_NUMCALLS'',
     ''FAKETIME_STOP_AFTER_NUMCALLS'', ''FAKETIME_SPAWN_TARGET'', ''FAKETIME_SPAWN_EXEC'', ''FAKETIME_SAVE_FILE'',
     ''FAKETIME_LOAD_FILE'', ''FAKETIME_FMT'']"

text \<open>
  The state in which the request is parsed, from the state \<open>b\<close> that the initialisation of the
  shared memory has left, when no start time is recorded there yet.
\<close>

definition started :: "ft_state \<Rightarrow> ft_state" where
  "started b =
    (let (st, s) = system_time_from_system unset_system_time (b\<lparr>user_faked_time_fmt := ''%Y-%m-%d %T'', sem_held := True\<rparr>)
     in s\<lparr>ftpl_starttime := st, shm := system_time_to_shared st new_shared, sem_held := False\<rparr>)"

text \<open>The state the initialisation has reached before it turns to the shared memory.\<close>

abbreviation (input) starting :: "os_state \<Rightarrow> ft_state" where
  "starting os \<equiv> (static_state os)\<lparr>ftpl_init_state := FT_INIT_INITIALIZING\<rparr>"

definition resolved :: "os_state \<Rightarrow> ft_state" where
  "resolved os = resolve_symbols ((starting os)\<lparr>dont_fake := True\<rparr>)"

lemma static_state_fields:
  "environ (static_state os) = environ os" "call_script (static_state os) = call_script os" "have_symbol (static_state os) = have_symbol os"
  "clk_read (static_state os) = clk_read os" "clk_count (static_state os) = clk_count os" "lock_script (static_state os) = lock_script os"
  "unlock_script (static_state os) = unlock_script os" "sem_held (static_state os) = sem_held os"
  "decimal_point (static_state os) = decimal_point os" "shm_init_state (static_state os) = FT_INIT_UNINITIALIZED"
  "ftpl_starttime (static_state os) = unset_system_time" "spawnsupport (static_state os) = False"
  "fake_monotonic_clock (static_state os) = 1" "limited_faking (static_state os) = False" "infile_set (static_state os) = False"
  "user_faked_time_saved (static_state os) = []" "user_rate_set (static_state os) = False"
  "user_per_tick_inc_set (static_state os) = False" "ft_mode (static_state os) = FT_FREEZE" "dont_fake (static_state os) = False"
  by (simp_all add: static_state_def)

lemma getenv_resolve [simp]: "getenv n (resolve_symbols (s\<lparr>dont_fake := True\<rparr>)) = getenv n s"
  by (simp add: resolve_symbols_def getenv_def Let_def)

lemma not_ignored:
  "getenv ''FAKETIME_IGNORE_SYMBOLS'' s = None \<Longrightarrow> \<forall>n. have_symbol s n \<Longrightarrow> \<not> missing_real (resolve_symbols (s\<lparr>dont_fake := True\<rparr>)) ''fstat''"
  "getenv ''FAKETIME_IGNORE_SYMBOLS'' s = None \<Longrightarrow> \<forall>n. have_symbol s n \<Longrightarrow> \<not> missing_real (resolve_symbols (s\<lparr>dont_fake := True\<rparr>)) ''getpid''"
  by (simp_all add: resolve_symbols_def Let_def getenv_def ft_dlvsym_def real_symbols_def)

lemma plain_start_time:
  assumes "shared_sem_initialized s" "lock_script s = []" "unlock_script s = []" "shm s = new_shared" "ftpl_starttime s = unset_system_time"
    and "system_time_from_system unset_system_time (s\<lparr>sem_held := True\<rparr>) = (st, s')"
  shows "init_start_time s = Inr (s'\<lparr>ftpl_starttime := st, shm := system_time_to_shared st new_shared, sem_held := False\<rparr>)"
proof -
  obtain t e where "system_time_from_system unset_system_time (s\<lparr>sem_held := True\<rparr>) = (t, s\<lparr>sem_held := True, clk_count := clk_count s + 4, errno := e\<rparr>)"
    by (rule system_time_from_system_cases [of unset_system_time "s\<lparr>sem_held := True\<rparr>"]) simp
  with assms(6) have s': "s' = s\<lparr>sem_held := True, clk_count := clk_count s + 4, errno := e\<rparr>" by simp
  have "shm s' = new_shared" "unlock_script s' = []" using assms by (simp_all add: s')
  then show ?thesis
    using assms by (simp add: init_start_time_def ft_sem_lock_def ft_sem_unlock_def new_shared_def)
qed

text \<open>What the initialisation needs of the state \<open>b\<close>: a fresh shared memory, and the environment of the start.\<close>

definition shares :: "os_state \<Rightarrow> ft_state \<Rightarrow> bool" where
  "shares os b \<longleftrightarrow> (\<forall>n. n \<noteq> ''FAKETIME_SHARED'' \<longrightarrow> getenv n b = getenv n (static_state os)) \<and>
     (\<exists>e so lf c f. b = (resolved os)\<lparr>environ := e, lock_files := lf, sem_held := False, shm_objs := so, shmCreator := c,
        shm := new_shared, shared_sem_initialized := True, ft_shared_mapped := True, shm_init_state := f\<rparr>)"

definition no_settings :: "os_state \<Rightarrow> bool" where
  "no_settings os \<longleftrightarrow> list_all (\<lambda>n. getenv n (static_state os) = None) other_settings"

lemmas no_settings_env = no_settings_def [unfolded other_settings_def, simplified, THEN iffD1]

lemma init_from_shares:
  assumes os: "no_settings os" "call_script os = []" "lock_script os = []" "unlock_script os = []"
    and sh: "ft_shm_init 0 0 (resolved os) = Inr (r, b)" "shares os b" and f: "getenv ''FAKETIME'' (static_state os) = Some f"
  shows "ftpl_really_init (starting os) =
    exit_bind (parse_ft_string f ((started b)\<lparr>parse_config_file := False\<rparr>)) (\<lambda>s. Inr (s\<lparr>dont_fake := False\<rparr>))"
proof -
  have eb: "n \<noteq> ''FAKETIME_SHARED'' \<Longrightarrow> getenv n b = getenv n (static_state os)" for n using sh(2) by (simp add: shares_def)
  have fa: "fake_monotonic_clock (resolved os) = 1" "spawnsupport (resolved os) = False" "lock_script (resolved os) = []"
    "unlock_script (resolved os) = []" "ftpl_starttime (resolved os) = unset_system_time" "call_script (resolved os) = []"
    using os by (simp_all add: resolved_def resolve_symbols_def static_state_fields)
  then have bf: "fake_monotonic_clock b = 1" "spawnsupport b = False" "shared_sem_initialized b" "lock_script b = []" "unlock_script b = []"
    "shm b = new_shared" "ftpl_starttime b = unset_system_time"
    using sh(2) by (auto simp: shares_def)
  note env = no_settings_env [OF os(1)]
  have bs: "b\<lparr>fake_monotonic_clock := 1\<rparr> = b" using bf(1) by (cases b) simp
  have steps: "init_file_settings b = Inr b" "init_cache_settings b = Inr b" "init_commands b = Inr (False, b)"
    "init_limits b = Inr b" "init_spawn b = Inr b" "init_save_file b = Inr b" "init_load_file b = Inr b"
    "init_format b = Inr (b\<lparr>user_faked_time_fmt := ''%Y-%m-%d %T''\<rparr>)"
    using env bf bs
    by (simp_all add: init_file_settings_def init_cache_settings_def init_commands_def init_limits_def long_setting_def init_spawn_def
        init_save_file_def init_load_file_def init_format_def get_fake_monotonic_setting_def eb)
  let ?c = "b\<lparr>user_faked_time_fmt := ''%Y-%m-%d %T''\<rparr>"
  obtain st s' where sy: "system_time_from_system unset_system_time (?c\<lparr>sem_held := True\<rparr>) = (st, s')" by fastforce
  have br: "started b = s'\<lparr>ftpl_starttime := st, shm := system_time_to_shared st new_shared, sem_held := False\<rparr>"
    using sy by (simp add: started_def)
  have start: "init_start_time ?c = Inr (started b)"
    unfolding br by (rule plain_start_time) (use bf sy in simp_all)
  have "environ s' = environ b"
    by (rule system_time_from_system_cases [of unset_system_time "?c\<lparr>sem_held := True\<rparr>"]) (use sy in auto)
  then have "getenv ''FAKETIME'' (started b) = Some f" using eb [of "''FAKETIME''"] f by (simp add: br getenv_def)
  then have req: "init_request (started b) = parse_ft_string f ((started b)\<lparr>parse_config_file := False\<rparr>)"
    by (simp add: init_request_def)
  have call: "os_call (resolved os) = (0, resolved os)" using fa(6) by simp
  have ds: "getenv ''FAKETIME_DISABLE_SHM'' (resolved os) = None" using env by (simp add: resolved_def getenv_def resolve_symbols_def)
  show ?thesis
    unfolding ftpl_really_init_def Let_def resolved_def [symmetric] call prod.case ds option.case sh exit_bind_Inr steps start req
    by simp
qed

text \<open>The two ways to come by the shared memory: a process on its own creates it, one that inherits the variable attaches.\<close>

lemma resolved_fstat:
  assumes "no_settings os" "\<forall>n. have_symbol os n"
  shows "\<not> missing_real (resolved os) ''fstat''" "\<not> missing_real (resolved os) ''getpid''"
  using not_ignored [of "starting os"] no_settings_env [OF assms(1)] assms(2) by (simp_all add: resolved_def static_state_fields getenv_def)

lemma shm_init_resolved:
  assumes "ft_shm_really_init ((resolved os)\<lparr>shm_init_state := FT_INIT_INITIALIZING\<rparr>) = Inr b"
  shows "ft_shm_init 0 0 (resolved os) = Inr (True, b\<lparr>shm_init_state := FT_INIT_READY\<rparr>)"
proof -
  have "shm_init_state (resolved os) = FT_INIT_UNINITIALIZED" by (simp add: resolved_def resolve_symbols_def static_state_fields)
  from shm_cell.once_uninitialized [where init = ft_shm_really_init, OF this assms, of 0 0] show ?thesis by (simp add: ft_shm_init_def)
qed

lemma shares_created:
  assumes "no_settings os" "fresh_process ((static_state os)\<lparr>missing_real := \<lambda>_. False\<rparr>)" "\<forall>n. have_symbol os n"
  shows "\<exists>r b. ft_shm_init 0 0 (resolved os) = Inr (r, b) \<and> shares os b"
proof -
  let ?a = "(resolved os)\<lparr>shm_init_state := FT_INIT_INITIALIZING\<rparr>"
  have "fresh_process ?a"
    using assms(2) resolved_fstat [OF assms(1,3)]
    by (simp add: fresh_process_def) (simp add: resolved_def resolve_symbols_def getenv_def)
  moreover have "shares os ((attached new_shared (created ?a))\<lparr>shm_init_state := FT_INIT_READY\<rparr>)"
    unfolding shares_def attached_def created_def setenv_def
    by (intro conjI exI) (simp add: getenv_def update_conv resolved_def resolve_symbols_def, simp)
  ultimately show ?thesis using shm_init_resolved [OF ft_shm_really_init_fresh] by blast
qed

lemma shares_attached:
  assumes "no_settings os" "can_attach p new_shared ((static_state os)\<lparr>missing_real := \<lambda>_. False\<rparr>)" "\<forall>n. have_symbol os n" "\<not> sem_held os"
  shows "\<exists>r b. ft_shm_init 0 0 (resolved os) = Inr (r, b) \<and> shares os b"
proof -
  let ?a = "(resolved os)\<lparr>shm_init_state := FT_INIT_INITIALIZING\<rparr>"
  have "can_attach p new_shared ?a"
    using assms(2) resolved_fstat [OF assms(1,3)]
    by (simp add: can_attach_def) (simp add: resolved_def resolve_symbols_def getenv_def)
  moreover have "shares os ((attached new_shared ?a)\<lparr>shm_init_state := FT_INIT_READY\<rparr>)"
  proof -
    have h: "(resolved os)\<lparr>sem_held := False\<rparr> = resolved os"
      using assms(4) by (cases "resolved os") (simp add: resolved_def resolve_symbols_def static_state_def)
    have "(attached new_shared ?a)\<lparr>shm_init_state := FT_INIT_READY\<rparr> = (resolved os)\<lparr>environ := environ (resolved os), lock_files := lock_files (resolved os),
        sem_held := False, shm_objs := shm_objs (resolved os), shmCreator := shmCreator (resolved os), shm := new_shared,
        shared_sem_initialized := True, ft_shared_mapped := True, shm_init_state := FT_INIT_READY\<rparr>"
      by (subst h [symmetric]) (simp add: attached_def)
    moreover have "getenv n ((attached new_shared ?a)\<lparr>shm_init_state := FT_INIT_READY\<rparr>) = getenv n (static_state os)" for n
      by (simp add: attached_def getenv_def resolved_def resolve_symbols_def)
    ultimately show ?thesis unfolding shares_def by blast
  qed
  ultimately show ?thesis using shm_init_resolved [OF ft_shm_really_init_attached] by blast
qed

lemma parse_offset_state:
  assumes "c = CHR ''+'' \<or> c = CHR ''-''" "u \<in> {[], ''m'', ''h'', ''d'', ''y''}"
    and "\<not> isdigit (decimal_point s)" "decimal_point s \<notin> set u"
    and "int n * unit_seconds u < 9007199254740992"
    and "user_faked_time_saved s = []" "ft_mode s = FT_FREEZE"
    and off: "off = \<lparr>tv_sec = sign_value c n * unit_seconds u, tv_nsec = 0\<rparr>"
  shows "parse_ft_string (c # show_nat n @ u) s =
    Inr (s\<lparr>ft_mode := FT_START_AT, user_offset := off, user_faked_time_timespec := timespecadd (st_real (ftpl_starttime s)) off,
           user_faked_time_saved := take 255 (c # show_nat n @ u)\<rparr>)"
proof -
  have "(hd (c # show_nat n @ u) = CHR ''+'' \<or> hd (c # show_nat n @ u) = CHR ''-'')" using assms(1) by simp
  then show ?thesis using assms(6-8)
    by (simp only: parse_ft_string_def parse_offset_int [OF assms(1-5)] BUFFERLEN_def) simp
qed

text \<open>The reading of a clock that the k-th call from now stores.\<close>

definition reading :: "ft_state \<Rightarrow> nat \<Rightarrow> int \<Rightarrow> timespec \<Rightarrow> timespec" where
  "reading s k clk old = (case clk_read s (clk_count s + k) clk of None \<Rightarrow> old | Some t \<Rightarrow> t)"

lemma real_clock_reading:
  "snd (fst (real_clock_gettime clk old s)) = reading s 0 clk old"
  "reading (snd (real_clock_gettime clk old s)) k clk' old' = reading s (Suc k) clk' old'"
  by (simp_all add: real_clock_gettime_def reading_def split: option.split)

lemma system_time_readings:
  "fst (system_time_from_system old s) =
    \<lparr>st_real = reading s 0 CLOCK_REALTIME (st_real old), st_mon = reading s 1 CLOCK_MONOTONIC (st_mon old),
     st_mon_raw = reading s 2 CLOCK_MONOTONIC_RAW (st_mon_raw old), st_boot = reading s 3 CLOCK_BOOTTIME (st_boot old)\<rparr>"
  by (simp add: system_time_from_system_def split_def Let_def real_clock_reading numeral_eq_Suc)

lemma system_time_cong:
  "clk_read s = clk_read t \<Longrightarrow> clk_count s = clk_count t \<Longrightarrow>
    fst (system_time_from_system old s) = fst (system_time_from_system old t)"
  by (simp add: system_time_readings reading_def)

lemma resolved_all:
  assumes "getenv ''FAKETIME_IGNORE_SYMBOLS'' s = None" "\<forall>n. have_symbol s n" "r \<in> fst ` set real_symbols"
  shows "\<not> missing_real (resolve_symbols (s\<lparr>dont_fake := True\<rparr>)) r"
proof -
  have "\<forall>(r, ns) \<in> set real_symbols. ns \<noteq> []" by (simp add: real_symbols_def)
  moreover obtain ns where "map_of real_symbols r = Some ns" using assms(3) by (metis map_of_eq_None_iff not_Some_eq)
  ultimately show ?thesis
    using assms(1,2) map_of_SomeD [of real_symbols r ns] by (cases ns) (auto simp: resolve_symbols_def getenv_def ft_dlvsym_def)
qed

lemma started_fields:
  assumes "shares os b"
  shows "decimal_point (started b) = decimal_point os" "user_faked_time_saved (started b) = []"
    "ft_mode (started b) = FT_FREEZE" "lock_script os = [] \<Longrightarrow> unlock_script os = [] \<Longrightarrow> lock_works (started b)" "limited_faking (started b) = False"
    "spawnsupport (started b) = False" "infile_set (started b) = False"
    "user_rate_set (started b) = False" "user_per_tick_inc_set (started b) = False"
    "getenv ''FAKETIME'' (started b) = getenv ''FAKETIME'' (static_state os)"
    "shared_sem_initialized (started b)" "clk_read (started b) = clk_read os" "clk_count (started b) = clk_count os + 4"
    "missing_real (started b) = missing_real (resolved os)" "call_script (started b) = call_script os"
    "ftpl_starttime (started b) = fst (system_time_from_system unset_system_time (static_state os))"
proof -
  let ?c = "b\<lparr>user_faked_time_fmt := ''%Y-%m-%d %T'', sem_held := True\<rparr>"
  obtain e so lf c f where b: "b = (resolved os)\<lparr>environ := e, lock_files := lf, sem_held := False, shm_objs := so, shmCreator := c,
      shm := new_shared, shared_sem_initialized := True, ft_shared_mapped := True, shm_init_state := f\<rparr>"
    and g: "getenv ''FAKETIME'' b = getenv ''FAKETIME'' (static_state os)"
    using assms unfolding shares_def by auto
  obtain st e' where sy: "system_time_from_system unset_system_time ?c = (st, ?c\<lparr>clk_count := clk_count ?c + 4, errno := e'\<rparr>)"
    by (rule system_time_from_system_cases)
  have br: "started b = ?c\<lparr>clk_count := clk_count ?c + 4, errno := e', ftpl_starttime := st,
      shm := system_time_to_shared st new_shared, sem_held := False\<rparr>"
    unfolding started_def Let_def sy prod.case ..
  show "getenv ''FAKETIME'' (started b) = getenv ''FAKETIME'' (static_state os)"
    using g by (simp add: br getenv_def)
  show "decimal_point (started b) = decimal_point os" "user_faked_time_saved (started b) = []"
    "ft_mode (started b) = FT_FREEZE" "lock_script os = [] \<Longrightarrow> unlock_script os = [] \<Longrightarrow> lock_works (started b)" "limited_faking (started b) = False"
    "spawnsupport (started b) = False" "infile_set (started b) = False"
    "user_rate_set (started b) = False" "user_per_tick_inc_set (started b) = False"
    "shared_sem_initialized (started b)" "clk_read (started b) = clk_read os" "clk_count (started b) = clk_count os + 4"
    "missing_real (started b) = missing_real (resolved os)" "call_script (started b) = call_script os"
    unfolding br by (simp_all add: b resolved_def resolve_symbols_def static_state_fields lock_works_def)
  have "clk_read ?c = clk_read (static_state os)" "clk_count ?c = clk_count (static_state os)"
    by (simp_all add: b resolved_def resolve_symbols_def)
  then have "fst (system_time_from_system unset_system_time ?c) = fst (system_time_from_system unset_system_time (static_state os))"
    by (rule system_time_cong)
  then show "ftpl_starttime (started b) = fst (system_time_from_system unset_system_time (static_state os))"
    unfolding sy by (simp add: br)
qed

section \<open>Properties\<close>

text \<open>
  Initialisation, whatever the environment asks for and whichever call fails, ends the process or
  leaves a usable configuration: a positive finite clock rate, a normalised increment, a mapped and
  validated timestamp file when one is replayed, and no lock held.
\<close>

lemma ftpl_init_establishes_inv:
  assumes "\<not> sem_held os"
  shows "(\<exists>e. ftpl_init once lock (static_state os) = Inl e) \<or>
    (\<exists>b s'. ftpl_init once lock (static_state os) = Inr (b, s') \<and> ft_inv s')"
proof -
  have "ft_inv (static_state os)" using assms by (simp add: ft_inv_def config_ok_def replay_ok_def static_state_def)
  from ftpl_init_inv [OF this, of once lock] show ?thesis by (cases "ftpl_init once lock (static_state os)") auto
qed

lemma ftpl_init_establishes_inv_witness:
  "\<not> sem_held sample_os \<and> ((\<exists>e. ftpl_init 0 0 (static_state sample_os) = Inl e) \<or>
    (\<exists>b s'. ftpl_init 0 0 (static_state sample_os) = Inr (b, s') \<and> ft_inv s'))"
proof -
  have "\<not> sem_held sample_os" by (simp add: sample_os_def)
  with ftpl_init_establishes_inv show ?thesis by blast
qed



text \<open>
  A program is left alone exactly when its name is a word of \<^verbatim>\<open>FAKETIME_SKIP_CMDS\<close>, or
  \<^verbatim>\<open>FAKETIME_ONLY_CMDS\<close> is set and its name is not a word of that (comma separated, empty words
  aside); with both variables set the process ends.
\<close>

lemma init_commands_words:
  assumes "progname s \<noteq> []" "call_script s = []"
  shows "init_commands s =
    (let listed = (\<lambda>v. progname s \<in> set (split_at (\<lambda>c. c = CHR '','') v));
         skip = (case getenv ''FAKETIME_SKIP_CMDS'' s of Some v \<Rightarrow> listed v
                 | None \<Rightarrow> (case getenv ''FAKETIME_ONLY_CMDS'' s of Some v \<Rightarrow> \<not> listed v | None \<Rightarrow> False))
     in if getenv ''FAKETIME_SKIP_CMDS'' s \<noteq> None \<and> getenv ''FAKETIME_ONLY_CMDS'' s \<noteq> None
        then Inl (Exit EXIT_FAILURE ''Error: Both FAKETIME_SKIP_CMDS and FAKETIME_ONLY_CMDS can't be set.'')
        else Inr (skip, if skip then s\<lparr>ft_mode := FT_NOOP\<rparr> else s))"
proof -
  have e: "getenv n (s\<lparr>ft_mode := m\<rparr>) = getenv n s" for n m by (simp add: getenv_def)
  show ?thesis
    using assms by (simp add: init_commands_def copied_matches_def e token_matches_split Let_def split: option.split)
qed

lemma init_commands_words_witness:
  "init_commands ((static_state sample_os)\<lparr>environ := [(''FAKETIME_SKIP_CMDS'', '',ls,,prog'')]\<rparr>) =
     Inr (True, (static_state sample_os)\<lparr>environ := [(''FAKETIME_SKIP_CMDS'', '',ls,,prog'')], ft_mode := FT_NOOP\<rparr>) \<and>
   (\<exists>m. init_commands ((static_state sample_os)\<lparr>environ := [(''FAKETIME_SKIP_CMDS'', ''a''), (''FAKETIME_ONLY_CMDS'', ''b'')]\<rparr>) = Inl (Exit EXIT_FAILURE m))"
  using init_commands_words [of "(static_state sample_os)\<lparr>environ := [(''FAKETIME_SKIP_CMDS'', '',ls,,prog'')]\<rparr>"]
    init_commands_words [of "(static_state sample_os)\<lparr>environ := [(''FAKETIME_SKIP_CMDS'', ''a''), (''FAKETIME_ONLY_CMDS'', ''b'')]\<rparr>"]
  by (simp add: getenv_def static_defs)

end
