(* ===== verification/Time_Functions.thy ===== *)
theory Time_Functions
  imports Ftpl_Init
begin

text \<open>
  The functions a program calls to learn the time: \<^verbatim>\<open>time\<close>, \<^verbatim>\<open>ftime\<close>, \<^verbatim>\<open>gettimeofday\<close>,
  \<^verbatim>\<open>clock_gettime\<close>, \<^verbatim>\<open>timespec_get\<close>, the variants with 64-bit structures and the internal
  variants of \<^verbatim>\<open>src/src/libfaketime.c\<close>. A pointer argument is an option, \<open>None\<close> for NULL; a result
  gives the value returned, what the pointers point to afterwards, and the state.
\<close>

section \<open>Common steps\<close>

text \<open>\<^verbatim>\<open>ftpl_init()\<close> at the head of an intercepted function, with uncontended locks.\<close>

definition ftpl_ready :: "ft_state \<Rightarrow> ft_state exitable" where
  "ftpl_ready s = exit_bind (ftpl_init 0 0 s) (\<lambda>(_, s). Inr s)"

text \<open>The clocks that \<^verbatim>\<open>FAKETIME_DONT_FAKE_MONOTONIC\<close> exempts.\<close>

definition fakes_clock :: "int \<Rightarrow> ft_state \<Rightarrow> bool" where
  "fakes_clock clk_id s \<longleftrightarrow> fake_monotonic_clock s \<noteq> 0 \<or>
     (clk_id \<noteq> CLOCK_MONOTONIC \<and> clk_id \<noteq> CLOCK_MONOTONIC_RAW \<and> clk_id \<noteq> CLOCK_MONOTONIC_COARSE \<and> clk_id \<noteq> CLOCK_BOOTTIME)"

section \<open>Seconds\<close>

definition read_faked_realtime :: "ft_state \<Rightarrow> (timespec option \<times> ft_state) exitable" where
  "read_faked_realtime s =
    (case real_clock_gettime CLOCK_REALTIME \<lparr>tv_sec = 0, tv_nsec = 0\<rparr> s of ((result, tp), s) \<Rightarrow>
     if result = - 1 then Inr (None, s)
     else exit_bind (fake_clock_gettime CLOCK_REALTIME tp s) (\<lambda>((_, tp), s). Inr (Some tp, s)))"

definition ft_time :: "int option \<Rightarrow> ft_state \<Rightarrow> ((int \<times> int option) \<times> ft_state) exitable" where
  "ft_time time_tptr s =
    exit_bind (ftpl_ready s) (\<lambda>s.
    exit_bind (read_faked_realtime s) (\<lambda>(r, s).
      case r of None \<Rightarrow> Inr ((- 1, time_tptr), s)
      | Some tp \<Rightarrow> Inr ((tv_sec tp, if time_tptr \<noteq> None then Some (tv_sec tp) else None), s)))"

text \<open>The internal variant does not initialise the library.\<close>

definition ft___time :: "int option \<Rightarrow> ft_state \<Rightarrow> ((int \<times> int option) \<times> ft_state) exitable" where
  "ft___time time_tptr s =
    exit_bind (read_faked_realtime s) (\<lambda>(r, s).
      case r of None \<Rightarrow> Inr ((- 1, time_tptr), s)
      | Some tp \<Rightarrow> Inr ((tv_sec tp, if time_tptr \<noteq> None then Some (tv_sec tp) else None), s))"

section \<open>\<^verbatim>\<open>ftime\<close>\<close>

record timeb =
  tb_time :: int
  tb_millitm :: int

text \<open>The body shared by the two variants; the real function is asked first, for the time zone.\<close>

definition ftime_body :: "string \<Rightarrow> timeb option \<Rightarrow> ft_state \<Rightarrow> ((int \<times> timeb option) \<times> ft_state) exitable" where
  "ftime_body fn tb s =
    (case tb of None \<Rightarrow> Inr ((0, None), s)
     | Some b \<Rightarrow>
        (case check_missing_real fn s of (ok, s) \<Rightarrow>
        if \<not> ok then Inr ((0, Some b), s)
        else (case os_call s of (result, s) \<Rightarrow>
          if result = - 1 then Inr ((- 1, Some b), s)
          else exit_bind (read_faked_realtime s) (\<lambda>(r, s).
            case r of None \<Rightarrow> Inr ((- 1, Some b), s)
            | Some tp \<Rightarrow> Inr ((result, Some (b\<lparr>tb_time := tv_sec tp, tb_millitm := tv_nsec tp sdiv 1000000\<rparr>)), s)))))"

definition ft_ftime :: "timeb option \<Rightarrow> ft_state \<Rightarrow> ((int \<times> timeb option) \<times> ft_state) exitable" where
  "ft_ftime tb s = exit_bind (ftpl_ready s) (ftime_body ''ftime'' tb)"

definition ft___ftime :: "timeb option \<Rightarrow> ft_state \<Rightarrow> ((int \<times> timeb option) \<times> ft_state) exitable" where
  "ft___ftime tb s = ftime_body ''__ftime'' tb s"

section \<open>\<^verbatim>\<open>gettimeofday\<close>\<close>

text \<open>The real function: the real-time clock in microseconds.\<close>

definition real_gettimeofday :: "timeval \<Rightarrow> ft_state \<Rightarrow> (int \<times> timeval) \<times> ft_state" where
  "real_gettimeofday tv s =
    (case real_clock_gettime CLOCK_REALTIME \<lparr>tv_sec = tval_sec tv, tv_nsec = tv_usec tv * 1000\<rparr> s of ((result, tp), s) \<Rightarrow>
      ((result, if result = - 1 then tv else \<lparr>tval_sec = tv_sec tp, tv_usec = tv_nsec tp sdiv 1000\<rparr>), s))"

definition gettimeofday_body :: "string \<Rightarrow> timeval option \<Rightarrow> ft_state \<Rightarrow> ((int \<times> timeval option) \<times> ft_state) exitable" where
  "gettimeofday_body fn tv s =
    (case tv of None \<Rightarrow> Inr ((- 1, None), s)
     | Some tv \<Rightarrow>
        (case check_missing_real fn s of (ok, s) \<Rightarrow>
        if \<not> ok then Inr ((- 1, Some tv), s)
        else (case real_gettimeofday tv s of ((result, tv), s) \<Rightarrow>
          if result = - 1 then Inr ((result, Some tv), s)
          else exit_bind (fake_gettimeofday tv s) (\<lambda>((result, tv), s). Inr ((result, Some tv), s)))))"

definition ft_gettimeofday :: "timeval option \<Rightarrow> ft_state \<Rightarrow> ((int \<times> timeval option) \<times> ft_state) exitable" where
  "ft_gettimeofday tv s = exit_bind (ftpl_ready s) (gettimeofday_body ''gettimeofday'' tv)"

definition ft___gettimeofday :: "timeval option \<Rightarrow> ft_state \<Rightarrow> ((int \<times> timeval option) \<times> ft_state) exitable" where
  "ft___gettimeofday tv s = gettimeofday_body ''__gettimeofday'' tv s"

section \<open>\<^verbatim>\<open>clock_gettime\<close>\<close>

definition clock_gettime_body :: "string \<Rightarrow> int \<Rightarrow> timespec option \<Rightarrow> ft_state \<Rightarrow> ((int \<times> timespec option) \<times> ft_state) exitable" where
  "clock_gettime_body fn clk_id tp s =
    (case tp of None \<Rightarrow> Inr ((- 1, None), s\<lparr>errno := EFAULT\<rparr>)
     | Some tp \<Rightarrow>
        (case check_missing_real fn s of (ok, s) \<Rightarrow>
        if \<not> ok then Inr ((- 1, Some tp), s)
        else (case real_clock_gettime clk_id tp s of ((result, tp), s) \<Rightarrow>
          if result = - 1 then Inr ((result, Some tp), s)
          else if fakes_clock clk_id s
          then exit_bind (fake_clock_gettime clk_id tp s) (\<lambda>((result, tp), s). Inr ((result, Some tp), s))
          else Inr ((result, Some tp), s))))"

definition clock_gettime :: "int \<Rightarrow> timespec option \<Rightarrow> ft_state \<Rightarrow> ((int \<times> timespec option) \<times> ft_state) exitable" where
  "clock_gettime clk_id tp s = exit_bind (ftpl_ready s) (clock_gettime_body ''clock_gettime'' clk_id tp)"

definition ft___clock_gettime :: "int \<Rightarrow> timespec option \<Rightarrow> ft_state \<Rightarrow> ((int \<times> timespec option) \<times> ft_state) exitable" where
  "ft___clock_gettime clk_id tp s = clock_gettime_body ''__clock_gettime'' clk_id tp s"

section \<open>64-bit structures of 32-bit systems\<close>

text \<open>The nanoseconds of \<^verbatim>\<open>struct __timespec64\<close> are 32 bits wide, the seconds unsigned.\<close>

record timespec64 =
  ts64_sec :: int
  ts64_nsec :: int

record timeval64 =
  tv64_sec :: int
  tv64_usec :: int

text \<open>\<open>garbage\<close> is what the local variable holds before the call: the code copies it when the call fails.\<close>

definition clock_gettime64 :: "timespec \<Rightarrow> int \<Rightarrow> timespec64 option \<Rightarrow> ft_state \<Rightarrow> ((int \<times> timespec64 option) \<times> ft_state) exitable" where
  "clock_gettime64 garbage clk_id tp64 s =
    (case tp64 of None \<Rightarrow> Inr ((- 1, None), s\<lparr>errno := EFAULT\<rparr>)
     | Some _ \<Rightarrow>
        exit_bind (clock_gettime clk_id (Some garbage) s) (\<lambda>((result, tp), s).
          Inr ((result, map_option (\<lambda>tp. \<lparr>ts64_sec = tv_sec tp mod 18446744073709551616, ts64_nsec = tv_nsec tp mod 4294967296\<rparr>) tp), s)))"

definition gettimeofday64 :: "timeval \<Rightarrow> ft_state \<Rightarrow> ((int \<times> timeval64 option) \<times> ft_state) exitable" where
  "gettimeofday64 garbage s =
    exit_bind (ft_gettimeofday (Some garbage) s) (\<lambda>((result, tv), s).
      Inr ((result, map_option (\<lambda>tv. \<lparr>tv64_sec = tval_sec tv mod 18446744073709551616, tv64_usec = tv_usec tv mod 18446744073709551616\<rparr>) tv), s))"

definition ft___time64 :: "timespec \<Rightarrow> int option \<Rightarrow> ft_state \<Rightarrow> ((int \<times> int option) \<times> ft_state) exitable" where
  "ft___time64 garbage write_out s =
    exit_bind (clock_gettime CLOCK_REALTIME (Some garbage) s) (\<lambda>((error, tp), s).
      if error = - 1 then Inr ((18446744073709551615, write_out), s)
      else let output = (case tp of Some tp \<Rightarrow> tv_sec tp mod 18446744073709551616 | None \<Rightarrow> 0)
           in Inr ((output, if write_out \<noteq> None then Some output else None), s))"

section \<open>\<^verbatim>\<open>timespec_get\<close>\<close>

abbreviation (input) TIME_UTC :: int where "TIME_UTC \<equiv> 1"

text \<open>The real function knows the base \<^verbatim>\<open>TIME_UTC\<close> and returns it, or 0.\<close>

definition real_timespec_get :: "timespec \<Rightarrow> int \<Rightarrow> ft_state \<Rightarrow> (int \<times> timespec) \<times> ft_state" where
  "real_timespec_get ts base s =
    (if base \<noteq> TIME_UTC then ((0, ts), s)
     else case real_clock_gettime CLOCK_REALTIME ts s of ((result, tp), s) \<Rightarrow> ((if result = - 1 then 0 else base, tp), s))"

definition timespec_get :: "timespec option \<Rightarrow> int \<Rightarrow> ft_state \<Rightarrow> ((int \<times> timespec option) \<times> ft_state) exitable" where
  "timespec_get ts base s =
    exit_bind (ftpl_ready s) (\<lambda>s.
      case ts of None \<Rightarrow> Inr ((0, None), s)
      | Some ts \<Rightarrow>
         (case check_missing_real ''timespec_get'' s of (ok, s) \<Rightarrow>
         if \<not> ok then Inr ((0, Some ts), s)
         else (case real_timespec_get ts base s of ((result, ts), s) \<Rightarrow>
           if result = 0 then Inr ((result, Some ts), s)
           else exit_bind (fake_clock_gettime CLOCK_REALTIME ts s) (\<lambda>((_, ts), s). Inr ((result, Some ts), s)))))"

section \<open>Lemmas\<close>

lemma ftpl_ready_READY [simp]: "ftpl_init_state s = FT_INIT_READY \<Longrightarrow> ftpl_ready s = Inr s"
  by (simp add: ftpl_ready_def ftpl_init_def ft_init_once_generic_def)

lemma ftpl_ready_inv: "ft_inv s \<Longrightarrow> returns (ftpl_ready s) ft_inv"
  unfolding ftpl_ready_def by (rule returns_bind [OF ftpl_init_inv]) auto

lemma real_clock_inv: "real_clock_gettime clk old s = ((r, t), s') \<Longrightarrow> ft_inv s' = ft_inv s"
  by (auto simp: real_clock_gettime_def split: option.splits)

lemma read_faked_realtime_inv: "ft_inv s \<Longrightarrow> returns (read_faked_realtime s) (\<lambda>(r, s'). ft_inv s')"
proof -
  assume i: "ft_inv s"
  obtain r t s1 where c: "real_clock_gettime CLOCK_REALTIME \<lparr>tv_sec = 0, tv_nsec = 0\<rparr> s = ((r, t), s1)" by (metis surj_pair)
  have "ft_inv s1" using real_clock_inv [OF c] i by simp
  then show ?thesis unfolding read_faked_realtime_def c
    by (auto intro!: returns_bind [OF fake_clock_gettime_inv])
qed

lemma check_missing_real_inv: "check_missing_real n s = (ok, s') \<Longrightarrow> ft_inv s' = ft_inv s"
  by (auto simp: check_missing_real_def split: if_splits)

lemma clock_gettime_inv: "ft_inv s \<Longrightarrow> returns (clock_gettime clk tp s) (\<lambda>(r, s'). ft_inv s')"
proof -
  assume i: "ft_inv s"
  have "returns (clock_gettime_body n clk tp t) (\<lambda>(r, s'). ft_inv s')" if t: "ft_inv t" for n t
  proof (cases tp)
    case (Some tp')
    obtain ok t1 where ch: "check_missing_real n t = (ok, t1)" by fastforce
    obtain r u t2 where c: "real_clock_gettime clk tp' t1 = ((r, u), t2)" by (metis surj_pair)
    have "ft_inv t2" "ft_inv t1" using check_missing_real_inv [OF ch] real_clock_inv [OF c] t by simp_all
    then show ?thesis by (auto simp: clock_gettime_body_def Some ch c intro!: returns_bind [OF fake_clock_gettime_inv])
  qed (simp add: clock_gettime_body_def t)
  then show ?thesis unfolding clock_gettime_def by (auto intro!: returns_bind [OF ftpl_ready_inv] i)
qed

lemma fake_gettimeofday_inv: "ft_inv s \<Longrightarrow> returns (fake_gettimeofday tv s) (\<lambda>(r, s'). ft_inv s')"
  unfolding fake_gettimeofday_def Let_def by (auto intro!: returns_bind [OF fake_clock_gettime_inv])

lemma ft_gettimeofday_inv: "ft_inv s \<Longrightarrow> returns (ft_gettimeofday tv s) (\<lambda>(r, s'). ft_inv s')"
proof -
  assume i: "ft_inv s"
  have "returns (gettimeofday_body n tv t) (\<lambda>(r, s'). ft_inv s')" if t: "ft_inv t" for n t
  proof (cases tv)
    case (Some tv')
    obtain ok t1 where ch: "check_missing_real n t = (ok, t1)" by fastforce
    obtain r u t2 where c: "real_gettimeofday tv' t1 = ((r, u), t2)" by (metis surj_pair)
    have "ft_inv t2" "ft_inv t1" using check_missing_real_inv [OF ch] c t
      by (auto simp: real_gettimeofday_def real_clock_inv split: prod.splits)
    then show ?thesis by (auto simp: gettimeofday_body_def Some ch c intro!: returns_bind [OF fake_gettimeofday_inv])
  qed (simp add: gettimeofday_body_def t)
  then show ?thesis unfolding ft_gettimeofday_def by (auto intro!: returns_bind [OF ftpl_ready_inv] i)
qed

lemma ft_time_inv: "ft_inv s \<Longrightarrow> returns (ft_time p s) (\<lambda>(r, s'). ft_inv s')"
  unfolding ft_time_def
  by (auto intro!: returns_bind [OF ftpl_ready_inv] returns_bind [OF read_faked_realtime_inv] split: option.split)

lemma timespec_get_inv: "ft_inv s \<Longrightarrow> returns (timespec_get ts base s) (\<lambda>(r, s'). ft_inv s')"
proof -
  assume i: "ft_inv s"
  have "returns (case ts of None \<Rightarrow> Inr ((0, None), t)
      | Some ts \<Rightarrow>
         (case check_missing_real ''timespec_get'' t of (ok, s) \<Rightarrow>
         if \<not> ok then Inr ((0, Some ts), s)
         else (case real_timespec_get ts base s of ((result, ts), s) \<Rightarrow>
           if result = 0 then Inr ((result, Some ts), s)
           else exit_bind (fake_clock_gettime CLOCK_REALTIME ts s) (\<lambda>((_, ts), s). Inr ((result, Some ts), s))))) (\<lambda>(r, s'). ft_inv s')"
    if t: "ft_inv t" for t
  proof (cases ts)
    case (Some x)
    obtain ok t1 where ch: "check_missing_real ''timespec_get'' t = (ok, t1)" by fastforce
    obtain r u t2 where c: "real_timespec_get x base t1 = ((r, u), t2)" by (metis surj_pair)
    have "ft_inv t2" "ft_inv t1" using check_missing_real_inv [OF ch] c t
      by (auto simp: real_timespec_get_def real_clock_inv split: prod.splits if_splits)
    then show ?thesis by (auto simp: Some ch c intro!: returns_bind [OF fake_clock_gettime_inv])
  qed (simp add: t)
  then show ?thesis unfolding timespec_get_def by (auto intro!: returns_bind [OF ftpl_ready_inv] i)
qed

lemma ft_ftime_inv: "ft_inv s \<Longrightarrow> returns (ft_ftime tb s) (\<lambda>(r, s'). ft_inv s')"
proof -
  assume i: "ft_inv s"
  have "returns (ftime_body n tb t) (\<lambda>(r, s'). ft_inv s')" if t: "ft_inv t" for n t
  proof (cases tb)
    case (Some b)
    obtain ok t1 where ch: "check_missing_real n t = (ok, t1)" by fastforce
    obtain r t2 where c: "os_call t1 = (r, t2)" by fastforce
    have "ft_inv t2" "ft_inv t1" using check_missing_real_inv [OF ch] os_call_invD [OF c] t by simp_all
    then show ?thesis by (auto simp: ftime_body_def Some ch c split: option.split intro!: returns_bind [OF read_faked_realtime_inv])
  qed (simp add: ftime_body_def t)
  then show ?thesis unfolding ft_ftime_def by (auto intro!: returns_bind [OF ftpl_ready_inv] i)
qed

subsection \<open>Times that are far from the ends of the range\<close>

definition modest :: "timespec \<Rightarrow> bool" where
  "modest t \<longleftrightarrow> ts_normal t \<and> \<bar>tv_sec t\<bar> \<le> 1152921504606846976"

lemma modest_bounds: "modest t \<Longrightarrow> \<bar>ts_total t\<bar> \<le> 1152921504606846977 * SEC_TO_nSEC"
  by (auto simp: modest_def normal_def total_of_def SEC_TO_nSEC_def)

lemma clamp_modest: "\<bar>x\<bar> \<le> 4611686018427387904 * SEC_TO_nSEC \<Longrightarrow> clamp_total SEC_TO_nSEC x = x"
  by (rule clamp_id) (simp_all add: SEC_TO_nSEC_def)

lemma running_time_modest:
  assumes "modest tp" "modest (start_of_clock clk (ftpl_starttime s))" "modest (user_faked_time_timespec s)" "\<not> user_rate_set s"
  shows "ts_total (running_time clk s tp) =
    ts_total (user_faked_time_timespec s) + (ts_total tp - ts_total (start_of_clock clk (ftpl_starttime s)))"
proof -
  note b = assms(1-3) [THEN modest_bounds]
  have n: "ts_normal tp" "ts_normal (start_of_clock clk (ftpl_starttime s))" "ts_normal (user_faked_time_timespec s)"
    using assms by (simp_all add: modest_def)
  have 1: "clamp_total SEC_TO_nSEC (ts_total tp - ts_total (start_of_clock clk (ftpl_starttime s)))
      = ts_total tp - ts_total (start_of_clock clk (ftpl_starttime s))"
    by (rule clamp_modest) (use b in \<open>simp add: SEC_TO_nSEC_def\<close>)
  have 2: "clamp_total SEC_TO_nSEC (ts_total (user_faked_time_timespec s) + (ts_total tp - ts_total (start_of_clock clk (ftpl_starttime s))))
      = ts_total (user_faked_time_timespec s) + (ts_total tp - ts_total (start_of_clock clk (ftpl_starttime s)))"
    by (rule clamp_modest) (use b in \<open>simp add: SEC_TO_nSEC_def\<close>)
  show ?thesis using assms(4) n 1 2 by (simp add: running_time_def Let_def timespec_totals)
qed

lemma microseconds_of_total: "0 \<le> tv_nsec t \<Longrightarrow> total_of SEC_TO_uSEC (tv_sec t, tv_nsec t sdiv 1000) = ts_total t div 1000"
  by (simp add: total_of_def SEC_TO_uSEC_def SEC_TO_nSEC_def sdiv_nonneg)

lemma microseconds_range: "0 \<le> n \<Longrightarrow> n < SEC_TO_nSEC \<Longrightarrow> 0 \<le> n sdiv 1000 \<and> n sdiv 1000 < SEC_TO_uSEC"
  by (simp add: sdiv_nonneg SEC_TO_nSEC_def SEC_TO_uSEC_def pos_imp_zdiv_nonneg_iff div_less_iff_less_mult)

section \<open>Properties\<close>

text \<open>
  One faked moment, whichever function asks: at an instant at which the faked real-time clock is t,
  \<^verbatim>\<open>clock_gettime\<close> and \<^verbatim>\<open>timespec_get\<close> store t, \<^verbatim>\<open>time\<close> returns and stores its seconds and \<^verbatim>\<open>ftime\<close> its
  seconds and milliseconds, and they leave the library in the same state.
\<close>

lemma time_interfaces_agree:
  assumes "ftpl_init_state s = FT_INIT_READY" "call_script s = []"
    and "\<not> missing_real s ''clock_gettime''" "\<not> missing_real s ''timespec_get''" "\<not> missing_real s ''ftime''"
    and "clk_read s (clk_count s) CLOCK_REALTIME = Some now"
    and "fake_clock_gettime CLOCK_REALTIME now (s\<lparr>clk_count := Suc (clk_count s)\<rparr>) = Inr ((0, t), s')"
  shows "clock_gettime CLOCK_REALTIME (Some x) s = Inr ((0, Some t), s') \<and>
    timespec_get (Some x) TIME_UTC s = Inr ((TIME_UTC, Some t), s') \<and>
    ft_time (Some y) s = Inr ((tv_sec t, Some (tv_sec t)), s') \<and>
    ft_ftime (Some b) s = Inr ((0, Some \<lparr>tb_time = tv_sec t, tb_millitm = tv_nsec t sdiv 1000000\<rparr>), s')"
  using assms
  by (simp add: clock_gettime_def clock_gettime_body_def timespec_get_def ft_time_def ft_ftime_def ftime_body_def read_faked_realtime_def
      check_missing_real_def real_clock_gettime_def real_timespec_get_def fakes_clock_def)

text \<open>A library that is initialised, for examples.\<close>

definition sample_ready :: ft_state where
  "sample_ready = sample_running\<lparr>ftpl_init_state := FT_INIT_READY\<rparr>"


lemma sample_ready_props:
  "steady (sample_ready\<lparr>clk_count := n\<rparr>)" "lock_works (sample_ready\<lparr>clk_count := n\<rparr>)" "ft_mode (sample_ready\<lparr>clk_count := n\<rparr>) = FT_START_AT"
  "\<not> user_per_tick_inc_set (sample_ready\<lparr>clk_count := n\<rparr>)" "\<not> user_rate_set (sample_ready\<lparr>clk_count := n\<rparr>)"
  "user_faked_time_timespec (sample_ready\<lparr>clk_count := n\<rparr>) = \<lparr>tv_sec = 1005, tv_nsec = 0\<rparr>" "ftpl_starttime (sample_ready\<lparr>clk_count := n\<rparr>) = sample_start"
  "ftpl_init_state sample_ready = FT_INIT_READY" "\<not> missing_real sample_ready r" "call_script sample_ready = []" "clk_count sample_ready = 0"
  "clk_read sample_ready k clk = Some \<lparr>tv_sec = 1000 + int k, tv_nsec = 0\<rparr>" "fake_monotonic_clock sample_ready = 1"
  "\<not> sem_held sample_ready" "config_ok sample_ready"
  by (simp_all add: sample_ready_def sample_running_def steady_def lock_works_def static_defs getenv_def config_ok_def replay_ok_def)

lemma sample_ready_fakes:
  "\<exists>s'. fake_clock_gettime CLOCK_REALTIME \<lparr>tv_sec = 1000, tv_nsec = 0\<rparr> (sample_ready\<lparr>clk_count := n\<rparr>) = Inr ((0, \<lparr>tv_sec = 1005, tv_nsec = 0\<rparr>), s')"
proof -
  have "running_time CLOCK_REALTIME (sample_ready\<lparr>clk_count := n\<rparr>) \<lparr>tv_sec = 1000, tv_nsec = 0\<rparr> = \<lparr>tv_sec = 1005, tv_nsec = 0\<rparr>"
    by (simp add: running_time_def sample_ready_props start_of_clock_def sample_start_def timespecsub_def timespecadd_def
        timersub2_def timeradd2_def SEC_TO_nSEC_def wrap_s64_def pair_ts_def)
  moreover have "ts_normal \<lparr>tv_sec = 1000, tv_nsec = 0\<rparr>" "ts_normal (start_of_clock CLOCK_REALTIME sample_start)" "ts_normal \<lparr>tv_sec = 1005, tv_nsec = 0\<rparr>"
    by (simp_all add: normal_def in_s64_def start_of_clock_def sample_start_def SEC_TO_nSEC_def)
  ultimately show ?thesis
    using fake_clock_running [OF sample_ready_props(1-4) [of n], of CLOCK_REALTIME "\<lparr>tv_sec = 1000, tv_nsec = 0\<rparr>"]
    by (auto simp: sample_ready_props)
qed

lemma time_interfaces_agree_witness:
  "\<exists>s'. clock_gettime CLOCK_REALTIME (Some unset_time) sample_ready = Inr ((0, Some \<lparr>tv_sec = 1005, tv_nsec = 0\<rparr>), s') \<and>
     ft_time (Some 0) sample_ready = Inr ((1005, Some 1005), s')"
proof -
  obtain s' where f: "fake_clock_gettime CLOCK_REALTIME \<lparr>tv_sec = 1000, tv_nsec = 0\<rparr> (sample_ready\<lparr>clk_count := Suc (clk_count sample_ready)\<rparr>)
      = Inr ((0, \<lparr>tv_sec = 1005, tv_nsec = 0\<rparr>), s')" using sample_ready_fakes by blast
  have r: "clk_read sample_ready (clk_count sample_ready) CLOCK_REALTIME = Some \<lparr>tv_sec = 1000, tv_nsec = 0\<rparr>"
    by (simp add: sample_ready_props)
  note h = sample_ready_props(8,10,9,9,9) r f
  show ?thesis using time_interfaces_agree [OF h, of unset_time 0] by auto
qed



text \<open>
  \<^verbatim>\<open>__clock_gettime64\<close> copies its local structure also when the call inside has failed: the caller
  then receives whatever the uninitialised variable held.
\<close>

lemma clock_gettime64_copies_garbage:
  assumes "ftpl_init_state s = FT_INIT_READY" "\<not> missing_real s ''clock_gettime''" "clk_read s (clk_count s) clk = None"
  shows "\<exists>s'. clock_gettime64 garbage clk (Some x) s =
    Inr ((- 1, Some \<lparr>ts64_sec = tv_sec garbage mod 18446744073709551616, ts64_nsec = tv_nsec garbage mod 4294967296\<rparr>), s')"
  using assms by (simp add: clock_gettime64_def clock_gettime_def clock_gettime_body_def check_missing_real_def real_clock_gettime_def)

lemma clock_gettime64_copies_garbage_witness:
  "\<exists>s'. clock_gettime64 \<lparr>tv_sec = 77, tv_nsec = 88\<rparr> 99 (Some \<lparr>ts64_sec = 0, ts64_nsec = 0\<rparr>) (sample_ready\<lparr>clk_read := \<lambda>_ _. None\<rparr>) =
    Inr ((- 1, Some \<lparr>ts64_sec = 77, ts64_nsec = 88\<rparr>), s')"
  using clock_gettime64_copies_garbage [of "sample_ready\<lparr>clk_read := \<lambda>_ _. None\<rparr>" 99 "\<lparr>tv_sec = 77, tv_nsec = 88\<rparr>"]
  by (simp add: sample_ready_props)


text \<open>
  \<^verbatim>\<open>gettimeofday\<close> fakes to the microsecond although the real one drops the nanoseconds: with an offset or a
  start date, the faked time of day advances by exactly as many microseconds as the real one, from the
  faked base time, because the nanoseconds of the start are added before the difference
  is taken.
\<close>

lemma gettimeofday_microseconds:
  assumes "steady s" "lock_works s" "ft_mode s = FT_START_AT" "\<not> user_per_tick_inc_set s" "\<not> user_rate_set s"
    and "0 \<le> tv_usec tv" "tv_usec tv < SEC_TO_uSEC" "\<bar>tval_sec tv\<bar> \<le> 1152921504606846976"
    and "modest (st_real (ftpl_starttime s))" "modest (user_faked_time_timespec s)"
  shows "\<exists>tv' s'. fake_gettimeofday tv s = Inr ((0, tv'), s') \<and> 0 \<le> tv_usec tv' \<and> tv_usec tv' < SEC_TO_uSEC \<and>
    total_of SEC_TO_uSEC (tv_pair tv') =
      ts_total (user_faked_time_timespec s) div 1000 + (total_of SEC_TO_uSEC (tv_pair tv) - ts_total (st_real (ftpl_starttime s)) div 1000)"
proof -
  let ?st = "st_real (ftpl_starttime s)" and ?b = "user_faked_time_timespec s"
  let ?ts = "\<lparr>tv_sec = tval_sec tv, tv_nsec = tv_usec tv * 1000 + tv_nsec ?st smod 1000\<rparr>"
  have st: "0 \<le> tv_nsec ?st" using assms(9) by (simp add: modest_def normal_def)
  then have r: "tv_nsec ?st smod 1000 = tv_nsec ?st mod 1000" by (simp add: smod_nonneg)
  have "tv_nsec ?st mod 1000 < 1000" by simp
  with assms(6-8) have m: "modest ?ts"
    by (simp add: r modest_def normal_def in_s64_def SEC_TO_nSEC_def SEC_TO_uSEC_def) linarith
  obtain s' where f: "fake_clock_gettime CLOCK_REALTIME ?ts s = Inr ((0, running_time CLOCK_REALTIME s ?ts), s')"
    using fake_clock_running [OF assms(1-4), of CLOCK_REALTIME ?ts] m assms(9,10) by (auto simp: modest_def start_of_clock_def)
  let ?t = "running_time CLOCK_REALTIME s ?ts"
  have n: "ts_normal ?t" by (rule running_time_normal) (use m assms(9,10) in \<open>auto simp: modest_def start_of_clock_def\<close>)
  have "ts_total ?t = ts_total ?b + (ts_total ?ts - ts_total ?st)"
    using running_time_modest [OF m, of CLOCK_REALTIME s] assms by (simp add: start_of_clock_def)
  also have "ts_total ?ts - ts_total ?st = 1000 * (total_of SEC_TO_uSEC (tv_pair tv) - ts_total ?st div 1000)"
  proof -
    have "ts_total ?st div 1000 = tv_sec ?st * 1000000 + tv_nsec ?st div 1000"
      by (simp add: total_of_def SEC_TO_nSEC_def)
    moreover have "tv_nsec ?st mod 1000 - tv_nsec ?st = - (1000 * (tv_nsec ?st div 1000))"
      using mult_div_mod_eq [of 1000 "tv_nsec ?st"] by linarith
    ultimately show ?thesis unfolding r by (simp add: total_of_def SEC_TO_uSEC_def SEC_TO_nSEC_def)
  qed
  finally have "ts_total ?t div 1000 = ts_total ?b div 1000 + (total_of SEC_TO_uSEC (tv_pair tv) - ts_total ?st div 1000)" by simp
  moreover have "total_of SEC_TO_uSEC (tv_sec ?t, tv_nsec ?t sdiv 1000) = ts_total ?t div 1000"
    using n by (intro microseconds_of_total) (simp add: normal_def)
  moreover have "0 \<le> tv_nsec ?t sdiv 1000 \<and> tv_nsec ?t sdiv 1000 < SEC_TO_uSEC"
    using n by (intro microseconds_range) (simp_all add: normal_def)
  ultimately show ?thesis using f by (simp add: fake_gettimeofday_def Let_def)
qed

lemma gettimeofday_microseconds_witness:
  "\<exists>tv' s'. fake_gettimeofday \<lparr>tval_sec = 1010, tv_usec = 7\<rparr> sample_running = Inr ((0, tv'), s') \<and>
     total_of SEC_TO_uSEC (tv_pair tv') = 1015000007"
  using gettimeofday_microseconds [OF steady_sample, of "\<lparr>tval_sec = 1010, tv_usec = 7\<rparr>"]
  by (auto simp: sample_running_fields sample_start_def modest_def normal_def in_s64_def total_of_def SEC_TO_nSEC_def SEC_TO_uSEC_def)

end
