(* ===== verification/File_Times.thy ===== *)
theory File_Times
  imports Time_Functions
begin

text \<open>
  File timestamps: the \<^verbatim>\<open>stat\<close> family, which fakes the times a file has, and the \<^verbatim>\<open>utime\<close> family,
  which translates the times a program sets, of \<^verbatim>\<open>src/src/libfaketime.c\<close>. What the real function
  reports is an argument \<open>outcome\<close> of each \<^verbatim>\<open>stat\<close> function; a function that sets times returns, beside
  its result, the times it passed on to the real function (\<open>None\<close> when it did not call it).
\<close>

section \<open>The lock around \<^verbatim>\<open>stat\<close>\<close>

text \<open>The critical section: the increment per call is switched off.\<close>

definition stat_locked :: "ft_state \<Rightarrow> ft_state exitable" where
  "stat_locked s = Inr (s\<lparr>user_per_tick_inc_set_backup := user_per_tick_inc_set s, user_per_tick_inc_set := False\<rparr>)"

function lock_for_stat :: "ft_state \<Rightarrow> ft_state exitable" where
  "lock_for_stat s =
    (if shared_sem_initialized s then
       (case ft_sem_lock s of (r, s1) \<Rightarrow>
          if r = - 1 then
            (if errno s1 = EINTR then lock_for_stat s1
             else Inl (Exit 1 ''libfaketime: In lock_for_stat(), ft_sem_lock failed''))
          else stat_locked s1)
     else stat_locked s)"
  by pat_completeness auto
termination
  by (relation "measure (\<lambda>s. length (lock_script s))")
    (auto simp: ft_sem_lock_def split: list.splits if_splits)

definition unlock_for_stat :: "ft_state \<Rightarrow> ft_state exitable" where
  "unlock_for_stat s =
    (let s = s\<lparr>user_per_tick_inc_set := user_per_tick_inc_set_backup s\<rparr>
     in if shared_sem_initialized s then
          (case ft_sem_unlock s of (r, s) \<Rightarrow>
             if r = - 1 then Inl (Exit 1 ''libfaketime: In unlock_for_stat(), ft_sem_unlock failed'') else Inr s)
        else Inr s)"

section \<open>Faking the times of a file\<close>

record stat_buf =
  st_ctim :: timespec
  st_atim :: timespec
  st_mtim :: timespec

text \<open>One call \<^verbatim>\<open>fake_clock_gettime(CLOCK_REALTIME, ...)\<close> whose result code is not used.\<close>

definition fake_file_time :: "timespec \<Rightarrow> ft_state \<Rightarrow> (timespec \<times> ft_state) exitable" where
  "fake_file_time t s = exit_bind (fake_clock_gettime CLOCK_REALTIME t s) (\<lambda>((_, t), s). Inr (t, s))"

definition fake_statbuf :: "stat_buf \<Rightarrow> ft_state \<Rightarrow> (stat_buf \<times> ft_state) exitable" where
  "fake_statbuf buf s =
    exit_bind (lock_for_stat s) (\<lambda>s.
    exit_bind (fake_file_time (st_ctim buf) s) (\<lambda>(c, s).
    exit_bind (fake_file_time (st_atim buf) s) (\<lambda>(a, s).
    exit_bind (fake_file_time (st_mtim buf) s) (\<lambda>(m, s).
    exit_bind (unlock_for_stat s) (\<lambda>s.
      Inr (\<lparr>st_ctim = c, st_atim = a, st_mtim = m\<rparr>, s))))))"

definition fake_stat64buf :: "stat_buf \<Rightarrow> ft_state \<Rightarrow> (stat_buf \<times> ft_state) exitable" where
  "fake_stat64buf buf s =
    exit_bind (lock_for_stat s) (\<lambda>s.
    exit_bind (fake_file_time (st_ctim buf) s) (\<lambda>(c, s).
    exit_bind (fake_file_time (st_atim buf) s) (\<lambda>(a, s).
    exit_bind (fake_file_time (st_mtim buf) s) (\<lambda>(m, s).
    exit_bind (unlock_for_stat s) (\<lambda>s.
      Inr (\<lparr>st_ctim = c, st_atim = a, st_mtim = m\<rparr>, s))))))"

text \<open>
  \<^verbatim>\<open>STAT_HANDLER_COMMON\<close>: the name of the real pointer, the faking of a buffer, and what the real
  function returns and stores (\<open>None\<close> for a NULL buffer).
\<close>

definition stat_handler ::
  "string \<Rightarrow> ('b \<Rightarrow> ft_state \<Rightarrow> ('b \<times> ft_state) exitable) \<Rightarrow> int \<times> 'b option \<Rightarrow> ft_state \<Rightarrow> ((int \<times> 'b option) \<times> ft_state) exitable" where
  "stat_handler name fake outcome s =
    exit_bind (ftpl_ready s) (\<lambda>s.
      case check_missing_real name s of (ok, s) \<Rightarrow>
      if \<not> ok then Inr ((- 1, snd outcome), s)
      else case outcome of (result, buf) \<Rightarrow>
        if result = - 1 then Inr ((- 1, buf), s)
        else (case buf of
                None \<Rightarrow> Inr ((result, None), s)
              | Some b \<Rightarrow>
                 if \<not> fake_stat_disabled s \<and> \<not> dont_fake s
                 then exit_bind (fake b s) (\<lambda>(b, s). Inr ((result, Some b), s))
                 else Inr ((result, Some b), s)))"

type_synonym stat_call = "int \<times> stat_buf option \<Rightarrow> ft_state \<Rightarrow> ((int \<times> stat_buf option) \<times> ft_state) exitable"

definition ft_stat :: stat_call where "ft_stat = stat_handler ''stat'' fake_statbuf"
definition ft_fstat :: stat_call where "ft_fstat = stat_handler ''fstat'' fake_statbuf"
definition ft_lstat :: stat_call where "ft_lstat = stat_handler ''lstat'' fake_statbuf"
definition ft___xstat :: stat_call where "ft___xstat = stat_handler ''xstat'' fake_statbuf"
definition ft___fxstat :: stat_call where "ft___fxstat = stat_handler ''fxstat'' fake_statbuf"
definition ft___fxstatat :: stat_call where "ft___fxstatat = stat_handler ''fxstatat'' fake_statbuf"
definition ft___lxstat :: stat_call where "ft___lxstat = stat_handler ''lxstat'' fake_statbuf"
definition ft_stat64 :: stat_call where "ft_stat64 = stat_handler ''stat64'' fake_stat64buf"
definition ft_lstat64 :: stat_call where "ft_lstat64 = stat_handler ''lstat64'' fake_stat64buf"
definition ft_fstat64 :: stat_call where "ft_fstat64 = stat_handler ''fstat64'' fake_stat64buf"
definition ft_fstatat :: stat_call where "ft_fstatat = stat_handler ''fstatat'' fake_statbuf"
definition ft_fstatat64 :: stat_call where "ft_fstatat64 = stat_handler ''fstatat64'' fake_stat64buf"
definition ft___xstat64 :: stat_call where "ft___xstat64 = stat_handler ''xstat64'' fake_stat64buf"
definition ft___fxstat64 :: stat_call where "ft___fxstat64 = stat_handler ''fxstat64'' fake_stat64buf"
definition ft___fxstatat64 :: stat_call where "ft___fxstatat64 = stat_handler ''fxstatat64'' fake_stat64buf"
definition ft___lxstat64 :: stat_call where "ft___lxstat64 = stat_handler ''lxstat64'' fake_stat64buf"

subsection \<open>\<^verbatim>\<open>statx\<close>\<close>

record statx_buf =
  stx_mask :: int
  stx_atime :: timespec
  stx_btime :: timespec
  stx_ctime :: timespec
  stx_mtime :: timespec

text \<open>The nanoseconds of a \<^verbatim>\<open>struct statx_timestamp\<close> are an unsigned 32-bit number.\<close>

definition fake_statx_timestamp :: "timespec \<Rightarrow> ft_state \<Rightarrow> (timespec \<times> ft_state) exitable" where
  "fake_statx_timestamp p s =
    exit_bind (fake_file_time p s) (\<lambda>(t, s). Inr (t\<lparr>tv_nsec := tv_nsec t mod 4294967296\<rparr>, s))"

text \<open>The bits \<^verbatim>\<open>STATX_ATIME\<close>, \<^verbatim>\<open>STATX_MTIME\<close>, \<^verbatim>\<open>STATX_CTIME\<close> and \<^verbatim>\<open>STATX_BTIME\<close> of the mask.\<close>

definition fake_if :: "int \<Rightarrow> nat \<Rightarrow> timespec \<Rightarrow> ft_state \<Rightarrow> (timespec \<times> ft_state) exitable" where
  "fake_if flags n p s = (if bit flags n then fake_statx_timestamp p s else Inr (p, s))"

definition fake_statxbuf :: "statx_buf \<Rightarrow> ft_state \<Rightarrow> (statx_buf \<times> ft_state) exitable" where
  "fake_statxbuf buf s =
    exit_bind (lock_for_stat s) (\<lambda>s.
    exit_bind (fake_if (stx_mask buf) 5 (stx_atime buf) s) (\<lambda>(a, s).
    exit_bind (fake_if (stx_mask buf) 7 (stx_ctime buf) s) (\<lambda>(c, s).
    exit_bind (fake_if (stx_mask buf) 6 (stx_mtime buf) s) (\<lambda>(m, s).
    exit_bind (fake_if (stx_mask buf) 11 (stx_btime buf) s) (\<lambda>(b, s).
    exit_bind (unlock_for_stat s) (\<lambda>s.
      Inr (buf\<lparr>stx_atime := a, stx_btime := b, stx_ctime := c, stx_mtime := m\<rparr>, s)))))))"

definition ft_statx :: "int \<times> statx_buf option \<Rightarrow> ft_state \<Rightarrow> ((int \<times> statx_buf option) \<times> ft_state) exitable" where
  "ft_statx = stat_handler ''statx'' fake_statxbuf"

section \<open>Setting the times of a file\<close>

definition fake_current_realtime :: "ft_state \<Rightarrow> ((int \<times> timespec) \<times> ft_state) exitable" where
  "fake_current_realtime s =
    (case real_clock_gettime CLOCK_REALTIME \<lparr>tv_sec = 0, tv_nsec = 0\<rparr> s of ((result, tp), s) \<Rightarrow>
     if result = - 1 then Inr ((- 1, tp), s) else fake_clock_gettime CLOCK_REALTIME tp s)"

definition fake_current_timeval :: "ft_state \<Rightarrow> (timeval option \<times> ft_state) exitable" where
  "fake_current_timeval s =
    exit_bind (fake_current_realtime s) (\<lambda>((result, ts), s).
      if result = - 1 then Inr (None, s)
      else Inr (Some \<lparr>tval_sec = tv_sec ts, tv_usec = tv_nsec ts sdiv 1000\<rparr>, s))"

text \<open>The result of a real function, and what it was called with.\<close>

definition real_set :: "'t \<Rightarrow> ft_state \<Rightarrow> (int \<times> 't option) \<times> ft_state" where
  "real_set tms s = (case os_call s of (r, s) \<Rightarrow> ((r, Some tms), s))"

record utimbuf =
  actime :: int
  modtime :: int

definition ft_utime :: "utimbuf option \<Rightarrow> ft_state \<Rightarrow> ((int \<times> utimbuf option option) \<times> ft_state) exitable" where
  "ft_utime tms s =
    exit_bind (ftpl_ready s) (\<lambda>s.
      case check_missing_real ''utime'' s of (ok, s) \<Rightarrow>
      if \<not> ok then Inr ((- 1, None), s)
      else if fake_utime_disabled s \<noteq> 0 then
        (case tms of
           Some t \<Rightarrow> Inr (real_set (Some t) s)
         | None \<Rightarrow> exit_bind (fake_current_realtime s) (\<lambda>((r, now), s).
             if r = - 1 then Inr ((- 1, None), s)
             else Inr (real_set (Some \<lparr>actime = tv_sec now, modtime = tv_sec now\<rparr>) s)))
      else
        (case tms of
           Some t \<Rightarrow> Inr (real_set (Some \<lparr>actime = wrap_s64 (actime t - tv_sec (user_offset s)),
                                        modtime = wrap_s64 (modtime t - tv_sec (user_offset s))\<rparr>) s)
         | None \<Rightarrow> Inr (real_set None s)))"

text \<open>The \<^verbatim>\<open>timersub\<close> of \<^verbatim>\<open><sys/time.h>\<close>, which does not saturate.\<close>

definition timersub :: "timeval \<Rightarrow> timeval \<Rightarrow> timeval" where
  "timersub a b =
    (let sec = tval_sec a - tval_sec b; usec = tv_usec a - tv_usec b
     in if usec < 0 then \<lparr>tval_sec = wrap_s64 (sec - 1), tv_usec = usec + 1000000\<rparr>
        else \<lparr>tval_sec = wrap_s64 sec, tv_usec = usec\<rparr>)"

definition ft_utimes :: "(timeval \<times> timeval) option \<Rightarrow> ft_state \<Rightarrow> ((int \<times> (timeval \<times> timeval) option option) \<times> ft_state) exitable" where
  "ft_utimes tms s =
    exit_bind (ftpl_ready s) (\<lambda>s.
      case check_missing_real ''utimes'' s of (ok, s) \<Rightarrow>
      if \<not> ok then Inr ((- 1, None), s)
      else if fake_utime_disabled s \<noteq> 0 then
        (case tms of
           Some t \<Rightarrow> Inr (real_set (Some t) s)
         | None \<Rightarrow> exit_bind (fake_current_timeval s) (\<lambda>(r, s).
             case r of None \<Rightarrow> Inr ((- 1, None), s)
             | Some tv \<Rightarrow> Inr (real_set (Some (tv, tv)) s)))
      else
        (case tms of
           Some (t0, t1) \<Rightarrow>
             (let user_offset2 = \<lparr>tval_sec = tv_sec (user_offset s), tv_usec = tv_nsec (user_offset s) sdiv 1000\<rparr>
              in Inr (real_set (Some (timersub t0 user_offset2, timersub t1 user_offset2)) s))
         | None \<Rightarrow> Inr (real_set None s)))"

definition UTIME_NOW :: int where "UTIME_NOW = 1073741823"
definition UTIME_OMIT :: int where "UTIME_OMIT = 1073741822"

text \<open>
  One round of the loop of \<^verbatim>\<open>fake_two_timespec\<close>: the fake present once it is known, the value stored
  (\<open>None\<close> when the faked clock fails), and the state.
\<close>

definition fake_one_timespec :: "timespec option \<Rightarrow> timespec \<Rightarrow> ft_state \<Rightarrow> (timespec option \<times> timespec option \<times> ft_state) exitable" where
  "fake_one_timespec now t s =
    (if fake_utime_disabled s \<noteq> 0 \<or> tv_nsec t = UTIME_OMIT \<or> tv_nsec t = UTIME_NOW then
       (if fake_utime_disabled s \<noteq> 0 \<and> tv_nsec t = UTIME_NOW then
          (case now of
             Some n \<Rightarrow> Inr (now, Some n, s)
           | None \<Rightarrow> exit_bind (fake_current_realtime s) (\<lambda>((r, n), s).
               if r = - 1 then Inr (None, None, s) else Inr (Some n, Some n, s)))
        else Inr (now, Some t, s))
     else Inr (now, Some (pair_ts (snd (timersub2 SEC_TO_nSEC (ts_pair t) (ts_pair (user_offset s))))), s))"

definition fake_two_timespec :: "(timespec \<times> timespec) option \<Rightarrow> ft_state \<Rightarrow> ((timespec \<times> timespec) option \<times> ft_state) exitable" where
  "fake_two_timespec in_times s =
    (let (t0, t1) = (case in_times of Some p \<Rightarrow> p | None \<Rightarrow> (\<lparr>tv_sec = 0, tv_nsec = UTIME_NOW\<rparr>, \<lparr>tv_sec = 0, tv_nsec = UTIME_NOW\<rparr>))
     in exit_bind (fake_one_timespec None t0 s) (\<lambda>(now, r0, s).
          case r0 of None \<Rightarrow> Inr (None, s)
          | Some o0 \<Rightarrow> exit_bind (fake_one_timespec now t1 s) (\<lambda>(now, r1, s).
              case r1 of None \<Rightarrow> Inr (None, s) | Some o1 \<Rightarrow> Inr (Some (o0, o1), s))))"

text \<open>The two functions differ in the name of the file only.\<close>

definition set_two_timespec :: "string \<Rightarrow> (timespec \<times> timespec) option \<Rightarrow> ft_state \<Rightarrow> ((int \<times> (timespec \<times> timespec) option) \<times> ft_state) exitable" where
  "set_two_timespec fn tms s =
    exit_bind (ftpl_ready s) (\<lambda>s.
      case check_missing_real fn s of (ok, s) \<Rightarrow>
      if \<not> ok then Inr ((- 1, None), s)
      else exit_bind (fake_two_timespec tms s) (\<lambda>(tn, s).
             case tn of None \<Rightarrow> Inr ((- 1, None), s) | Some tn \<Rightarrow> Inr (real_set tn s)))"

definition ft_utimensat :: "(timespec \<times> timespec) option \<Rightarrow> ft_state \<Rightarrow> ((int \<times> (timespec \<times> timespec) option) \<times> ft_state) exitable" where
  "ft_utimensat = set_two_timespec ''utimensat''"

definition ft_futimens :: "(timespec \<times> timespec) option \<Rightarrow> ft_state \<Rightarrow> ((int \<times> (timespec \<times> timespec) option) \<times> ft_state) exitable" where
  "ft_futimens = set_two_timespec ''futimens''"

section \<open>Lemmas\<close>

declare lock_for_stat.simps [simp del]

interpretation stat_lock: lock_retry shared_sem_initialized lock_for_stat
  "Exit 1 ''libfaketime: In lock_for_stat(), ft_sem_lock failed''" stat_locked
  by unfold_locales (subst lock_for_stat.simps, simp_all)

text \<open>In a running state each file time is shown as the faked clock shows that moment.\<close>

lemma fake_file_time_running:
  assumes "steady s" "lock_works s" "ft_mode s = FT_START_AT" "\<not> user_per_tick_inc_set s"
    and "ts_normal t" "ts_normal (st_real (ftpl_starttime s))" "ts_normal (user_faked_time_timespec s)"
  shows "\<exists>s'. fake_file_time t s = Inr (running_time CLOCK_REALTIME s t, s') \<and> clock_frame s s'"
  using fake_clock_running [OF assms(1-4), of CLOCK_REALTIME t] assms(5-7)
  by (auto simp: fake_file_time_def start_of_clock_def)

lemma clock_frame_running:
  assumes "clock_frame s s'" "steady s" "lock_works s"
  shows "steady s'" "lock_works s'" "running_time clk s' = running_time clk s"
  using assms steady_frame running_time_frame by (auto simp: clock_frame_def)

text \<open>What \<^verbatim>\<open>lock_for_stat\<close> leaves, and what \<^verbatim>\<open>unlock_for_stat\<close> makes of a state that only the clock has changed.\<close>

definition in_stat :: "ft_state \<Rightarrow> ft_state" where
  "in_stat s = (if shared_sem_initialized s then locked s else s)\<lparr>user_per_tick_inc_set_backup := user_per_tick_inc_set s, user_per_tick_inc_set := False\<rparr>"

lemma lock_for_stat_ok: "lock_works s \<Longrightarrow> lock_for_stat s = Inr (in_stat s)"
proof -
  assume l: "lock_works s"
  have t: "user_per_tick_inc_set (locked s) = user_per_tick_inc_set s" by (simp add: locked_def)
  show ?thesis
  proof (cases "shared_sem_initialized s")
    case True
    then show ?thesis using stat_lock.run_ok [OF True] l by (simp add: lock_works_def in_stat_def stat_locked_def t)
  next
    case False
    then show ?thesis by (subst lock_for_stat.simps) (simp add: in_stat_def stat_locked_def)
  qed
qed

lemma in_stat_fields:
  "ft_mode (in_stat s) = ft_mode s" "\<not> user_per_tick_inc_set (in_stat s)" "ftpl_starttime (in_stat s) = ftpl_starttime s"
  "user_faked_time_timespec (in_stat s) = user_faked_time_timespec s" "user_rate_set (in_stat s) = user_rate_set s"
  "user_rate (in_stat s) = user_rate s" "user_per_tick_inc_set_backup (in_stat s) = user_per_tick_inc_set s"
  "steady s \<Longrightarrow> steady (in_stat s)" "lock_works s \<Longrightarrow> lock_works (in_stat s)" "shm (in_stat s) = shm s"
  "shared_sem_initialized (in_stat s) = shared_sem_initialized s" "user_offset (in_stat s) = user_offset s"
  "clk_count (in_stat s) = clk_count s" "environ (in_stat s) = environ s"
  using lock_works_locked [of s]
  by (simp_all add: in_stat_def steady_def locked_def getenv_def lock_works_def)

lemma running_time_in_stat: "running_time clk (in_stat s) = running_time clk s"
  unfolding running_time_def in_stat_fields ..

lemma clock_frame_backup:
  assumes "clock_frame s s'"
  shows "user_per_tick_inc_set_backup s' = user_per_tick_inc_set_backup s" "fake_stat_disabled s' = fake_stat_disabled s"
    "ftpl_init_state s' = ftpl_init_state s" "missing_real s' = missing_real s" "fake_utime_disabled s' = fake_utime_disabled s"
    "call_script s' = call_script s" "dont_fake s' = dont_fake s" "user_offset s' = user_offset s"
  using assms by (cases s; cases s'; simp add: clock_frame_def erase_clock_def)+

text \<open>What a look at a file's times leaves behind: nothing of the request, the increment or the shared memory has changed.\<close>

definition stat_kept :: "ft_state \<Rightarrow> ft_state \<Rightarrow> bool" where
  "stat_kept s s' \<longleftrightarrow> shm s' = shm s \<and> user_per_tick_inc_set s' = user_per_tick_inc_set s \<and>
     (shared_sem_initialized s \<longrightarrow> \<not> sem_held s') \<and> steady s' \<and> lock_works s'"

lemma unlock_for_stat_ok:
  assumes "clock_frame (in_stat s) t" "steady s" "lock_works s"
  shows "\<exists>s'. unlock_for_stat t = Inr s' \<and> stat_kept s s'"
proof -
  note f = clock_frame_fields [OF assms(1)] clock_frame_backup [OF assms(1)]
  note st = clock_frame_running [OF assms(1) in_stat_fields(8) [OF assms(2)] in_stat_fields(9) [OF assms(3)]]
  let ?t = "t\<lparr>user_per_tick_inc_set := user_per_tick_inc_set s\<rparr>"
  have t: "t\<lparr>user_per_tick_inc_set := user_per_tick_inc_set_backup t\<rparr> = ?t" using f by (simp add: in_stat_fields)
  have w: "lock_works ?t" "steady ?t" using st by (simp_all add: lock_works_def steady_def getenv_def)
  have u: "lock_works (unlocked ?t)" "steady (unlocked ?t)"
    using lock_works_unlocked [OF w(1)] w(2) by (simp_all add: unlocked_def steady_def getenv_def)
  have un: "ft_sem_unlock ?t = (0, unlocked ?t)" using w(1) by (intro ft_sem_unlock_ok) (simp add: lock_works_def)
  have uf: "user_per_tick_inc_set (unlocked ?t) = user_per_tick_inc_set s" by (simp add: unlocked_def)
  show ?thesis
    unfolding unlock_for_stat_def Let_def t using u w un f uf
    by (simp add: stat_kept_def in_stat_fields)
qed

lemma fake_statbuf_running:
  assumes "steady s" "lock_works s" "ft_mode s = FT_START_AT"
    and "ts_normal (st_real (ftpl_starttime s))" "ts_normal (user_faked_time_timespec s)"
    and "ts_normal (st_ctim b)" "ts_normal (st_atim b)" "ts_normal (st_mtim b)"
  shows "\<exists>s'. fake_statbuf b s = Inr (\<lparr>st_ctim = running_time CLOCK_REALTIME s (st_ctim b), st_atim = running_time CLOCK_REALTIME s (st_atim b),
      st_mtim = running_time CLOCK_REALTIME s (st_mtim b)\<rparr>, s') \<and> stat_kept s s'"
proof -
  let ?i = "in_stat s"
  have *: "\<exists>s2. fake_file_time t s1 = Inr (running_time CLOCK_REALTIME s t, s2) \<and> clock_frame ?i s2" if cf: "clock_frame ?i s1" and tn: "ts_normal t" for s1 t
  proof -
    note f = clock_frame_fields [OF cf] and r = clock_frame_running [OF cf in_stat_fields(8) [OF assms(1)] in_stat_fields(9) [OF assms(2)]]
    obtain s2 where "fake_file_time t s1 = Inr (running_time CLOCK_REALTIME s1 t, s2)" "clock_frame s1 s2"
      using fake_file_time_running [OF r(1,2), of t] assms(3-5) f tn by (auto simp: in_stat_fields)
    then show ?thesis using r(3) clock_frame_trans [OF cf] by (auto simp: running_time_in_stat)
  qed
  obtain s1 where 1: "fake_file_time (st_ctim b) ?i = Inr (running_time CLOCK_REALTIME s (st_ctim b), s1)" "clock_frame ?i s1"
    using * [OF clock_frame_refl assms(6)] by blast
  obtain s2 where 2: "fake_file_time (st_atim b) s1 = Inr (running_time CLOCK_REALTIME s (st_atim b), s2)" "clock_frame ?i s2"
    using * [OF 1(2) assms(7)] by blast
  obtain s3 where 3: "fake_file_time (st_mtim b) s2 = Inr (running_time CLOCK_REALTIME s (st_mtim b), s3)" "clock_frame ?i s3"
    using * [OF 2(2) assms(8)] by blast
  obtain s' where "unlock_for_stat s3 = Inr s'" "stat_kept s s'" using unlock_for_stat_ok [OF 3(2) assms(1,2)] by blast
  then show ?thesis by (simp add: fake_statbuf_def lock_for_stat_ok [OF assms(2)] 1 2 3)
qed

lemma ft_stat_running:
  assumes "ftpl_init_state s = FT_INIT_READY" "\<not> missing_real s ''stat''" "\<not> fake_stat_disabled s"
    and "steady s" "lock_works s" "ft_mode s = FT_START_AT"
    and "ts_normal (st_real (ftpl_starttime s))" "ts_normal (user_faked_time_timespec s)"
    and "ts_normal (st_ctim b)" "ts_normal (st_atim b)" "ts_normal (st_mtim b)"
  shows "\<exists>s'. ft_stat (0, Some b) s = Inr ((0, Some \<lparr>st_ctim = running_time CLOCK_REALTIME s (st_ctim b),
      st_atim = running_time CLOCK_REALTIME s (st_atim b), st_mtim = running_time CLOCK_REALTIME s (st_mtim b)\<rparr>), s') \<and> stat_kept s s'"
proof -
  have "\<not> dont_fake s" using assms(4) by (simp add: steady_def)
  moreover note fake_statbuf_running [OF assms(4-11)]
  ultimately show ?thesis using assms(1-3) by (auto simp: ft_stat_def stat_handler_def check_missing_real_def)
qed

text \<open>Subtracting the offset and letting the clock add it again gives the time back.\<close>

lemma offset_and_back:
  assumes m: "modest t" "modest off" "modest (st_real (ftpl_starttime s))" and "\<not> user_rate_set s"
    and "user_faked_time_timespec s = timespecadd (st_real (ftpl_starttime s)) off"
  shows "ts_normal (timespecsub t off)" "running_time CLOCK_REALTIME s (timespecsub t off) = t"
proof -
  let ?st = "st_real (ftpl_starttime s)"
  note b = m [THEN modest_bounds]
  have n: "ts_normal t" "ts_normal off" "ts_normal ?st" using m by (simp_all add: modest_def)
  note sub = timespecsub_total [OF n(1,2)] and add = timespecadd_total [OF n(3,2)]
  have c: "clamp_total SEC_TO_nSEC (ts_total t - ts_total off) = ts_total t - ts_total off"
    "clamp_total SEC_TO_nSEC (ts_total ?st + ts_total off) = ts_total ?st + ts_total off"
    "clamp_total SEC_TO_nSEC (ts_total t - ts_total off - ts_total ?st) = ts_total t - ts_total off - ts_total ?st"
    "clamp_total SEC_TO_nSEC (ts_total t) = ts_total t"
    by (rule clamp_modest, use b in \<open>simp add: SEC_TO_nSEC_def\<close>)+
  show s: "ts_normal (timespecsub t off)" by (rule sub)
  note d = timespecsub_total [OF s n(3)]
  have "ts_total (timespecsub (timespecsub t off) ?st) = ts_total t - ts_total off - ts_total ?st" using d sub c by simp
  with timespecadd_total [OF add(1) d(1)] add(2) c
  have "ts_normal (timespecadd (timespecadd ?st off) (timespecsub (timespecsub t off) ?st))"
    "ts_total (timespecadd (timespecadd ?st off) (timespecsub (timespecsub t off) ?st)) = ts_total t" by simp_all
  with n(1) show "running_time CLOCK_REALTIME s (timespecsub t off) = t"
    using assms(4,5) by (auto simp: running_time_def start_of_clock_def intro: ts_total_inj)
qed

section \<open>Properties\<close>

text \<open>
  Claim C26.
  Looking at a file's times shows each of them as the faked clock would show that moment, and has no
  effect on the fake: even with an increment per call, the shared tick counter and all of the shared
  memory are untouched, the increment is in force again afterwards and the lock is released.
\<close>

theorem stat_takes_no_tick:
  assumes "ftpl_init_state s = FT_INIT_READY" "\<not> missing_real s ''stat''" "\<not> fake_stat_disabled s"
    and "steady s" "lock_works s" "ft_mode s = FT_START_AT"
    and "ts_normal (st_real (ftpl_starttime s))" "ts_normal (user_faked_time_timespec s)"
    and "ts_normal (st_ctim b)" "ts_normal (st_atim b)" "ts_normal (st_mtim b)"
  shows "\<exists>s'. ft_stat (0, Some b) s = Inr ((0, Some \<lparr>st_ctim = running_time CLOCK_REALTIME s (st_ctim b),
      st_atim = running_time CLOCK_REALTIME s (st_atim b), st_mtim = running_time CLOCK_REALTIME s (st_mtim b)\<rparr>), s') \<and>
    shm s' = shm s \<and> user_per_tick_inc_set s' = user_per_tick_inc_set s \<and> (shared_sem_initialized s \<longrightarrow> \<not> sem_held s')"
  using ft_stat_running [OF assms] by (auto simp: stat_kept_def)

theorem stat_takes_no_tick_witness:
  "\<exists>b' s'. ft_stat (0, Some \<lparr>st_ctim = \<lparr>tv_sec = 1000, tv_nsec = 0\<rparr>, st_atim = \<lparr>tv_sec = 1, tv_nsec = 0\<rparr>, st_mtim = \<lparr>tv_sec = 2, tv_nsec = 0\<rparr>\<rparr>)
      (sample_ready\<lparr>shared_sem_initialized := True, user_per_tick_inc_set := True\<rparr>) = Inr ((0, Some b'), s') \<and>
     ticks (shm s') = 0 \<and> user_per_tick_inc_set s'"
proof -
  let ?s = "sample_ready\<lparr>shared_sem_initialized := True, user_per_tick_inc_set := True\<rparr>"
  let ?b = "\<lparr>st_ctim = \<lparr>tv_sec = 1000, tv_nsec = 0\<rparr>, st_atim = \<lparr>tv_sec = 1, tv_nsec = 0\<rparr>, st_mtim = \<lparr>tv_sec = 2, tv_nsec = 0\<rparr>\<rparr>"
  have h: "ftpl_init_state ?s = FT_INIT_READY" "\<not> missing_real ?s ''stat''" "\<not> fake_stat_disabled ?s" "steady ?s" "lock_works ?s"
    "ft_mode ?s = FT_START_AT" "ts_normal (st_real (ftpl_starttime ?s))" "ts_normal (user_faked_time_timespec ?s)"
    "ts_normal (st_ctim ?b)" "ts_normal (st_atim ?b)" "ts_normal (st_mtim ?b)"
    by (simp_all add: sample_ready_def sample_running_def static_defs steady_def lock_works_def getenv_def sample_start_def normal_def in_s64_def SEC_TO_nSEC_def)
  have "ticks (shm ?s) = 0" by (simp add: sample_ready_def sample_running_def static_defs new_shared_def)
  then show ?thesis using stat_takes_no_tick [OF h] by auto
qed

text \<open>
  Claim C27.
  Setting a file's times and looking at them again are inverse to each other: with the faking of
  \<^verbatim>\<open>utime\<close> switched on and an offset request, the times a program passes to \<^verbatim>\<open>utimensat\<close> are the times
  \<^verbatim>\<open>stat\<close> shows it afterwards, to the nanosecond, while the file carries real times.
\<close>

theorem utimensat_stat_roundtrip:
  assumes "ftpl_init_state s = FT_INIT_READY" "\<not> missing_real s ''stat''" "\<not> missing_real s ''utimensat''"
    and "\<not> fake_stat_disabled s" "fake_utime_disabled s = 0" "call_script s = []"
    and "steady s" "lock_works s" "ft_mode s = FT_START_AT" "\<not> user_rate_set s"
    and "user_faked_time_timespec s = timespecadd (st_real (ftpl_starttime s)) (user_offset s)"
    and "modest t0" "modest t1" "modest (user_offset s)" "modest (st_real (ftpl_starttime s))" "ts_normal c"
  shows "\<exists>tn s' c' s''. ft_utimensat (Some (t0, t1)) s = Inr ((0, Some tn), s') \<and>
    tn = (timespecsub t0 (user_offset s), timespecsub t1 (user_offset s)) \<and>
    ft_stat (0, Some \<lparr>st_ctim = c, st_atim = fst tn, st_mtim = snd tn\<rparr>) s' =
      Inr ((0, Some \<lparr>st_ctim = c', st_atim = t0, st_mtim = t1\<rparr>), s'')"
proof -
  have n: "tv_nsec t0 < 1000000000" "tv_nsec t1 < 1000000000" using assms(12,13) by (simp_all add: modest_def normal_def SEC_TO_nSEC_def)
  then have u: "ft_utimensat (Some (t0, t1)) s = Inr ((0, Some (timespecsub t0 (user_offset s), timespecsub t1 (user_offset s))), s)"
    using assms(1,3,5,6)
    by (simp add: ft_utimensat_def set_two_timespec_def check_missing_real_def fake_two_timespec_def fake_one_timespec_def
        real_set_def UTIME_NOW_def UTIME_OMIT_def timespecsub_def)
  note b0 = offset_and_back [OF assms(12,14,15,10,11)] and b1 = offset_and_back [OF assms(13,14,15,10,11)]
  have "ts_normal (user_faked_time_timespec s)" unfolding assms(11) using assms(14,15) by (intro timespecadd_total) (simp_all add: modest_def)
  then show ?thesis
    using ft_stat_running [OF assms(1,2,4,7,8,9), of "\<lparr>st_ctim = c, st_atim = timespecsub t0 (user_offset s), st_mtim = timespecsub t1 (user_offset s)\<rparr>"]
      assms(15,16) b0 b1 u by (auto simp: modest_def)
qed

theorem utimensat_stat_roundtrip_witness:
  "\<exists>tn s' c' s''. ft_utimensat (Some (\<lparr>tv_sec = 500, tv_nsec = 7\<rparr>, \<lparr>tv_sec = 600, tv_nsec = 8\<rparr>))
      (sample_ready\<lparr>fake_utime_disabled := 0, user_offset := \<lparr>tv_sec = 5, tv_nsec = 0\<rparr>\<rparr>) = Inr ((0, Some tn), s') \<and>
    fst tn = \<lparr>tv_sec = 495, tv_nsec = 7\<rparr> \<and>
    ft_stat (0, Some \<lparr>st_ctim = \<lparr>tv_sec = 0, tv_nsec = 0\<rparr>, st_atim = fst tn, st_mtim = snd tn\<rparr>) s' =
      Inr ((0, Some \<lparr>st_ctim = c', st_atim = \<lparr>tv_sec = 500, tv_nsec = 7\<rparr>, st_mtim = \<lparr>tv_sec = 600, tv_nsec = 8\<rparr>\<rparr>), s'')"
proof -
  let ?s = "sample_ready\<lparr>fake_utime_disabled := 0, user_offset := \<lparr>tv_sec = 5, tv_nsec = 0\<rparr>\<rparr>"
  have h: "ftpl_init_state ?s = FT_INIT_READY" "\<not> missing_real ?s ''stat''" "\<not> missing_real ?s ''utimensat''" "\<not> fake_stat_disabled ?s"
    "fake_utime_disabled ?s = 0" "call_script ?s = []" "steady ?s" "lock_works ?s" "ft_mode ?s = FT_START_AT" "\<not> user_rate_set ?s"
    "user_faked_time_timespec ?s = timespecadd (st_real (ftpl_starttime ?s)) (user_offset ?s)"
    "modest \<lparr>tv_sec = 500, tv_nsec = 7\<rparr>" "modest \<lparr>tv_sec = 600, tv_nsec = 8\<rparr>" "modest (user_offset ?s)" "modest (st_real (ftpl_starttime ?s))"
    "ts_normal \<lparr>tv_sec = 0, tv_nsec = 0\<rparr>"
    by (simp_all add: sample_ready_def sample_running_def static_defs steady_def lock_works_def getenv_def sample_start_def modest_def normal_def
        in_s64_def SEC_TO_nSEC_def timespecadd_def timeradd2_def pair_ts_def wrap_s64_def)
  have v: "timespecsub \<lparr>tv_sec = 500, tv_nsec = 7\<rparr> (user_offset ?s) = \<lparr>tv_sec = 495, tv_nsec = 7\<rparr>"
    by (simp add: timespecsub_def timersub2_def pair_ts_def SEC_TO_nSEC_def wrap_s64_def)
  show ?thesis using utimensat_stat_roundtrip [OF h] v by fastforce
qed


text \<open>
  Claim C38.
  Waiting for the lock ends: however often it is interrupted by signals, \<^verbatim>\<open>next_time\<close>, \<^verbatim>\<open>load_time\<close>, \<^verbatim>\<open>save_time\<close> and
  \<^verbatim>\<open>lock_for_stat\<close> do what they do with an uninterrupted lock (an interruption leaves only its trace in
  \<^verbatim>\<open>errno\<close>). When the lock is obtained in the end, the first returns with the lock released and the
  last two with the lock held.
\<close>

theorem interrupted_locks_retried:
  assumes "shared_sem_initialized s" "infile_set s" "lock_works s" "s' = s\<lparr>errno := (if n = 0 then errno s else EINTR)\<rparr>"
  shows "next_time tp ticklen (with_interrupts n s) = next_time tp ticklen s' \<and>
    load_time tp (with_interrupts n s) = load_time tp s' \<and>
    save_time_lock (with_interrupts n s) = save_time_lock s' \<and>
    lock_for_stat (with_interrupts n s) = lock_for_stat s' \<and>
    (\<exists>t u. next_time tp ticklen (with_interrupts n s) = Inr (t, u) \<and> \<not> sem_held u) \<and>
    (\<exists>u. save_time_lock (with_interrupts n s) = Inr u \<and> sem_held u) \<and>
    (\<exists>u. lock_for_stat (with_interrupts n s) = Inr u \<and> sem_held u)"
proof -
  have w: "lock_works s'" "shared_sem_initialized s'" using assms by (simp_all add: lock_works_def)
  have "save_time_lock s' = Inr (locked s')" using save_lock.run_ok [of s'] w(1) by (simp add: lock_works_def)
  moreover have "next_time tp ticklen (with_interrupts n s) = next_time tp ticklen s'" "load_time tp (with_interrupts n s) = load_time tp s'"
    "save_time_lock (with_interrupts n s) = save_time_lock s'" "lock_for_stat (with_interrupts n s) = lock_for_stat s'"
    using assms next_time.run_interrupted load_lock.run_interrupted save_lock.run_interrupted stat_lock.run_interrupted by simp_all
  moreover have "sem_held (in_stat s')" using w(2) by (simp add: in_stat_def locked_def)
  ultimately show ?thesis
    using next_time_ok [OF w(2,1)] lock_for_stat_ok [OF w(1)] by (simp add: unlocked_def locked_def)
qed

theorem interrupted_locks_retried_witness:
  "\<exists>u. lock_for_stat ((static_state sample_os)\<lparr>shared_sem_initialized := True, infile_set := True, lock_script := [EINTR, EINTR, 0]\<rparr>) = Inr u \<and> sem_held u"
proof -
  let ?s = "(static_state sample_os)\<lparr>shared_sem_initialized := True, infile_set := True, lock_script := [0]\<rparr>"
  have "shared_sem_initialized ?s" "infile_set ?s" "lock_works ?s" by (simp_all add: lock_works_def static_defs)
  then have "\<exists>u. lock_for_stat (with_interrupts 2 ?s) = Inr u \<and> sem_held u"
    using interrupted_locks_retried [of ?s _ 2, OF _ _ _ refl] by blast
  then show ?thesis by (simp add: with_interrupts_def numeral_2_eq_2)
qed

end
