(* ===== verification/Sleep_Functions.thy ===== *)
theory Sleep_Functions
  imports File_Times
begin

text \<open>
  Sleeping and waiting: \<^verbatim>\<open>nanosleep\<close>, \<^verbatim>\<open>clock_nanosleep\<close>, \<^verbatim>\<open>usleep\<close>, \<^verbatim>\<open>sleep\<close>, \<^verbatim>\<open>alarm\<close>, the \<^verbatim>\<open>poll\<close> and \<^verbatim>\<open>select\<close>
  families and the timed waits on semaphores of \<^verbatim>\<open>src/src/libfaketime.c\<close>. The real function is an
  argument: a function of the arguments it is passed that matter here, giving its result and what it stores. Each
  model returns, beside the result, what was passed to the real function (\<open>None\<close> when it was not called).
\<close>

section \<open>Scaling\<close>

text \<open>\<^verbatim>\<open>1.0 / user_rate\<close>, a division of doubles.\<close>

definition inverse_rate :: "ft_state \<Rightarrow> cfloat" where
  "inverse_rate s = fl_div c_double (Fin 1) (user_rate s)"

definition scaled :: "ft_state \<Rightarrow> bool" where
  "scaled s \<longleftrightarrow> user_rate_set s \<and> \<not> dont_fake s"

text \<open>The smallest integer not below a long double: \<^verbatim>\<open>ceill\<close>, exact.\<close>

definition INT_MAX :: int where "INT_MAX = 2147483647"

definition scale_timeout_milliseconds :: "int \<Rightarrow> ft_state \<Rightarrow> int" where
  "scale_timeout_milliseconds timeout s =
    (if timeout \<le> 0 \<or> \<not> user_rate_set s \<or> dont_fake s then timeout
     else case fl_div c_long_double (fl_of_int c_long_double timeout) (user_rate s) of
            Fin x \<Rightarrow> (let scaled_timeout = \<lceil>x\<rceil>
                      in if scaled_timeout \<ge> INT_MAX then INT_MAX
                         else if scaled_timeout < 1 then 1 else scaled_timeout)
          | Infty p \<Rightarrow> if p then INT_MAX else 1
          | NaN \<Rightarrow> 0)"

text \<open>The conversion of a double to \<^verbatim>\<open>unsigned int\<close>.\<close>

definition to_u32 :: "cfloat \<Rightarrow> int" where
  "to_u32 x = fl_trunc x mod 4294967296"

section \<open>Relative sleeps\<close>

type_synonym real_sleep = "timespec \<Rightarrow> timespec option \<Rightarrow> int \<times> timespec option"

text \<open>The remaining time is scaled back when the real call did not return -1.\<close>

definition scale_rem :: "timespec option \<Rightarrow> ft_state \<Rightarrow> timespec option" where
  "scale_rem rem s =
    (case rem of
       Some r \<Rightarrow> if (tv_sec r \<noteq> 0 \<or> tv_nsec r \<noteq> 0) \<and> scaled s then Some (timespecmul r (user_rate s)) else Some r
     | None \<Rightarrow> None)"

definition ft_nanosleep ::
  "real_sleep \<Rightarrow> timespec option \<Rightarrow> timespec option \<Rightarrow> ft_state \<Rightarrow> ((int \<times> timespec option \<times> timespec option) \<times> ft_state) exitable" where
  "ft_nanosleep real_nanosleep req rem s =
    exit_bind (ftpl_ready s) (\<lambda>s.
      if missing_real s ''nanosleep'' then Inr ((- 1, rem, None), s)
      else case req of None \<Rightarrow> Inr ((- 1, rem, None), s)
        | Some req \<Rightarrow>
           (let real_req = (if scaled s then timespecmul req (inverse_rate s) else req)
            in case real_nanosleep real_req rem of (result, rem) \<Rightarrow>
               if result = - 1 then Inr ((result, rem, Some real_req), s)
               else Inr ((result, scale_rem rem s, Some real_req), s)))"

text \<open>The deadline in real time of a deadline on the faked clock.\<close>

definition absolute_deadline :: "int \<Rightarrow> timespec \<Rightarrow> ft_state \<Rightarrow> timespec \<times> ft_state" where
  "absolute_deadline clock_id req s =
    (let timeadj = timespecsub req (user_faked_time_timespec s);
         tdiff = (if user_rate_set s then timespecmul timeadj (inverse_rate s) else timeadj)
     in if clock_id = CLOCK_REALTIME then (timespecadd (st_real (ftpl_starttime s)) tdiff, s)
        else if clock_id = CLOCK_MONOTONIC then
          (let s = s\<lparr>fake_monotonic_clock := get_fake_monotonic_setting (fake_monotonic_clock s) s\<rparr>
           in (if fake_monotonic_clock s \<noteq> 0 then timespecadd (st_mon (ftpl_starttime s)) tdiff else req, s))
        else (req, s))"

text \<open>\<open>abstime\<close> is the bit \<^verbatim>\<open>TIMER_ABSTIME\<close> of the flags.\<close>

definition ft_clock_nanosleep ::
  "real_sleep \<Rightarrow> int \<Rightarrow> bool \<Rightarrow> timespec option \<Rightarrow> timespec option \<Rightarrow> ft_state \<Rightarrow> ((int \<times> timespec option \<times> timespec option) \<times> ft_state) exitable" where
  "ft_clock_nanosleep real_clock_nanosleep clock_id abstime req rem s =
    exit_bind (ftpl_ready s) (\<lambda>s.
      if missing_real s ''clock_nanosleep'' then Inr ((- 1, rem, None), s)
      else case req of None \<Rightarrow> Inr ((- 1, rem, None), s)
        | Some req \<Rightarrow>
           (case (if abstime then absolute_deadline clock_id req s
                  else (if scaled s \<and> (clock_id = CLOCK_REALTIME \<or> clock_id = CLOCK_MONOTONIC)
                        then timespecmul req (inverse_rate s) else req, s)) of (real_req, s) \<Rightarrow>
            case real_clock_nanosleep real_req rem of (result, rem) \<Rightarrow>
              if result = - 1 then Inr ((result, rem, Some real_req), s)
              else Inr ((result, scale_rem rem s, Some real_req), s)))"

text \<open>What the whole-number sleeps pass on: nanoseconds, or the units of the function itself.\<close>

datatype passed_sleep = Passed_Nanosleep timespec | Passed_Whole int

definition ft_usleep ::
  "(passed_sleep \<Rightarrow> int) \<Rightarrow> int \<Rightarrow> ft_state \<Rightarrow> ((int \<times> passed_sleep option) \<times> ft_state) exitable" where
  "ft_usleep real_call usec s =
    exit_bind (ftpl_ready s) (\<lambda>s.
      if scaled s then
        (if missing_real s ''nanosleep'' then
           (if missing_real s ''usleep'' then Inr ((- 1, None), s)
            else let p = Passed_Whole (to_u32 (fl_mul c_double (inverse_rate s) (fl_of_int c_double usec)))
                 in Inr ((real_call p, Some p), s))
         else let real_req = timespecmul \<lparr>tv_sec = usec div 1000000, tv_nsec = (usec mod 1000000) * 1000\<rparr> (inverse_rate s);
                  p = Passed_Nanosleep real_req
              in Inr ((real_call p, Some p), s))
      else let p = Passed_Whole usec in Inr ((real_call p, Some p), s))"

text \<open>\<open>real_nanosleep\<close> gives its result and the remaining time; \<open>real_sleep\<close> the seconds left.\<close>

definition ft_sleep ::
  "timespec \<Rightarrow> real_sleep \<Rightarrow> (int \<Rightarrow> int) \<Rightarrow> int \<Rightarrow> ft_state \<Rightarrow> ((int \<times> passed_sleep option) \<times> ft_state) exitable" where
  "ft_sleep garbage real_nanosleep real_sleep seconds s =
    exit_bind (ftpl_ready s) (\<lambda>s.
      if scaled s then
        (if missing_real s ''nanosleep'' then
           (if missing_real s ''sleep'' then Inr ((0, None), s)
            else let p = to_u32 (fl_mul c_double (inverse_rate s) (fl_of_int c_double seconds))
                 in Inr ((to_u32 (fl_mul c_double (user_rate s) (fl_of_int c_double (real_sleep p))), Some (Passed_Whole p)), s))
         else let real_req = timespecmul \<lparr>tv_sec = seconds, tv_nsec = 0\<rparr> (inverse_rate s)
              in case real_nanosleep real_req (Some garbage) of (result, rem) \<Rightarrow>
                 if result = - 1 then Inr ((0, Some (Passed_Nanosleep real_req)), s)
                 else let rem = (case rem of Some r \<Rightarrow> r | None \<Rightarrow> garbage);
                          rem = (if tv_sec rem \<noteq> 0 \<or> tv_nsec rem \<noteq> 0 then timespecmul rem (user_rate s) else rem)
                      in Inr ((tv_sec rem mod 4294967296, Some (Passed_Nanosleep real_req)), s))
      else Inr ((real_sleep seconds, Some (Passed_Whole seconds)), s))"

text \<open>The rate is read before the library is initialised.\<close>

definition ft_alarm :: "(int \<Rightarrow> int) \<Rightarrow> int \<Rightarrow> ft_state \<Rightarrow> ((int \<times> int option) \<times> ft_state) exitable" where
  "ft_alarm real_alarm seconds s =
    (let seconds_real = (if scaled s then to_u32 (fl_mul c_double (inverse_rate s) (fl_of_int c_double seconds)) else seconds)
     in exit_bind (ftpl_ready s) (\<lambda>s.
       if missing_real s ''alarm'' then Inr ((4294967295, None), s)
       else let ret = real_alarm seconds_real
            in Inr ((if scaled s then to_u32 (fl_mul c_double (user_rate s) (fl_of_int c_double ret)) else ret, Some seconds_real), s)))"

section \<open>Waiting for events\<close>

definition ft_ppoll ::
  "(timespec option \<Rightarrow> int) \<Rightarrow> timespec option \<Rightarrow> ft_state \<Rightarrow> ((int \<times> timespec option option) \<times> ft_state) exitable" where
  "ft_ppoll real_ppoll timeout_ts s =
    exit_bind (ftpl_ready s) (\<lambda>s.
      if missing_real s ''ppoll'' then Inr ((- 1, None), s)
      else let real_timeout = (case timeout_ts of
                 Some t \<Rightarrow> if scaled s \<and> (tv_sec t > 0 \<or> tv_nsec t > 0) then Some (timespecmul t (inverse_rate s)) else Some t
               | None \<Rightarrow> None)
           in Inr ((real_ppoll real_timeout, Some real_timeout), s))"

text \<open>\<^verbatim>\<open>poll\<close>, \<^verbatim>\<open>epoll_wait\<close> and \<^verbatim>\<open>epoll_pwait\<close> treat their timeout alike.\<close>

definition milliseconds_wait ::
  "string \<Rightarrow> (int \<Rightarrow> int) \<Rightarrow> int \<Rightarrow> ft_state \<Rightarrow> ((int \<times> int option) \<times> ft_state) exitable" where
  "milliseconds_wait fn real_wait timeout s =
    exit_bind (ftpl_ready s) (\<lambda>s.
      if missing_real s fn then Inr ((- 1, None), s)
      else let t = scale_timeout_milliseconds timeout s in Inr ((real_wait t, Some t), s))"

definition ft_epoll_wait :: "(int \<Rightarrow> int) \<Rightarrow> int \<Rightarrow> ft_state \<Rightarrow> ((int \<times> int option) \<times> ft_state) exitable" where
  "ft_epoll_wait = milliseconds_wait ''epoll_wait''"

definition ft_epoll_pwait :: "(int \<Rightarrow> int) \<Rightarrow> int \<Rightarrow> ft_state \<Rightarrow> ((int \<times> int option) \<times> ft_state) exitable" where
  "ft_epoll_pwait = milliseconds_wait ''epoll_pwait''"

definition ft_poll :: "(int \<Rightarrow> int) \<Rightarrow> int \<Rightarrow> ft_state \<Rightarrow> ((int \<times> int option) \<times> ft_state) exitable" where
  "ft_poll = milliseconds_wait ''poll''"

text \<open>Seconds and microseconds through nanoseconds.\<close>

definition timeval_mul :: "timeval \<Rightarrow> cfloat \<Rightarrow> timeval" where
  "timeval_mul t c =
    (let ts = timespecmul \<lparr>tv_sec = tval_sec t, tv_nsec = tv_usec t * 1000\<rparr> c
     in \<lparr>tval_sec = tv_sec ts, tv_usec = tv_nsec ts sdiv 1000\<rparr>)"

text \<open>\<open>real_select\<close> gives its result and what it leaves in the timeout.\<close>

definition ft_select ::
  "(timeval option \<Rightarrow> int \<times> timeval option) \<Rightarrow> timeval option \<Rightarrow> ft_state \<Rightarrow> ((int \<times> timeval option \<times> timeval option option) \<times> ft_state) exitable" where
  "ft_select real_select timeout s =
    exit_bind (ftpl_ready s) (\<lambda>s.
      if missing_real s ''select'' then Inr ((- 1, timeout, None), s)
      else let timeout_real = (case timeout of
                 Some t \<Rightarrow> Some (if scaled s \<and> (tval_sec t > 0 \<or> tv_usec t > 0) then timeval_mul t (inverse_rate s) else t)
               | None \<Rightarrow> None)
           in case real_select timeout_real of (ret, left) \<Rightarrow>
              Inr ((ret, if user_rate_set s \<and> timeout \<noteq> None then map_option (\<lambda>t. timeval_mul t (user_rate s)) left else timeout,
                    Some timeout_real), s))"

definition ft_pselect ::
  "(timespec option \<Rightarrow> int) \<Rightarrow> timespec option \<Rightarrow> ft_state \<Rightarrow> ((int \<times> timespec option option) \<times> ft_state) exitable" where
  "ft_pselect real_pselect timeout s =
    exit_bind (ftpl_ready s) (\<lambda>s.
      if missing_real s ''pselect'' then Inr ((- 1, None), s)
      else let timeout_real = (case timeout of
                 Some t \<Rightarrow> Some (if scaled s \<and> (tv_sec t > 0 \<or> tv_nsec t > 0) then timespecmul t (inverse_rate s) else t)
               | None \<Rightarrow> None)
           in Inr ((real_pselect timeout_real, Some timeout_real), s))"

section \<open>Waiting for semaphores\<close>

definition ft_sem_timedwait ::
  "(timespec \<Rightarrow> int) \<Rightarrow> timespec option \<Rightarrow> ft_state \<Rightarrow> ((int \<times> timespec option) \<times> ft_state) exitable" where
  "ft_sem_timedwait real_sem_timedwait abs_timeout s =
    exit_bind (ftpl_ready s) (\<lambda>s.
      case abs_timeout of None \<Rightarrow> Inr ((- 1, None), s\<lparr>errno := EINVAL\<rparr>)
      | Some t \<Rightarrow>
         (case check_missing_real ''sem_timedwait'' s of (ok, s) \<Rightarrow>
          if \<not> ok then Inr ((- 1, None), s)
          else let p = (if \<not> dont_fake s then
                          (let tdiff = timespecsub t (user_faked_time_timespec s);
                               timeadj = (if user_rate_set s then timespecmul tdiff (user_rate s) else tdiff)
                           in timespecadd (st_real (ftpl_starttime s)) timeadj)
                        else t)
               in Inr ((real_sem_timedwait p, Some p), s)))"

text \<open>The difference between a deadline and the faked present, or the faked base time: \<open>None\<close> when a clock fails.\<close>

definition sem_clockwait_diff :: "int \<Rightarrow> timespec \<Rightarrow> ft_state \<Rightarrow> (timespec option \<times> ft_state) exitable" where
  "sem_clockwait_diff clockid abstime s =
    (if clockid = CLOCK_MONOTONIC then
       (case real_clock_gettime CLOCK_MONOTONIC \<lparr>tv_sec = 0, tv_nsec = 0\<rparr> s of ((result, now), s) \<Rightarrow>
        if result = - 1 then Inr (None, s)
        else exit_bind (fake_clock_gettime CLOCK_MONOTONIC now s) (\<lambda>((r, fake_now), s).
               if r = - 1 then Inr (None, s) else Inr (Some (timespecsub abstime fake_now), s)))
     else Inr (Some (timespecsub abstime (user_faked_time_timespec s)), s))"

definition ft_sem_clockwait ::
  "(int \<Rightarrow> timespec option \<Rightarrow> int) \<Rightarrow> int \<Rightarrow> timespec option \<Rightarrow> ft_state \<Rightarrow> ((int \<times> timespec option option) \<times> ft_state) exitable" where
  "ft_sem_clockwait real_sem_clockwait clockid abstime s =
    exit_bind (ftpl_ready s) (\<lambda>s.
      case check_missing_real ''sem_clockwait'' s of (ok, s) \<Rightarrow>
      if \<not> ok then Inr ((- 1, None), s)
      else if fake_monotonic_clock s = 0 \<and> clockid = CLOCK_MONOTONIC
      then Inr ((real_sem_clockwait clockid abstime, Some abstime), s)
      else case abstime of None \<Rightarrow> Inr ((- 1, None), s\<lparr>errno := EINVAL\<rparr>)
        | Some t \<Rightarrow>
           if clockid \<noteq> CLOCK_REALTIME \<and> clockid \<noteq> CLOCK_MONOTONIC
           then Inr ((real_sem_clockwait clockid abstime, Some abstime), s)
           else if \<not> dont_fake s then
             exit_bind (sem_clockwait_diff clockid t s) (\<lambda>(d, s).
               case d of None \<Rightarrow> Inr ((- 1, None), s)
               | Some tdiff \<Rightarrow>
                  (let timeadj = (if user_rate_set s then timespecmul tdiff (inverse_rate s) else tdiff);
                       p = timespecadd (if clockid = CLOCK_REALTIME then st_real (ftpl_starttime s) else st_mon (ftpl_starttime s)) timeadj
                   in Inr ((real_sem_clockwait clockid (Some p), Some (Some p)), s)))
           else Inr ((real_sem_clockwait clockid abstime, Some abstime), s))"

section \<open>Lemmas: timeouts\<close>

text \<open>The quotient of a positive timeout and a positive double, as the long double division rounds it.\<close>

lemma scaled_quotient:
  assumes t: "0 < t" "t \<le> INT_MAX" and r: "2 powi (- 1074) \<le> (r::rat)" "r < 2 powi 1024"
  defines "x \<equiv> of_int t / r" and "y \<equiv> fl_rat c_long_double (of_int t / r)"
  shows "fl_div c_long_double (fl_of_int c_long_double t) (Fin r) = Fin y" and "\<bar>y - x\<bar> \<le> x / 18446744073709551616"
proof -
  have rpos: "0 < r" using r(1) zero_less_power_int [of "2::rat" "- 1074"] by linarith
  have tb: "1 \<le> rat_of_int t" "rat_of_int t \<le> 2 powi 31" using t by (simp_all add: INT_MAX_def)
  have xpos: "0 < x" using rpos t by (simp add: x_def)
  have "(2::rat) powi (- 1024) = 1 / 2 powi 1024" by (simp only: power_int_minus inverse_eq_divide)
  also have "\<dots> \<le> 1 / r" using less_imp_le [OF r(2)] rpos by (intro frac_le) simp_all
  also have "\<dots> \<le> x" unfolding x_def using tb(1) rpos by (simp add: divide_right_mono)
  finally have low: "(2::rat) powi (- 1024) \<le> x" .
  have "x \<le> 2 powi 31 / 2 powi (- 1074)" unfolding x_def using tb(2) r(1) by (intro frac_le zero_less_power_int) (simp_all only: zero_less_numeral zero_le_power_int zero_le_numeral)
  also have "\<dots> = (2::rat) powi 1105" using power_int_diff [of "2::rat" 31 "- 1074"] by (simp only: diff_minus_eq_add) simp
  finally have high: "x \<le> (2::rat) powi 1105" .
  have "2 powi (qmin c_long_double + int (precision c_long_double) - 1) \<le> (2::rat) powi (- 1024)"
    by (simp only: powi2_le_iff) (simp add: c_long_double_def)
  from order_trans [OF this low] have "2 powi (qmin c_long_double + int (precision c_long_double) - 1) \<le> \<bar>x\<bar>"
    using xpos by (simp only: abs_of_pos)
  from ldbl.fl_error [OF this] have e: "\<bar>y - x\<bar> \<le> x * 2 powi (- int (precision c_long_double))"
    unfolding y_def x_def [symmetric] abs_of_pos [OF xpos] .
  also have "(2::rat) powi (- int (precision c_long_double)) = 1 / 18446744073709551616"
    by (simp add: c_long_double_def power_int_def power_divide)
  finally show ye: "\<bar>y - x\<bar> \<le> x / 18446744073709551616" by (simp only: times_divide_eq_right mult_1_right)
  then have "\<bar>y\<bar> \<le> 2 * x" using xpos by linarith
  also have "\<dots> \<le> 2 powi 1 * 2 powi 1105" unfolding power_int_1_right by (rule mult_left_mono [OF high]) simp
  also have "\<dots> = 2 powi (1 + 1105)" by (rule power_int_add [symmetric]) simp
  also have "\<dots> < 2 powi int (emax c_long_double)" by (simp only: powi2_less_iff) (simp add: c_long_double_def)
  finally have "fl_round c_long_double x = Fin y" unfolding y_def x_def by (rule ldbl.fl_round_Fin)
  moreover have "fl_of_int c_long_double t = Fin (of_int t)"
    unfolding fl_of_int_def using t by (intro ldbl.fl_round_int) (simp add: c_long_double_def INT_MAX_def)
  ultimately show "fl_div c_long_double (fl_of_int c_long_double t) (Fin r) = Fin y"
    using rpos by (simp add: x_def)
qed

lemma scale_timeout_positive:
  assumes "scaled s" "user_rate s = Fin r" "2 powi (- 1074) \<le> r" "r < 2 powi 1024" "0 < t" "t \<le> INT_MAX"
  defines "n \<equiv> scale_timeout_milliseconds t s"
  shows "1 \<le> n" "n \<le> INT_MAX" "n = INT_MAX \<or> of_int t * (1 - 1 / 18446744073709551616) \<le> of_int n * r"
    "n = 1 \<or> (of_int n - 1) * r < of_int t * (1 + 1 / 18446744073709551616)"
proof -
  let ?x = "of_int t / r" and ?y = "fl_rat c_long_double (of_int t / r)"
  note q = scaled_quotient [OF assms(5,6,3,4)]
  have rpos: "0 < r" using assms(3) zero_less_power_int [of "2::rat" "- 1074"] by linarith
  have n: "n = (if \<lceil>?y\<rceil> \<ge> INT_MAX then INT_MAX else if \<lceil>?y\<rceil> < 1 then 1 else \<lceil>?y\<rceil>)"
    using assms(1,2,5) q(1) by (simp add: n_def scale_timeout_milliseconds_def scaled_def)
  show b: "1 \<le> n" "n \<le> INT_MAX" by (auto simp: n INT_MAX_def)
  have yx: "?x * (1 - 1 / 18446744073709551616) \<le> ?y" "?y \<le> ?x * (1 + 1 / 18446744073709551616)"
    using q(2) by (auto simp: algebra_simps abs_le_iff)
  show "n = INT_MAX \<or> of_int t * (1 - 1 / 18446744073709551616) \<le> of_int n * r"
  proof (cases "n = INT_MAX")
    case False
    then have "\<lceil>?y\<rceil> \<le> n" by (auto simp: n split: if_splits)
    then have "?x * (1 - 1 / 18446744073709551616) \<le> of_int n" using yx(1) by (simp add: ceiling_le_iff)
    then have "?x * (1 - 1 / 18446744073709551616) * r \<le> of_int n * r" using rpos by (intro mult_right_mono) simp_all
    moreover have "?x * (1 - 1 / 18446744073709551616) * r = of_int t * (1 - 1 / 18446744073709551616)" using rpos by simp
    ultimately show ?thesis by linarith
  qed simp
  show "n = 1 \<or> (of_int n - 1) * r < of_int t * (1 + 1 / 18446744073709551616)"
  proof (cases "n = 1")
    case False
    then have "n \<le> \<lceil>?y\<rceil>" by (auto simp: n split: if_splits)
    then have "rat_of_int n - 1 < ?y" by linarith
    then have "rat_of_int n - 1 < ?x * (1 + 1 / 18446744073709551616)" using yx(2) by linarith
    then have "(rat_of_int n - 1) * r < ?x * (1 + 1 / 18446744073709551616) * r" using rpos by (intro mult_strict_right_mono)
    moreover have "?x * (1 + 1 / 18446744073709551616) * r = of_int t * (1 + 1 / 18446744073709551616)" using rpos by simp
    ultimately show ?thesis by linarith
  qed simp
qed

section \<open>Lemmas: deadlines\<close>

text \<open>
  The deadline in real time of a deadline \<open>T\<close> on a faked clock: the start of the real clock, plus the
  faked time from the base to \<open>T\<close>, scaled by the inverse of the rate.
\<close>

definition real_deadline :: "int \<Rightarrow> timespec \<Rightarrow> ft_state \<Rightarrow> timespec" where
  "real_deadline clk T s =
    (let d = timespecsub T (user_faked_time_timespec s)
     in timespecadd (start_of_clock clk (ftpl_starttime s)) (if user_rate_set s then timespecmul d (inverse_rate s) else d))"

text \<open>The deadline, the base time and the start of the clock are far from the ends of the range.\<close>

definition modest_deadline :: "int \<Rightarrow> timespec \<Rightarrow> ft_state \<Rightarrow> bool" where
  "modest_deadline clk T s \<longleftrightarrow> modest T \<and> modest (user_faked_time_timespec s) \<and> modest (start_of_clock clk (ftpl_starttime s))"

lemma real_deadline_total:
  assumes "modest_deadline clk T s" "\<not> user_rate_set s"
  shows "ts_total (real_deadline clk T s) =
    ts_total (start_of_clock clk (ftpl_starttime s)) + (ts_total T - ts_total (user_faked_time_timespec s))"
proof -
  let ?b = "user_faked_time_timespec s" and ?st = "start_of_clock clk (ftpl_starttime s)"
  have m: "modest T" "modest ?b" "modest ?st" using assms(1) by (simp_all add: modest_deadline_def)
  note b = m [THEN modest_bounds]
  have n: "ts_normal T" "ts_normal ?b" "ts_normal ?st" using m by (simp_all add: modest_def)
  have c: "clamp_total SEC_TO_nSEC (ts_total T - ts_total ?b) = ts_total T - ts_total ?b"
    "clamp_total SEC_TO_nSEC (ts_total ?st + (ts_total T - ts_total ?b)) = ts_total ?st + (ts_total T - ts_total ?b)"
    by (rule clamp_modest, use b in \<open>simp add: SEC_TO_nSEC_def\<close>)+
  note d = timespecsub_total [OF n(1,2)]
  show ?thesis using timespecadd_total [OF n(3) d(1)] d(2) c assms(2) by (simp add: real_deadline_def)
qed

lemma real_deadline_reached:
  assumes "modest_deadline clk T s" "\<not> user_rate_set s" "modest t"
  shows "ts_total (real_deadline clk T s) \<le> ts_total t \<longleftrightarrow> ts_total T \<le> ts_total (running_time clk s t)"
  using real_deadline_total [OF assms(1,2)] running_time_modest [OF assms(3), of clk s] assms
  by (auto simp: modest_deadline_def)

text \<open>A rate between a millionth and a million, and its inverse as the double division rounds it.\<close>

definition usual_rate :: "cfloat \<Rightarrow> rat \<Rightarrow> bool" where
  "usual_rate x r \<longleftrightarrow> x = Fin r \<and> 1 / 1000000 \<le> r \<and> r \<le> 1000000"

lemma inverse_rate_error:
  assumes "usual_rate (user_rate s) r"
  obtains c where "inverse_rate s = Fin c" "\<bar>c * r - 1\<bar> \<le> 1 / 9007199254740992" "0 \<le> c" "c \<le> 2000000"
proof -
  have r: "user_rate s = Fin r" "1 / 1000000 \<le> r" "r \<le> 1000000" "0 < r" using assms by (auto simp: usual_rate_def intro: less_le_trans [rotated])
  let ?c = "fl_rat c_double (1 / r)"
  have lo: "1 / 1000000 \<le> 1 / r" using r by (intro frac_le) simp_all
  have hi: "1 / r \<le> 1000000" using r(2,4) by (simp add: field_simps)
  have "2 powi (qmin c_double + int (precision c_double) - 1) \<le> (2::rat) powi (- 20)"
    by (simp only: powi2_le_iff) (simp add: c_double_def)
  also have "\<dots> \<le> 1 / 1000000" by (simp add: power_int_def power_divide)
  also note lo
  finally have "2 powi (qmin c_double + int (precision c_double) - 1) \<le> \<bar>1 / r\<bar>" using r(4) by simp
  from dbl.fl_error [OF this] have e: "\<bar>?c - 1 / r\<bar> \<le> 1 / r / 9007199254740992"
    using r(4) by (simp add: c_double_def power_int_def power_divide)
  then have "\<bar>?c - 1 / r\<bar> * r \<le> 1 / r / 9007199254740992 * r" using r(4) by (intro mult_right_mono) simp_all
  moreover have "\<bar>?c - 1 / r\<bar> * r = \<bar>(?c - 1 / r) * r\<bar>" using r(4) by (simp add: abs_mult)
  moreover have "(?c - 1 / r) * r = ?c * r - 1" using r(4) by (simp add: left_diff_distrib)
  ultimately have 1: "\<bar>?c * r - 1\<bar> \<le> 1 / 9007199254740992" using r(4) by simp
  have 2: "0 \<le> ?c" using r(4) by (intro fl_rat_nonneg) simp
  have "x \<le> 2000000" if "\<bar>x - u\<bar> \<le> u / 9007199254740992" "u \<le> 1000000" for x u :: rat using that by linarith
  note 3 = this [OF e hi]
  then have "\<bar>?c\<bar> < 2 powi 21" using 2 by (simp add: power_int_def)
  also have "(2::rat) powi 21 \<le> 2 powi int (emax c_double)" by (simp only: powi2_le_iff) (simp add: c_double_def)
  finally have "fl_round c_double (1 / r) = Fin ?c" by (rule dbl.fl_round_Fin)
  then have "inverse_rate s = Fin ?c" using r by (simp add: inverse_rate_def)
  from that [OF this 1 2 3] show thesis .
qed

text \<open>Scaling by a rounded inverse and back.\<close>

lemma inverse_and_back:
  assumes "\<bar>a - e * c\<bar> < 1 + \<bar>e * c\<bar> / 18446744073709551616" "\<bar>c * r - 1\<bar> \<le> 1 / 9007199254740992" "0 < r" "0 \<le> (c::rat)"
  shows "\<bar>a * r - e\<bar> \<le> r + \<bar>e\<bar> / 4503599627370496"
proof -
  have 1: "\<bar>a - e * c\<bar> * r \<le> (1 + \<bar>e * c\<bar> / 18446744073709551616) * r"
    using assms(1,3) by (intro mult_right_mono) simp_all
  have 2: "\<bar>e\<bar> * \<bar>c * r - 1\<bar> \<le> \<bar>e\<bar> * (1 / 9007199254740992)" using assms(2) by (intro mult_left_mono) simp_all
  have "c * r \<le> 2" using assms(2) by linarith
  then have "\<bar>e\<bar> * (c * r) \<le> \<bar>e\<bar> * 2" by (intro mult_left_mono) simp_all
  then have 3: "\<bar>e * c\<bar> * r \<le> \<bar>e\<bar> * 2" using assms(4) by (simp add: abs_mult mult.assoc)
  have "a * r - e = (a - e * c) * r + e * (c * r - 1)" by (simp add: algebra_simps)
  then have "\<bar>a * r - e\<bar> \<le> \<bar>(a - e * c) * r\<bar> + \<bar>e * (c * r - 1)\<bar>" by linarith
  also have "\<dots> = \<bar>a - e * c\<bar> * r + \<bar>e\<bar> * \<bar>c * r - 1\<bar>" using assms(3) by (simp add: abs_mult)
  also have "\<dots> \<le> r + \<bar>e * c\<bar> * r / 18446744073709551616 + \<bar>e\<bar> * (1 / 9007199254740992)"
    using 1 2 by (simp add: algebra_simps)
  also have "\<dots> \<le> r + \<bar>e\<bar> / 4503599627370496" using 3 by linarith
  finally show ?thesis .
qed

text \<open>A start time plus a scaled difference.\<close>

lemma start_plus_scaled:
  assumes m: "modest T" "modest b" "modest st" and el: "el = ts_total T - ts_total b" "\<bar>el\<bar> < 9223372036854775808"
    and c: "0 \<le> c" "c \<le> 2000000"
  obtains a where "ts_total (timespecadd st (timespecmul (timespecsub T b) (Fin c))) = ts_total st + a"
    "\<bar>of_int a - of_int el * c\<bar> < 1 + \<bar>of_int el * c\<bar> / 18446744073709551616"
proof -
  have n: "ts_normal T" "ts_normal b" "ts_normal st" using m by (simp_all add: modest_def)
  define d where "d = timespecsub T b"
  have dn: "ts_normal d" "ts_total d = el"
    using timespecsub_total [OF n(1,2)] clamp_modest [of el] el by (simp_all add: d_def SEC_TO_nSEC_def)
  have small: "\<bar>tv_sec d\<bar> * SEC_TO_nSEC + \<bar>tv_nsec d\<bar> < 18446744073709551616"
    using dn el(2) by (auto simp: normal_def total_of_def SEC_TO_nSEC_def)
  have "\<bar>rat_of_int el\<bar> \<le> 9223372036854775808" using el(2) by linarith
  then have "\<bar>rat_of_int el\<bar> * \<bar>c\<bar> \<le> 9223372036854775808 * 2000000" using c by (intro mult_mono) simp_all
  then have pr: "\<bar>of_int el * c\<bar> \<le> 9223372036854775808 * 2000000" by (simp add: abs_mult)
  define a where "a = ts_total (timespecmul d (Fin c))"
  have a: "\<bar>of_int a - of_int el * c\<bar> < 1 + \<bar>of_int el * c\<bar> / 18446744073709551616"
    using nsec.mul_error(2) [of "ts_pair d" c] small pr dn(2) by (simp add: a_def timespecmul_def SEC_TO_nSEC_def)
  then have "\<bar>rat_of_int a\<bar> \<le> 9223372036854775808 * 2000001" using pr by linarith
  then have "\<bar>a\<bar> \<le> 9223372036854775808 * 2000001" by linarith
  then have "clamp_total SEC_TO_nSEC (ts_total st + a) = ts_total st + a"
    using modest_bounds [OF m(3)] by (intro clamp_modest) (simp add: SEC_TO_nSEC_def)
  then have "ts_total (timespecadd st (timespecmul d (Fin c))) = ts_total st + a"
    using timespecadd_total [OF n(3) timespecmul_normal] by (simp add: a_def)
  from that [OF this [unfolded d_def] a] show thesis .
qed

text \<open>
  With a rate, the real deadline is where a clock that runs exactly at that rate shows \<open>T\<close>, up to one real
  nanosecond and the rounding of the inverse of the rate to a double.
\<close>

lemma real_deadline_rated:
  assumes m: "modest_deadline clk T s" and rt: "user_rate_set s" "usual_rate (user_rate s) r"
    and el: "el = ts_total T - ts_total (user_faked_time_timespec s)" "\<bar>el\<bar> < 9223372036854775808"
  shows "\<bar>of_int (ts_total (real_deadline clk T s) - ts_total (start_of_clock clk (ftpl_starttime s))) * r - of_int el\<bar>
    \<le> r + \<bar>of_int el\<bar> / 4503599627370496"
proof -
  obtain c where c: "inverse_rate s = Fin c" "\<bar>c * r - 1\<bar> \<le> 1 / 9007199254740992" "0 \<le> c" "c \<le> 2000000"
    using inverse_rate_error [OF rt(2)] .
  have r: "0 < r" using rt(2) by (auto simp: usual_rate_def intro: less_le_trans [rotated])
  obtain a where a: "ts_total (real_deadline clk T s) = ts_total (start_of_clock clk (ftpl_starttime s)) + a"
    "\<bar>of_int a - of_int el * c\<bar> < 1 + \<bar>of_int el * c\<bar> / 18446744073709551616"
    using start_plus_scaled [OF _ _ _ el c(3,4), of "start_of_clock clk (ftpl_starttime s)"] m rt(1) c(1)
    by (auto simp: modest_deadline_def real_deadline_def)
  from inverse_and_back [OF a(2) c(2) r c(3)] a(1) show ?thesis by simp
qed

text \<open>
  The faked clock runs on its own: it is neither frozen nor advanced by its readings, and no limit, replay or new request
  interferes. Whatever the clock functions do to the state, a time d of the real clock is then reached exactly when
  \<^verbatim>\<open>fake_clock_gettime\<close> turns the real time into T or more.
\<close>

definition clock_runs :: "ft_state \<Rightarrow> bool" where
  "clock_runs s \<longleftrightarrow> steady s \<and> lock_works s \<and> ft_mode s = FT_START_AT \<and> \<not> user_per_tick_inc_set s"

definition expires_when :: "int \<Rightarrow> timespec \<Rightarrow> timespec \<Rightarrow> ft_state \<Rightarrow> bool" where
  "expires_when clk T d s \<longleftrightarrow>
     (\<forall>u t. clock_frame s u \<and> modest t \<longrightarrow>
        (\<exists>f u'. fake_clock_gettime clk t u = Inr ((0, f), u') \<and> clock_frame s u' \<and> (ts_total d \<le> ts_total t \<longleftrightarrow> ts_total T \<le> ts_total f)))"

lemma clock_runs_frame: "clock_frame s u \<Longrightarrow> clock_runs s \<Longrightarrow> clock_runs u"
  using steady_frame [of s u] clock_frame_fields [of s u] by (simp add: clock_runs_def clock_frame_def)

lemma clock_runs_reading:
  assumes "clock_runs s" "modest_deadline clk T s" "clock_frame s u" "ts_normal t" "clk \<noteq> CLOCK_PROCESS_CPUTIME_ID" "clk \<noteq> CLOCK_THREAD_CPUTIME_ID"
  shows "\<exists>u'. fake_clock_gettime clk t u = Inr ((0, running_time clk s t), u') \<and> clock_frame s u'"
proof -
  have u: "steady u" "lock_works u" "ft_mode u = FT_START_AT" "\<not> user_per_tick_inc_set u"
    using clock_runs_frame [OF assms(3,1)] by (simp_all add: clock_runs_def)
  have n: "ts_normal (start_of_clock clk (ftpl_starttime u))" "ts_normal (user_faked_time_timespec u)"
    using assms(2) clock_frame_fields [OF assms(3)] by (simp_all add: modest_deadline_def modest_def)
  from fake_clock_running [OF u assms(5,6,4) n] show ?thesis
    using running_time_frame [OF assms(3)] clock_frame_trans [OF assms(3)] by auto
qed

lemma real_deadline_expires:
  assumes "clock_runs s" "modest_deadline clk T s" "\<not> user_rate_set s" "clk = CLOCK_REALTIME \<or> clk = CLOCK_MONOTONIC"
  shows "expires_when clk T (real_deadline clk T s) s"
  unfolding expires_when_def
proof (intro allI impI)
  fix u t assume a: "clock_frame s u \<and> modest t"
  then have "ts_normal t" by (simp add: modest_def)
  with a clock_runs_reading [OF assms(1,2), of u t] assms(4)
  obtain u' where "fake_clock_gettime clk t u = Inr ((0, running_time clk s t), u')" "clock_frame s u'" by auto
  moreover have "ts_total (real_deadline clk T s) \<le> ts_total t \<longleftrightarrow> ts_total T \<le> ts_total (running_time clk s t)"
    using real_deadline_reached [OF assms(2,3)] a by blast
  ultimately show "\<exists>f u'. fake_clock_gettime clk t u = Inr ((0, f), u') \<and> clock_frame s u' \<and>
      (ts_total (real_deadline clk T s) \<le> ts_total t \<longleftrightarrow> ts_total T \<le> ts_total f)" by blast
qed

text \<open>
  The contract of a wait with an absolute deadline: in the states it is meant for, it hands the
  real function the real deadline. Then the wait expires when the faked clock gets there.
\<close>

locale faked_deadline =
  fixes clk :: int and pre :: "timespec \<Rightarrow> ft_state \<Rightarrow> bool" and passed :: "timespec \<Rightarrow> ft_state \<Rightarrow> timespec option"
  assumes passes: "pre T s \<Longrightarrow> passed T s = Some (real_deadline clk T s)"
begin

lemma expires_exactly:
  assumes "pre T s" "modest_deadline clk T s" "\<not> user_rate_set s"
  shows "\<exists>d. passed T s = Some d \<and> (\<forall>t. modest t \<longrightarrow> ts_total d \<le> ts_total t \<longleftrightarrow> ts_total T \<le> ts_total (running_time clk s t))"
  using passes [OF assms(1)] real_deadline_reached [OF assms(2,3)] by blast

lemma expires_on_clock:
  assumes "pre T s" "modest_deadline clk T s" "\<not> user_rate_set s" "clock_runs s" "clk = CLOCK_REALTIME \<or> clk = CLOCK_MONOTONIC"
  shows "\<exists>d. passed T s = Some d \<and> expires_when clk T d s"
  using passes [OF assms(1)] real_deadline_expires [OF assms(4,2,3,5)] by blast

lemma expires_rated:
  assumes "pre T s" "modest_deadline clk T s" "user_rate_set s" "usual_rate (user_rate s) r"
    "el = ts_total T - ts_total (user_faked_time_timespec s)" "\<bar>el\<bar> < 9223372036854775808"
  shows "\<exists>d. passed T s = Some d \<and>
    \<bar>of_int (ts_total d - ts_total (start_of_clock clk (ftpl_starttime s))) * r - of_int el\<bar> \<le> r + \<bar>of_int el\<bar> / 4503599627370496"
  using passes [OF assms(1)] real_deadline_rated [OF assms(2-6)] by blast


end

text \<open>What the waits of this theory hand to the real functions.\<close>

definition passed_clock_nanosleep :: "real_sleep \<Rightarrow> int \<Rightarrow> timespec option \<Rightarrow> timespec \<Rightarrow> ft_state \<Rightarrow> timespec option" where
  "passed_clock_nanosleep f clk rem T s =
    (case ft_clock_nanosleep f clk True (Some T) rem s of Inr ((_, _, p), _) \<Rightarrow> p | Inl _ \<Rightarrow> None)"

definition passed_sem_timedwait :: "(timespec \<Rightarrow> int) \<Rightarrow> timespec \<Rightarrow> ft_state \<Rightarrow> timespec option" where
  "passed_sem_timedwait f T s = (case ft_sem_timedwait f (Some T) s of Inr ((_, p), _) \<Rightarrow> p | Inl _ \<Rightarrow> None)"

definition passed_sem_clockwait :: "(int \<Rightarrow> timespec option \<Rightarrow> int) \<Rightarrow> int \<Rightarrow> timespec \<Rightarrow> ft_state \<Rightarrow> timespec option" where
  "passed_sem_clockwait f clk T s = (case ft_sem_clockwait f clk (Some T) s of Inr ((_, Some p), _) \<Rightarrow> p | _ \<Rightarrow> None)"

definition waits :: "string \<Rightarrow> ft_state \<Rightarrow> bool" where
  "waits fn s \<longleftrightarrow> ftpl_init_state s = FT_INIT_READY \<and> \<not> missing_real s fn \<and> \<not> dont_fake s"

interpretation rt_sleep: faked_deadline CLOCK_REALTIME "\<lambda>_. waits ''clock_nanosleep''" "passed_clock_nanosleep f CLOCK_REALTIME rem"
  by unfold_locales
    (auto simp: waits_def passed_clock_nanosleep_def ft_clock_nanosleep_def absolute_deadline_def real_deadline_def start_of_clock_def
      Let_def split: prod.split)

interpretation mono_sleep: faked_deadline CLOCK_MONOTONIC
  "\<lambda>_ s. waits ''clock_nanosleep'' s \<and> get_fake_monotonic_setting (fake_monotonic_clock s) s \<noteq> 0"
  "passed_clock_nanosleep f CLOCK_MONOTONIC rem"
  by unfold_locales
    (auto simp: waits_def passed_clock_nanosleep_def ft_clock_nanosleep_def absolute_deadline_def real_deadline_def start_of_clock_def
      inverse_rate_def Let_def split: prod.split)

interpretation rt_sem: faked_deadline CLOCK_REALTIME "\<lambda>_. waits ''sem_clockwait''" "passed_sem_clockwait f CLOCK_REALTIME"
  by unfold_locales
    (auto simp: waits_def passed_sem_clockwait_def ft_sem_clockwait_def sem_clockwait_diff_def check_missing_real_def real_deadline_def
      start_of_clock_def Let_def)

interpretation timed_sem: faked_deadline CLOCK_REALTIME "\<lambda>_ s. waits ''sem_timedwait'' s \<and> \<not> user_rate_set s" "passed_sem_timedwait f"
  by unfold_locales
    (auto simp: waits_def passed_sem_timedwait_def ft_sem_timedwait_def check_missing_real_def real_deadline_def start_of_clock_def Let_def)

section \<open>Properties\<close>

text \<open>
  Claim C29.
  Scaled timeouts of \<^verbatim>\<open>poll\<close>: with any positive rate a double can hold, a positive timeout stays
  positive (so a wait never turns into a poll without waiting or an endless wait) and fits an \<^verbatim>\<open>int\<close>; the faked time that passes
  meanwhile covers the timeout, up to the rounding of a 64-bit significand, unless the largest \<^verbatim>\<open>int\<close> was reached, and it is not
  a whole real millisecond longer than needed.
\<close>

theorem poll_timeout_scaled:
  assumes "ftpl_init_state s = FT_INIT_READY" "\<not> missing_real s ''poll''" "scaled s"
    and "user_rate s = Fin r" "2 powi (- 1074) \<le> r" "r < 2 powi 1024" "0 < t" "t \<le> INT_MAX"
  shows "\<exists>n. ft_poll real_poll t s = Inr ((real_poll n, Some n), s) \<and> 1 \<le> n \<and> n \<le> INT_MAX \<and>
    (n = INT_MAX \<or> of_int t * (1 - 1 / 18446744073709551616) \<le> of_int n * r) \<and>
    (n = 1 \<or> (of_int n - 1) * r < of_int t * (1 + 1 / 18446744073709551616))"
proof -
  have "ft_poll real_poll t s = Inr ((real_poll (scale_timeout_milliseconds t s), Some (scale_timeout_milliseconds t s)), s)"
    using assms(1,2) by (simp add: ft_poll_def milliseconds_wait_def Let_def)
  with scale_timeout_positive [OF assms(3-8)] show ?thesis by blast
qed

theorem poll_timeout_scaled_witness:
  "\<exists>n. ft_poll (\<lambda>_. 0) 100 (sample_ready\<lparr>user_rate_set := True, user_rate := Fin 1000\<rparr>) =
      Inr ((0, Some n), sample_ready\<lparr>user_rate_set := True, user_rate := Fin 1000\<rparr>) \<and> n = 1"
proof -
  let ?s = "sample_ready\<lparr>user_rate_set := True, user_rate := Fin 1000\<rparr>"
  have h: "ftpl_init_state ?s = FT_INIT_READY" "\<not> missing_real ?s ''poll''" "scaled ?s" "user_rate ?s = Fin 1000"
    by (simp_all add: sample_ready_def sample_running_def static_defs scaled_def)
  have "(2::rat) powi (- 1074) \<le> 2 powi 0" by (simp only: powi2_le_iff)
  also have "\<dots> \<le> 1000" by simp
  finally have r1: "(2::rat) powi (- 1074) \<le> 1000" .
  have "(1000::rat) < 2 powi 10" by (simp add: power_int_def)
  also have "\<dots> < 2 powi 1024" by (simp only: powi2_less_iff)
  finally have r2: "(1000::rat) < 2 powi 1024" .
  obtain n where n: "ft_poll (\<lambda>_. 0) 100 ?s = Inr ((0, Some n), ?s)" "1 \<le> n"
    "n = 1 \<or> (rat_of_int n - 1) * 1000 < of_int 100 * (1 + 1 / 18446744073709551616)"
    using poll_timeout_scaled [OF h r1 r2, of 100 "\<lambda>_. 0"] by (auto simp: INT_MAX_def)
  have "n = 1" if "(rat_of_int n - 1) * 1000 < of_int 100 * (1 + 1 / 18446744073709551616)"
  proof -
    have "rat_of_int n < 2" using that by simp
    then show ?thesis using n(2) by linarith
  qed
  then show ?thesis using n by blast
qed

text \<open>
  Claim C30.
  Absolute waits end on time: while the faked clock runs at the speed of the real one (no rate, not frozen, no increment per reading),
  the real deadline that \<^verbatim>\<open>clock_nanosleep\<close> on the real-time or the faked monotonic clock, \<^verbatim>\<open>sem_clockwait\<close> on the real-time clock
  and \<^verbatim>\<open>sem_timedwait\<close> pass on is reached by the real clock exactly when what \<^verbatim>\<open>fake_clock_gettime\<close> makes of
  its time reaches the deadline the program asked for. (\<^verbatim>\<open>sem_timedwait\<close> at a rate and \<^verbatim>\<open>sem_clockwait\<close> on the
  monotonic clock do not: see the deviations below.)
\<close>

theorem absolute_waits_expire:
  assumes "waits ''clock_nanosleep'' s" "waits ''sem_clockwait'' s" "waits ''sem_timedwait'' s" "\<not> user_rate_set s"
    and "steady s" "lock_works s" "ft_mode s = FT_START_AT" "\<not> user_per_tick_inc_set s"
    and "get_fake_monotonic_setting (fake_monotonic_clock s) s \<noteq> 0"
    and "modest_deadline CLOCK_REALTIME T s" "modest_deadline CLOCK_MONOTONIC T s"
  shows "(\<exists>d. passed_clock_nanosleep f CLOCK_REALTIME rem T s = Some d \<and> expires_when CLOCK_REALTIME T d s) \<and>
    (\<exists>d. passed_clock_nanosleep f CLOCK_MONOTONIC rem T s = Some d \<and> expires_when CLOCK_MONOTONIC T d s) \<and>
    (\<exists>d. passed_sem_clockwait g CLOCK_REALTIME T s = Some d \<and> expires_when CLOCK_REALTIME T d s) \<and>
    (\<exists>d. passed_sem_timedwait h T s = Some d \<and> expires_when CLOCK_REALTIME T d s)"
proof -
  have r: "clock_runs s" using assms(5-8) by (simp add: clock_runs_def)
  note rt = assms(10,4) r and mono = assms(11,4) r
  show ?thesis
    using rt_sleep.expires_on_clock [OF assms(1) rt] mono_sleep.expires_on_clock [OF conjI [OF assms(1,9)] mono]
      rt_sem.expires_on_clock [OF assms(2) rt] timed_sem.expires_on_clock [OF conjI [OF assms(3,4)] rt] by simp
qed

lemma sample_deadline:
  "modest_deadline CLOCK_REALTIME \<lparr>tv_sec = 1105, tv_nsec = 0\<rparr> (sample_ready\<lparr>user_rate_set := b, user_rate := r\<rparr>)"
  "modest_deadline CLOCK_MONOTONIC \<lparr>tv_sec = 1105, tv_nsec = 0\<rparr> (sample_ready\<lparr>user_rate_set := b, user_rate := r\<rparr>)"
  "waits fn (sample_ready\<lparr>user_rate_set := b, user_rate := r\<rparr>)"
  "get_fake_monotonic_setting (fake_monotonic_clock (sample_ready\<lparr>user_rate_set := b, user_rate := r\<rparr>)) (sample_ready\<lparr>user_rate_set := b, user_rate := r\<rparr>) \<noteq> 0"
  by (simp_all add: modest_deadline_def modest_def normal_def in_s64_def sample_ready_def sample_running_def static_defs sample_start_def
      start_of_clock_def SEC_TO_nSEC_def waits_def get_fake_monotonic_setting_def getenv_def)

lemma sample_clock_runs: "clock_runs (sample_ready\<lparr>user_rate_set := b, user_rate := r\<rparr>)"
  by (simp add: clock_runs_def sample_ready_def sample_running_def static_defs steady_def lock_works_def getenv_def)

theorem absolute_waits_expire_witness:
  "\<exists>d f u. passed_clock_nanosleep (\<lambda>q r. (0, r)) CLOCK_MONOTONIC None \<lparr>tv_sec = 1105, tv_nsec = 0\<rparr> (sample_ready\<lparr>user_rate_set := False, user_rate := Fin 1\<rparr>) = Some d \<and>
     fake_clock_gettime CLOCK_MONOTONIC \<lparr>tv_sec = 150, tv_nsec = 0\<rparr> (sample_ready\<lparr>user_rate_set := False, user_rate := Fin 1\<rparr>) = Inr ((0, f), u) \<and>
     (ts_total d \<le> 150000000000 \<longleftrightarrow> 1105000000000 \<le> ts_total f)"
proof -
  let ?s = "sample_ready\<lparr>user_rate_set := False, user_rate := Fin 1\<rparr>" and ?t = "\<lparr>tv_sec = 150, tv_nsec = 0\<rparr>"
  note h = sample_deadline [where b = False and r = "Fin 1"]
  have m: "modest ?t" by (simp add: modest_def normal_def in_s64_def SEC_TO_nSEC_def)
  have c: "\<not> user_rate_set ?s" "steady ?s" "lock_works ?s" "ft_mode ?s = FT_START_AT" "\<not> user_per_tick_inc_set ?s"
    using sample_clock_runs [where b = False and r = "Fin 1"] by (simp_all add: clock_runs_def)
  have "\<exists>d. passed_clock_nanosleep (\<lambda>q r. (0, r)) CLOCK_MONOTONIC None \<lparr>tv_sec = 1105, tv_nsec = 0\<rparr> ?s = Some d \<and>
      expires_when CLOCK_MONOTONIC \<lparr>tv_sec = 1105, tv_nsec = 0\<rparr> d ?s"
    using absolute_waits_expire [OF h(3) h(3) h(3) c h(4) h(1) h(2), of "\<lambda>q r. (0, r)" None] by blast
  then show ?thesis using m clock_frame_refl [of ?s] unfolding expires_when_def by (fastforce simp: total_of_def SEC_TO_nSEC_def)
qed

text \<open>
  Claim C31.
  Absolute waits at a rate r between a millionth and a million: the real time from the start of the clock to the real deadline, times
  r, is the faked time from the base to the requested deadline, up to one real nanosecond and a relative error of \<open>2 ^ - 52\<close>.
\<close>

theorem absolute_waits_rated:
  assumes "waits ''clock_nanosleep'' s" "waits ''sem_clockwait'' s" "user_rate_set s" "usual_rate (user_rate s) r"
    and "get_fake_monotonic_setting (fake_monotonic_clock s) s \<noteq> 0"
    and "modest_deadline CLOCK_REALTIME T s" "modest_deadline CLOCK_MONOTONIC T s"
    and "el = ts_total T - ts_total (user_faked_time_timespec s)" "\<bar>el\<bar> < 9223372036854775808"
  shows "(\<exists>d. passed_clock_nanosleep f CLOCK_REALTIME rem T s = Some d \<and>
      \<bar>of_int (ts_total d - ts_total (st_real (ftpl_starttime s))) * r - of_int el\<bar> \<le> r + \<bar>of_int el\<bar> / 4503599627370496) \<and>
    (\<exists>d. passed_clock_nanosleep f CLOCK_MONOTONIC rem T s = Some d \<and>
      \<bar>of_int (ts_total d - ts_total (st_mon (ftpl_starttime s))) * r - of_int el\<bar> \<le> r + \<bar>of_int el\<bar> / 4503599627370496) \<and>
    (\<exists>d. passed_sem_clockwait g CLOCK_REALTIME T s = Some d \<and>
      \<bar>of_int (ts_total d - ts_total (st_real (ftpl_starttime s))) * r - of_int el\<bar> \<le> r + \<bar>of_int el\<bar> / 4503599627370496)"
proof -
  have st: "start_of_clock CLOCK_REALTIME t = st_real t" "start_of_clock CLOCK_MONOTONIC t = st_mon t" for t by (simp_all add: start_of_clock_def)
  have mono: "waits ''clock_nanosleep'' s \<and> get_fake_monotonic_setting (fake_monotonic_clock s) s \<noteq> 0" using assms(1,5) by blast
  show ?thesis
    using rt_sleep.expires_rated [OF assms(1,6,3,4,8,9)] mono_sleep.expires_rated [OF mono assms(7,3,4,8,9)]
      rt_sem.expires_rated [OF assms(2,6,3,4,8,9)] unfolding st by blast
qed

theorem absolute_waits_rated_witness:
  "\<exists>d. passed_clock_nanosleep (\<lambda>q r. (0, r)) CLOCK_REALTIME None \<lparr>tv_sec = 1105, tv_nsec = 0\<rparr> (sample_ready\<lparr>user_rate_set := True, user_rate := Fin 4\<rparr>) = Some d \<and>
     \<bar>of_int (ts_total d) * 4 - (4100000000000 :: rat)\<bar> \<le> 5"
proof -
  let ?s = "sample_ready\<lparr>user_rate_set := True, user_rate := Fin 4\<rparr>" and ?T = "\<lparr>tv_sec = 1105, tv_nsec = 0\<rparr>"
  note h = sample_deadline [where b = True and r = "Fin 4"]
  have r: "user_rate_set ?s" "usual_rate (user_rate ?s) 4" by (simp_all add: usual_rate_def)
  have e: "100000000000 = ts_total ?T - ts_total (user_faked_time_timespec ?s)" "\<bar>100000000000 :: int\<bar> < 9223372036854775808"
    by (simp_all add: sample_ready_def sample_running_def total_of_def SEC_TO_nSEC_def)
  have st: "ts_total (st_real (ftpl_starttime ?s)) = 1000000000000"
    by (simp add: sample_ready_def sample_running_def sample_start_def total_of_def SEC_TO_nSEC_def)
  obtain d where d: "passed_clock_nanosleep (\<lambda>q r. (0, r)) CLOCK_REALTIME None ?T ?s = Some d"
    "\<bar>of_int (ts_total d - 1000000000000) * 4 - of_int 100000000000\<bar> \<le> 4 + \<bar>rat_of_int 100000000000\<bar> / 4503599627370496"
    using absolute_waits_rated [OF h(3) h(3) r h(4) h(1) h(2) e] unfolding st by blast
  from d(2) have "\<bar>of_int (ts_total d) * 4 - (4100000000000 :: rat)\<bar> \<le> 5" by simp
  with d(1) show ?thesis by blast
qed

section \<open>Deviations\<close>

text \<open>
  \<^verbatim>\<open>sem_timedwait\<close> multiplies by the rate where the other waits divide: with a rate r the real time it waits is r times the
  faked time, instead of the faked time divided by r.
\<close>

lemma sem_timedwait_scales_up:
  assumes "waits ''sem_timedwait'' s" "user_rate_set s" "usual_rate (user_rate s) r" "modest_deadline CLOCK_REALTIME T s"
    and "el = ts_total T - ts_total (user_faked_time_timespec s)" "\<bar>el\<bar> < 9223372036854775808"
  shows "\<exists>d. passed_sem_timedwait f T s = Some d \<and>
    \<bar>of_int (ts_total d - ts_total (st_real (ftpl_starttime s))) - of_int el * r\<bar> < 1 + \<bar>of_int el * r\<bar> / 18446744073709551616"
proof -
  have r: "user_rate s = Fin r" "0 \<le> r" "r \<le> 2000000" using assms(3) by (auto simp: usual_rate_def intro: order_trans [rotated])
  obtain a where "ts_total (timespecadd (st_real (ftpl_starttime s)) (timespecmul (timespecsub T (user_faked_time_timespec s)) (Fin r)))
      = ts_total (st_real (ftpl_starttime s)) + a" "\<bar>of_int a - of_int el * r\<bar> < 1 + \<bar>of_int el * r\<bar> / 18446744073709551616"
    using start_plus_scaled [OF _ _ _ assms(5,6) r(2,3), of "st_real (ftpl_starttime s)"] assms(4)
    by (auto simp: modest_deadline_def start_of_clock_def)
  then show ?thesis using assms(1,2) r(1)
    by (simp add: waits_def passed_sem_timedwait_def ft_sem_timedwait_def check_missing_real_def Let_def)
qed

text \<open>
  \<^verbatim>\<open>sem_clockwait\<close> on the monotonic clock adds the faked time left to the start of the clock instead of to its present
  reading: the wait expires too early, by all the time the process has been running.
\<close>

lemma sem_clockwait_monotonic_early:
  assumes "waits ''sem_clockwait'' s" "steady s" "lock_works s" "ft_mode s = FT_START_AT" "\<not> user_per_tick_inc_set s" "\<not> user_rate_set s"
    and "fake_monotonic_clock s \<noteq> 0" "clk_read s (clk_count s) CLOCK_MONOTONIC = Some now" "modest now" "modest_deadline CLOCK_MONOTONIC T s"
  shows "\<exists>d. passed_sem_clockwait f CLOCK_MONOTONIC T s = Some d \<and>
    ts_total d = ts_total (real_deadline CLOCK_MONOTONIC T s) - (ts_total now - ts_total (st_mon (ftpl_starttime s)))"
proof -
  let ?s = "s\<lparr>clk_count := Suc (clk_count s)\<rparr>" and ?st = "st_mon (ftpl_starttime s)" and ?b = "user_faked_time_timespec s"
  let ?n = "running_time CLOCK_MONOTONIC ?s now"
  have m: "modest T" "modest ?b" "modest ?st" using assms(10) by (simp_all add: modest_deadline_def start_of_clock_def)
  note b = m [THEN modest_bounds] modest_bounds [OF assms(9)]
  have n: "ts_normal T" "ts_normal ?b" "ts_normal ?st" "ts_normal now" using m assms(9) by (simp_all add: modest_def)
  have st: "steady ?s" "lock_works ?s" using assms(2,3) by (simp_all add: steady_def lock_works_def getenv_def)
  obtain s' where f: "fake_clock_gettime CLOCK_MONOTONIC now ?s = Inr ((0, ?n), s')" and fr: "clock_frame ?s s'"
    using fake_clock_running [OF st, of CLOCK_MONOTONIC now] assms(4,5) n by (auto simp: start_of_clock_def)
  have nn: "ts_normal ?n" by (rule running_time_normal) (use n in \<open>simp_all add: start_of_clock_def\<close>)
  have nt: "ts_total ?n = ts_total ?b + (ts_total now - ts_total ?st)"
    using running_time_modest [OF assms(9), of CLOCK_MONOTONIC ?s] m assms(6) by (simp add: start_of_clock_def)
  have c: "clamp_total SEC_TO_nSEC (ts_total T - ts_total ?n) = ts_total T - ts_total ?n"
    "clamp_total SEC_TO_nSEC (ts_total ?st + (ts_total T - ts_total ?n)) = ts_total ?st + (ts_total T - ts_total ?n)"
    by (rule clamp_id, use b nt in \<open>simp_all add: SEC_TO_nSEC_def\<close>)+
  note sub = timespecsub_total [OF n(1) nn]
  have "ts_total (timespecadd ?st (timespecsub T ?n)) = ts_total ?st + (ts_total T - ts_total ?n)"
    using timespecadd_total [OF n(3) sub(1)] sub(2) c by simp
  also have "\<dots> = ts_total (real_deadline CLOCK_MONOTONIC T s) - (ts_total now - ts_total ?st)"
    using real_deadline_total [OF assms(10,6)] nt by (simp add: start_of_clock_def)
  finally show ?thesis using assms(1,6-8) f clock_frame_fields [OF fr]
    by (simp add: waits_def passed_sem_clockwait_def ft_sem_clockwait_def sem_clockwait_diff_def check_missing_real_def real_clock_gettime_def Let_def)
qed

text \<open>
  An interrupted \<^verbatim>\<open>nanosleep\<close> returns -1, and then the remaining time is left as the real function stored it, in real instead of
  faked time; an interrupted \<^verbatim>\<open>sleep\<close> reports that nothing is left.
\<close>

lemma interrupted_sleep_unscaled:
  assumes "ftpl_init_state s = FT_INIT_READY" "\<not> missing_real s ''nanosleep''" "scaled s" "\<And>q r. f q r = (- 1, Some left)"
  shows "(\<exists>p s'. ft_nanosleep f (Some req) (Some x) s = Inr ((- 1, Some left, p), s')) \<and>
    (\<exists>p s'. ft_sleep garbage f g secs s = Inr ((0, p), s'))"
  using assms by (auto simp: ft_nanosleep_def ft_sleep_def scaled_def Let_def)

text \<open>
  A \<^verbatim>\<open>sleep\<close> at a rate that is not interrupted returns what the uninitialised local variable for the remaining time held,
  scaled by the rate: \<^verbatim>\<open>nanosleep\<close> does not write to it then.
\<close>

lemma sleep_returns_garbage:
  assumes "ftpl_init_state s = FT_INIT_READY" "\<not> missing_real s ''nanosleep''" "scaled s" "\<And>q r. f q r = (0, r)" "tv_sec garbage \<noteq> 0"
  shows "\<exists>p s'. ft_sleep garbage f g secs s = Inr ((tv_sec (timespecmul garbage (user_rate s)) mod 4294967296, p), s')"
  using assms by (auto simp: ft_sleep_def scaled_def Let_def)

end
