(* ===== verification/Timers.thy ===== *)
theory Timers
  imports Sleep_Functions
begin

text \<open>
  Interval timers of \<^verbatim>\<open>src/src/libfaketime.c\<close>: \<^verbatim>\<open>timer_settime\<close>, \<^verbatim>\<open>timer_gettime\<close> in their two versions,
  \<^verbatim>\<open>timerfd_create\<close>, \<^verbatim>\<open>timerfd_settime\<close> and \<^verbatim>\<open>timerfd_gettime\<close>, with the table of the clocks of timer descriptors. The
  real functions are arguments that map what they are passed to their result and what they store; \<open>mutex_ok\<close> says
  whether the mutex of the table can be locked.
\<close>

section \<open>The clocks of timer descriptors\<close>

text \<open>The static array \<^verbatim>\<open>timerfd_clocks\<close>: descriptor and clock, a descriptor of 0 marking a free entry.\<close>

type_synonym timerfd_clock_entry = "int \<times> int"

definition FT_TIMERFD_CLOCK_ENTRIES :: nat where "FT_TIMERFD_CLOCK_ENTRIES = 64"

definition timerfd_clocks_init :: "timerfd_clock_entry list" where
  "timerfd_clocks_init = replicate FT_TIMERFD_CLOCK_ENTRIES (0, 0)"

fun remember_loop :: "int \<Rightarrow> int \<Rightarrow> timerfd_clock_entry list \<Rightarrow> timerfd_clock_entry list" where
  "remember_loop fd clock_id [] = []"
| "remember_loop fd clock_id ((f, c) # es) =
    (if f = fd \<or> f = 0 then (fd, clock_id) # es else (f, c) # remember_loop fd clock_id es)"

definition remember_timerfd_clock :: "bool \<Rightarrow> int \<Rightarrow> int \<Rightarrow> timerfd_clock_entry list \<Rightarrow> timerfd_clock_entry list" where
  "remember_timerfd_clock mutex_ok fd clock_id es = (if \<not> mutex_ok then es else remember_loop fd clock_id es)"

fun lookup_loop :: "int \<Rightarrow> timerfd_clock_entry list \<Rightarrow> int option" where
  "lookup_loop fd [] = None"
| "lookup_loop fd ((f, c) # es) = (if f = fd then Some c else lookup_loop fd es)"

text \<open>The clock named in the contents of \<^verbatim>\<open>/proc/self/fdinfo/<fd>\<close> (\<open>None\<close>: it cannot be opened or read).\<close>

definition fdinfo_clock :: "string option \<Rightarrow> int option" where
  "fdinfo_clock fdinfo =
    (case fdinfo of None \<Rightarrow> None
     | Some text \<Rightarrow>
        (let buffer = take 255 text;
             value = (case strstr buffer (CHR 0x0A # ''clockid:'') of
                        Some i \<Rightarrow> Some (drop (i + (if i = 0 then 8 else 9)) buffer)
                      | None \<Rightarrow> if str_prefix ''clockid:'' buffer then Some (drop 8 buffer) else None)
         in case value of None \<Rightarrow> None
            | Some v \<Rightarrow> (case strtol v of (parsed_clock_id, e, _) \<Rightarrow>
                 if e \<noteq> v \<and> parsed_clock_id \<ge> 0 \<and> parsed_clock_id \<le> INT_MAX then Some parsed_clock_id else None)))"

definition timerfd_clock :: "bool \<Rightarrow> string option \<Rightarrow> int \<Rightarrow> timerfd_clock_entry list \<Rightarrow> int" where
  "timerfd_clock mutex_ok fdinfo fd es =
    (if \<not> mutex_ok then CLOCK_REALTIME
     else case fdinfo_clock fdinfo of
            Some c \<Rightarrow> c
          | None \<Rightarrow> (case lookup_loop fd es of Some c \<Rightarrow> c | None \<Rightarrow> CLOCK_REALTIME))"

section \<open>Setting and reading timers\<close>

record itimerspec =
  it_interval :: timespec
  it_value :: timespec

datatype ft_lib_compat_timer = FT_COMPAT_GLIBC_2_2 | FT_COMPAT_GLIBC_2_3_3 | FT_FD

definition is_zero_ts :: "timespec \<Rightarrow> bool" where
  "is_zero_ts t \<longleftrightarrow> tv_sec t = 0 \<and> tv_nsec t = 0"

definition scale_down :: "timespec \<Rightarrow> ft_state \<Rightarrow> timespec" where
  "scale_down t s = (if user_rate_set s then timespecmul t (inverse_rate s) else t)"

text \<open>The translation of an absolute \<^verbatim>\<open>it_value\<close>.\<close>

definition timer_absolute :: "int \<Rightarrow> timespec \<Rightarrow> ft_state \<Rightarrow> timespec \<times> ft_state" where
  "timer_absolute clock_id v s =
    (if clock_id = CLOCK_MONOTONIC \<and> fake_monotonic_clock s \<noteq> 0 then
       (let s = s\<lparr>user_faked_time_timespec := normalize_timespec_value (user_faked_time_timespec s)\<rparr>;
            timeadj = timespecsub v (user_faked_time_timespec s)
        in (timespecadd (st_mon (ftpl_starttime s)) (scale_down timeadj s), s))
     else if clock_id = CLOCK_MONOTONIC then (v, s)
     else (timespecadd (st_real (ftpl_starttime s)) (scale_down (timespecsub v (user_faked_time_timespec s)) s), s))"

text \<open>\<open>abstime\<close> is the test \<^verbatim>\<open>flags & abstime_flag\<close>.\<close>

definition timer_new_real :: "bool \<Rightarrow> int \<Rightarrow> itimerspec option \<Rightarrow> ft_state \<Rightarrow> itimerspec option \<times> ft_state" where
  "timer_new_real abstime clock_id new_value s =
    (case new_value of
       None \<Rightarrow> (None, s)
     | Some nv \<Rightarrow>
        if dont_fake s then (Some nv, s)
        else
          (case (if \<not> is_zero_ts (it_value nv) then
                   (if abstime then timer_absolute clock_id (it_value nv) s else (scale_down (it_value nv) s, s))
                 else (it_value nv, s)) of (v, s) \<Rightarrow>
           (Some \<lparr>it_interval = (if user_rate_set s \<and> \<not> is_zero_ts (it_interval nv)
                                then timespecmul (it_interval nv) (inverse_rate s) else it_interval nv), it_value = v\<rparr>, s)))"

definition timer_old_value :: "itimerspec \<Rightarrow> int \<Rightarrow> ft_state \<Rightarrow> ((int \<times> itimerspec) \<times> ft_state) exitable" where
  "timer_old_value ov result s =
    exit_bind (if \<not> is_zero_ts (it_value ov) then fake_clock_gettime CLOCK_REALTIME (it_value ov) s
               else Inr ((result, it_value ov), s)) (\<lambda>((result, v), s).
      Inr ((result, \<lparr>it_interval = (if user_rate_set s \<and> \<not> is_zero_ts (it_interval ov)
                                  then timespecmul (it_interval ov) (user_rate s) else it_interval ov), it_value = v\<rparr>), s))"

type_synonym real_settime = "ft_lib_compat_timer \<Rightarrow> itimerspec option \<Rightarrow> itimerspec option \<Rightarrow> int \<times> itimerspec option"

text \<open>The result, \<^verbatim>\<open>*old_value\<close> and what was passed to the real function.\<close>

definition timer_settime_common ::
  "real_settime \<Rightarrow> bool \<Rightarrow> itimerspec option \<Rightarrow> itimerspec option \<Rightarrow> ft_lib_compat_timer \<Rightarrow> int \<Rightarrow> ft_state \<Rightarrow>
    ((int \<times> itimerspec option \<times> itimerspec option) \<times> ft_state) exitable" where
  "timer_settime_common real_settime abstime new_value old_value compat_mode clock_id s =
    exit_bind (ftpl_ready s) (\<lambda>s.
      case timer_new_real abstime clock_id new_value s of (new_real, s) \<Rightarrow>
      case real_settime compat_mode new_real old_value of (result, old_value) \<Rightarrow>
      if result = - 1 then Inr ((result, old_value, new_real), s)
      else case old_value of
             Some ov \<Rightarrow>
               if \<not> dont_fake s then
                 exit_bind (timer_old_value ov result s) (\<lambda>((result, ov), s). Inr ((result, Some ov, new_real), s))
               else Inr ((result, Some ov, new_real), s)
           | None \<Rightarrow> Inr ((result, None, new_real), s))"

type_synonym real_gettime = "ft_lib_compat_timer \<Rightarrow> itimerspec option \<Rightarrow> int \<times> itimerspec option"

definition timer_gettime_common ::
  "real_gettime \<Rightarrow> itimerspec option \<Rightarrow> ft_lib_compat_timer \<Rightarrow> ft_state \<Rightarrow> ((int \<times> itimerspec option) \<times> ft_state) exitable" where
  "timer_gettime_common real_gettime curr_value compat_mode s =
    exit_bind (ftpl_ready s) (\<lambda>s.
      if missing_real s ''timer_gettime_233'' then Inr ((- 1, curr_value), s)
      else case real_gettime compat_mode curr_value of (result, curr_value) \<Rightarrow>
        if result = - 1 then Inr ((result, curr_value), s)
        else Inr ((result, if scaled s then map_option (\<lambda>cv. \<lparr>it_interval = timespecmul (it_interval cv) (user_rate s),
                                                            it_value = timespecmul (it_value cv) (user_rate s)\<rparr>) curr_value
                           else curr_value), s))"

definition timer_settime_22 ::
  "real_settime \<Rightarrow> bool \<Rightarrow> itimerspec option \<Rightarrow> itimerspec option \<Rightarrow> ft_state \<Rightarrow> ((int \<times> itimerspec option \<times> itimerspec option) \<times> ft_state) exitable" where
  "timer_settime_22 real_settime abstime new_value old_value s =
    exit_bind (ftpl_ready s) (\<lambda>s.
      if missing_real s ''timer_settime_22'' then Inr ((- 1, old_value, None), s)
      else timer_settime_common real_settime abstime new_value old_value FT_COMPAT_GLIBC_2_2 CLOCK_REALTIME s)"

definition timer_settime_233 ::
  "real_settime \<Rightarrow> bool \<Rightarrow> itimerspec option \<Rightarrow> itimerspec option \<Rightarrow> ft_state \<Rightarrow> ((int \<times> itimerspec option \<times> itimerspec option) \<times> ft_state) exitable" where
  "timer_settime_233 real_settime abstime new_value old_value s =
    exit_bind (ftpl_ready s) (\<lambda>s.
      if missing_real s ''timer_settime_233'' then Inr ((- 1, old_value, None), s)
      else timer_settime_common real_settime abstime new_value old_value FT_COMPAT_GLIBC_2_3_3 CLOCK_REALTIME s)"

definition timer_gettime_22 :: "real_gettime \<Rightarrow> itimerspec option \<Rightarrow> ft_state \<Rightarrow> ((int \<times> itimerspec option) \<times> ft_state) exitable" where
  "timer_gettime_22 real_gettime curr_value s =
    exit_bind (ftpl_ready s) (\<lambda>s.
      if missing_real s ''timer_gettime_22'' then Inr ((- 1, curr_value), s)
      else timer_gettime_common real_gettime curr_value FT_COMPAT_GLIBC_2_2 s)"

definition timer_gettime_233 :: "real_gettime \<Rightarrow> itimerspec option \<Rightarrow> ft_state \<Rightarrow> ((int \<times> itimerspec option) \<times> ft_state) exitable" where
  "timer_gettime_233 real_gettime curr_value s =
    exit_bind (ftpl_ready s) (\<lambda>s.
      if missing_real s ''timer_gettime_233'' then Inr ((- 1, curr_value), s)
      else timer_gettime_common real_gettime curr_value FT_COMPAT_GLIBC_2_3_3 s)"

text \<open>\<open>fd\<close> is what the real \<^verbatim>\<open>timerfd_create\<close> returns.\<close>

definition timerfd_create :: "bool \<Rightarrow> int \<Rightarrow> int \<Rightarrow> timerfd_clock_entry list \<Rightarrow> ft_state \<Rightarrow> ((int \<times> timerfd_clock_entry list) \<times> ft_state) exitable" where
  "timerfd_create mutex_ok fd clockid es s =
    exit_bind (ftpl_ready s) (\<lambda>s.
      if missing_real s ''timerfd_create'' then Inr ((- 1, es), s\<lparr>errno := ENOSYS\<rparr>)
      else if fd \<noteq> - 1 then Inr ((fd, remember_timerfd_clock mutex_ok fd clockid es), s)
      else Inr ((fd, es), s))"

definition timerfd_settime ::
  "bool \<Rightarrow> string option \<Rightarrow> timerfd_clock_entry list \<Rightarrow> real_settime \<Rightarrow> int \<Rightarrow> bool \<Rightarrow> itimerspec option \<Rightarrow> itimerspec option \<Rightarrow> ft_state \<Rightarrow>
    ((int \<times> itimerspec option \<times> itimerspec option) \<times> ft_state) exitable" where
  "timerfd_settime mutex_ok fdinfo es real_settime fd abstime new_value old_value s =
    exit_bind (ftpl_ready s) (\<lambda>s.
      if missing_real s ''timerfd_settime'' then Inr ((- 1, old_value, None), s)
      else timer_settime_common real_settime abstime new_value old_value FT_FD (timerfd_clock mutex_ok fdinfo fd es) s)"

definition timerfd_gettime :: "real_gettime \<Rightarrow> itimerspec option \<Rightarrow> ft_state \<Rightarrow> ((int \<times> itimerspec option) \<times> ft_state) exitable" where
  "timerfd_gettime real_gettime curr_value s =
    exit_bind (ftpl_ready s) (\<lambda>s.
      if missing_real s ''timerfd_gettime'' then Inr ((- 1, curr_value), s)
      else timer_gettime_common real_gettime curr_value FT_FD s)"

section \<open>Lemmas\<close>

text \<open>The table implements a map of bounded size.\<close>

definition has_room :: "int \<Rightarrow> timerfd_clock_entry list \<Rightarrow> bool" where
  "has_room fd es \<longleftrightarrow> (\<exists>e \<in> set es. fst e = fd \<or> fst e = 0)"

lemma length_remember_loop [simp]: "length (remember_loop fd c es) = length es"
  by (induction fd c es rule: remember_loop.induct) simp_all

lemma lookup_remember_same: "lookup_loop fd (remember_loop fd c es) = (if has_room fd es then Some c else None)"
  by (induction fd c es rule: remember_loop.induct) (auto simp: has_room_def)

lemma lookup_remember_other: "fd' \<noteq> fd \<Longrightarrow> fd' \<noteq> 0 \<Longrightarrow> lookup_loop fd' (remember_loop fd c es) = lookup_loop fd' es"
  by (induction fd c es rule: remember_loop.induct) auto

text \<open>There is room unless all entries are taken by other descriptors.\<close>

lemma full_table:
  assumes "\<not> has_room fd es" "distinct (map fst es)" "\<forall>f \<in> set (map fst es). 0 < f"
  shows "card (set (map fst es)) = length es" "fd \<notin> set (map fst es)"
  using assms by (auto simp: has_room_def distinct_card [OF assms(2), simplified])

subsection \<open>Deadlines\<close>

definition passed_timerfd ::
  "bool \<Rightarrow> string option \<Rightarrow> timerfd_clock_entry list \<Rightarrow> real_settime \<Rightarrow> int \<Rightarrow> timespec \<Rightarrow> timespec \<Rightarrow> ft_state \<Rightarrow> timespec option" where
  "passed_timerfd mutex_ok fdinfo es f fd iv T s =
    (case timerfd_settime mutex_ok fdinfo es f fd True (Some \<lparr>it_interval = iv, it_value = T\<rparr>) None s of
       Inr ((_, _, p), _) \<Rightarrow> map_option it_value p | Inl _ \<Rightarrow> None)"

definition passed_timer :: "real_settime \<Rightarrow> timespec \<Rightarrow> timespec \<Rightarrow> ft_state \<Rightarrow> timespec option" where
  "passed_timer f iv T s =
    (case timer_settime_233 f True (Some \<lparr>it_interval = iv, it_value = T\<rparr>) None s of
       Inr ((_, _, p), _) \<Rightarrow> map_option it_value p | Inl _ \<Rightarrow> None)"

text \<open>A real function leaves a NULL pointer alone.\<close>

definition keeps_null :: "real_settime \<Rightarrow> bool" where
  "keeps_null f \<longleftrightarrow> (\<forall>c n. snd (f c n None) = None)"

lemma timer_settime_common_passes:
  assumes "ftpl_init_state s = FT_INIT_READY" "keeps_null f"
  shows "\<exists>r. timer_settime_common f abstime nv None compat_mode clk s =
    Inr ((r, None, fst (timer_new_real abstime clk nv s)), snd (timer_new_real abstime clk nv s))"
proof -
  obtain p s' where n: "timer_new_real abstime clk nv s = (p, s')" by fastforce
  have "snd (f compat_mode p None) = None" using assms(2) by (simp add: keeps_null_def)
  then show ?thesis using assms(1) n by (cases "f compat_mode p None") (simp add: timer_settime_common_def)
qed

lemma timer_absolute_deadline:
  "clk = CLOCK_REALTIME \<Longrightarrow> fst (timer_absolute clk T s) = real_deadline clk T s"
  "clk = CLOCK_MONOTONIC \<Longrightarrow> fake_monotonic_clock s \<noteq> 0 \<Longrightarrow> ts_normal (user_faked_time_timespec s) \<Longrightarrow> fst (timer_absolute clk T s) = real_deadline clk T s"
  by (simp_all add: timer_absolute_def real_deadline_def start_of_clock_def scale_down_def normalize_normal inverse_rate_def Let_def)

lemma timer_new_real_absolute:
  "\<not> dont_fake s \<Longrightarrow> \<not> is_zero_ts T \<Longrightarrow>
    map_option it_value (fst (timer_new_real True clk (Some \<lparr>it_interval = iv, it_value = T\<rparr>) s)) = Some (fst (timer_absolute clk T s))"
  by (simp add: timer_new_real_def split: prod.split)

lemma passed_timerfd_absolute:
  assumes "waits ''timerfd_settime'' s" "keeps_null f" "\<not> is_zero_ts T"
  shows "passed_timerfd mutex_ok fdinfo es f fd iv T s = Some (fst (timer_absolute (timerfd_clock mutex_ok fdinfo fd es) T s))"
proof -
  have ready: "ftpl_init_state s = FT_INIT_READY" "\<not> missing_real s ''timerfd_settime''" "\<not> dont_fake s"
    using assms(1) by (simp_all add: waits_def)
  obtain r where "timer_settime_common f True (Some \<lparr>it_interval = iv, it_value = T\<rparr>) None FT_FD (timerfd_clock mutex_ok fdinfo fd es) s =
      Inr ((r, None, fst (timer_new_real True (timerfd_clock mutex_ok fdinfo fd es) (Some \<lparr>it_interval = iv, it_value = T\<rparr>) s)),
        snd (timer_new_real True (timerfd_clock mutex_ok fdinfo fd es) (Some \<lparr>it_interval = iv, it_value = T\<rparr>) s))"
    using timer_settime_common_passes [OF ready(1) assms(2)] by blast
  then show ?thesis using ready timer_new_real_absolute [OF ready(3) assms(3)] by (simp add: passed_timerfd_def timerfd_settime_def)
qed

lemma passed_timer_absolute:
  assumes "waits ''timer_settime_233'' s" "keeps_null f" "\<not> is_zero_ts T"
  shows "passed_timer f iv T s = Some (fst (timer_absolute CLOCK_REALTIME T s))"
proof -
  have ready: "ftpl_init_state s = FT_INIT_READY" "\<not> missing_real s ''timer_settime_233''" "\<not> dont_fake s"
    using assms(1) by (simp_all add: waits_def)
  obtain r where "timer_settime_common f True (Some \<lparr>it_interval = iv, it_value = T\<rparr>) None FT_COMPAT_GLIBC_2_3_3 CLOCK_REALTIME s =
      Inr ((r, None, fst (timer_new_real True CLOCK_REALTIME (Some \<lparr>it_interval = iv, it_value = T\<rparr>) s)),
        snd (timer_new_real True CLOCK_REALTIME (Some \<lparr>it_interval = iv, it_value = T\<rparr>) s))"
    using timer_settime_common_passes [OF ready(1) assms(2)] by blast
  then show ?thesis using ready timer_new_real_absolute [OF ready(3) assms(3)] by (simp add: passed_timer_def timer_settime_233_def)
qed

interpretation fd_rt: faked_deadline CLOCK_REALTIME
  "\<lambda>T s. waits ''timerfd_settime'' s \<and> keeps_null f \<and> \<not> is_zero_ts T \<and> timerfd_clock mutex_ok fdinfo fd es = CLOCK_REALTIME"
  "passed_timerfd mutex_ok fdinfo es f fd iv"
  by unfold_locales (simp add: passed_timerfd_absolute timer_absolute_deadline)

interpretation fd_mono: faked_deadline CLOCK_MONOTONIC
  "\<lambda>T s. waits ''timerfd_settime'' s \<and> keeps_null f \<and> \<not> is_zero_ts T \<and> timerfd_clock mutex_ok fdinfo fd es = CLOCK_MONOTONIC \<and>
    fake_monotonic_clock s \<noteq> 0 \<and> ts_normal (user_faked_time_timespec s)"
  "passed_timerfd mutex_ok fdinfo es f fd iv"
  by unfold_locales (simp add: passed_timerfd_absolute timer_absolute_deadline)

interpretation timer_rt: faked_deadline CLOCK_REALTIME
  "\<lambda>T s. waits ''timer_settime_233'' s \<and> keeps_null f \<and> \<not> is_zero_ts T" "passed_timer f iv"
  by unfold_locales (simp add: passed_timer_absolute timer_absolute_deadline)

lemma timerfd_clock_remembered:
  assumes "has_room fd es" "fd' \<noteq> 0"
  shows "timerfd_clock True None fd' (remember_timerfd_clock True fd c es) = (if fd' = fd then c else timerfd_clock True None fd' es)"
  using assms by (simp add: timerfd_clock_def remember_timerfd_clock_def fdinfo_clock_def lookup_remember_same lookup_remember_other)

subsection \<open>What the system says about a descriptor\<close>

text \<open>
  The contents of \<^verbatim>\<open>/proc/self/fdinfo\<close> for a timer descriptor: some lines about every descriptor, then one that names the
  clock, and others. The first lines are short, and none of them begins as that one does.
\<close>

abbreviation (input) newline :: char where "newline \<equiv> CHR 0x0A"

definition fdinfo_lines :: "string list \<Rightarrow> string" where
  "fdinfo_lines ls = concat (map (\<lambda>l. l @ [newline]) ls)"

definition fdinfo_text :: "string list \<Rightarrow> int \<Rightarrow> string \<Rightarrow> string" where
  "fdinfo_text ls clk rest = fdinfo_lines ls @ ''clockid: '' @ show_int clk @ newline # rest"

definition common_lines :: "string list \<Rightarrow> bool" where
  "common_lines ls \<longleftrightarrow> ls \<noteq> [] \<and> hd ls \<noteq> [] \<and> length (fdinfo_lines ls) \<le> 200 \<and>
     (\<forall>l \<in> set ls. newline \<notin> set l \<and> \<not> str_prefix ''clockid:'' l)"

lemma strstr_skip: "newline \<notin> set l \<Longrightarrow>
    strstr (l @ t) (newline # n) = map_option (\<lambda>i. i + length l) (strstr t (newline # n))"
proof (induction l)
  case (Cons c l)
  then have "\<not> str_prefix (newline # n) ((c # l) @ t)" by (auto simp: str_prefix_def)
  then show ?case using Cons by (subst strstr.simps) (simp add: option.map_comp comp_def del: strstr.simps)
qed (simp add: option.map_ident)

lemma prefix_of_line:
  assumes "newline \<notin> set n" "str_prefix n (l @ newline # t)"
  shows "str_prefix n l"
proof -
  have "length n \<le> length l"
  proof (rule ccontr)
    assume "\<not> length n \<le> length l"
    moreover have "take (length n) (l @ newline # t) = n" using assms(2) by (simp add: str_prefix_def)
    ultimately have "n ! length l = newline" "length l < length n"
      by (metis not_le nth_append_length nth_take)+
    then show False using assms(1) nth_mem by metis
  qed
  then show ?thesis using assms(2) by (simp add: str_prefix_def)
qed

lemma strstr_lines:
  assumes "ls \<noteq> []" "\<forall>l \<in> set ls. newline \<notin> set l \<and> \<not> str_prefix ''clockid:'' l"
  shows "strstr (fdinfo_lines ls @ ''clockid:'' @ t) (newline # ''clockid:'') = Some (length (fdinfo_lines ls) - 1)"
  using assms
proof (induction ls)
  case (Cons l ls)
  let ?n = "''clockid:''" and ?t = "fdinfo_lines ls @ ''clockid:'' @ t"
  have l: "newline \<notin> set l" using Cons.prems by simp
  have "strstr (newline # ?t) (newline # ?n) = Some (length (fdinfo_lines ls))"
  proof (cases ls)
    case Nil
    then show ?thesis by (subst strstr.simps) (simp add: fdinfo_lines_def str_prefix_def)
  next
    case (Cons l' ls')
    then have "\<not> str_prefix ?n (l' @ newline # fdinfo_lines ls' @ ?n @ t)"
      using prefix_of_line [of ?n l' "fdinfo_lines ls' @ ?n @ t"] \<open>\<forall>l \<in> set (l # ls). _ l\<close> by auto
    then have "\<not> str_prefix (newline # ?n) (newline # ?t)" using Cons by (simp add: fdinfo_lines_def str_prefix_def)
    then have "strstr (newline # ?t) (newline # ?n) = map_option Suc (strstr ?t (newline # ?n))"
      by (subst strstr.simps) (simp del: strstr.simps)
    moreover have "strstr ?t (newline # ?n) = Some (length (fdinfo_lines ls) - 1)" using Cons.IH Cons.prems Cons by simp
    moreover have "0 < length (fdinfo_lines ls)" using Cons by (simp add: fdinfo_lines_def)
    ultimately show ?thesis by simp
  qed
  then show ?case using strstr_skip [OF l, of "newline # ?t" ?n] by (simp add: fdinfo_lines_def)
qed simp

lemma strtol_after_space:
  assumes "in_s64 (int n)" "t = [] \<or> \<not> isdigit (hd t)"
  shows "strtol (CHR '' '' # show_nat n @ t) = (int n, t, False)"
proof -
  have d: "\<forall>c \<in> set (show_nat n). isdigit c" "show_nat n \<noteq> []" by (simp_all add: show_nat_digits show_nat_nonempty del: show_nat.simps)
  then obtain c cs where c: "show_nat n = c # cs" "isdigit c" by (cases "show_nat n") auto
  then have "\<not> isspace c" "c \<noteq> CHR ''-''" "c \<noteq> CHR ''+''" using isdigit_not by auto
  moreover have "isspace (CHR '' '')" by (simp add: isspace_def)
  ultimately have 1: "split_sign (dropWhile isspace (CHR '' '' # show_nat n @ t)) = (False, show_nat n @ t)"
    unfolding c(1) by simp
  have t: "takeWhile isdigit t = []" "dropWhile isdigit t = t" using assms(2) by (cases t; simp)+
  have 2: "takeWhile isdigit (show_nat n @ t) = show_nat n" "dropWhile isdigit (show_nat n @ t) = t"
    using d(1) t by (simp_all add: takeWhile_append2 dropWhile_append2 del: show_nat.simps)
  show ?thesis
    unfolding strtol_def 1 Let_def prod.case 2
    using assms(1) d(2) digits_val_show_nat [of n] by (simp add: in_s64_def del: show_nat.simps)
qed

lemma fdinfo_clock_text:
  assumes "common_lines ls" "0 \<le> clk" "clk \<le> INT_MAX"
  shows "fdinfo_clock (Some (fdinfo_text ls clk rest)) = Some clk"
proof -
  let ?h = "fdinfo_lines ls" and ?d = "show_nat (nat clk)"
  have h: "length ?h \<le> 200" "0 < length ?h - 1"
    using assms(1) by (auto simp: common_lines_def fdinfo_lines_def neq_Nil_conv)
  have d: "length ?d \<le> 10" using assms(2,3) show_nat_length [of "nat clk" 10] by (simp add: nat_less_iff INT_MAX_def)
  let ?p = "?h @ ''clockid: '' @ ?d"
  define r where "r = take (255 - length ?p) (newline # rest)"
  have "fdinfo_text ls clk rest = ?p @ newline # rest" "length ?p \<le> 255"
    using h d assms(2) by (simp_all add: fdinfo_text_def show_int_nonneg del: show_nat.simps)
  then have "take 255 (fdinfo_text ls clk rest) = ?p @ r" using take_append [of 255 ?p "newline # rest"] take_all [of ?p 255] by (simp only: r_def)
  then have b: "take 255 (fdinfo_text ls clk rest) = ?h @ ''clockid:'' @ CHR '' '' # ?d @ r" by (simp del: show_nat.simps)
  have i: "strstr (take 255 (fdinfo_text ls clk rest)) (newline # ''clockid:'') = Some (length ?h - 1)"
    unfolding b by (rule strstr_lines) (use assms(1) in \<open>simp_all add: common_lines_def\<close>)
  have v: "drop (length ?h - 1 + 9) (take 255 (fdinfo_text ls clk rest)) = CHR '' '' # ?d @ r"
    unfolding b using h by (simp del: show_nat.simps)
  have r: "r = [] \<or> \<not> isdigit (hd r)" by (auto simp: r_def isdigit_def char_code_def take_Cons' split: if_splits)
  have "strtol (CHR '' '' # ?d @ r) = (int (nat clk), r, False)"
    by (rule strtol_after_space [OF _ r]) (use assms in \<open>simp add: in_s64_def INT_MAX_def\<close>)
  then show ?thesis
    using assms h(2) i v by (simp add: fdinfo_clock_def Let_def del: show_nat.simps strstr.simps)
qed

subsection \<open>Scaling there and back\<close>

lemma scaled_total:
  assumes "modest v" "\<bar>ts_total v\<bar> < 9223372036854775808" "0 \<le> c" "c \<le> 2000000"
  shows "\<bar>of_int (ts_total (timespecmul v (Fin c))) - of_int (ts_total v) * c\<bar> < 1 + \<bar>of_int (ts_total v) * c\<bar> / 18446744073709551616"
proof -
  have "\<bar>tv_sec v\<bar> * SEC_TO_nSEC + \<bar>tv_nsec v\<bar> < 18446744073709551616"
    using assms(1,2) by (auto simp: modest_def normal_def total_of_def SEC_TO_nSEC_def)
  moreover have "\<bar>rat_of_int (ts_total v)\<bar> \<le> 9223372036854775808" using assms(2) by linarith
  then have "\<bar>rat_of_int (ts_total v)\<bar> * \<bar>c\<bar> \<le> 9223372036854775808 * 2000000" using assms(3,4) by (intro mult_mono) simp_all
  then have "\<bar>of_int (ts_total v) * c\<bar> \<le> 9223372036854775808 * 2000000" by (simp add: abs_mult)
  ultimately show ?thesis using nsec.mul_error(2) [of "ts_pair v" c] by (simp add: timespecmul_def SEC_TO_nSEC_def)
qed

lemma modest_of_total: "ts_normal t \<Longrightarrow> \<bar>ts_total t\<bar> < 1000000000000000000000000000 \<Longrightarrow> modest t"
  by (auto simp: modest_def normal_def total_of_def SEC_TO_nSEC_def)

text \<open>A time scaled to real time and back to faked time is the same up to a few nanoseconds and roundings.\<close>

lemma scale_there_and_back:
  assumes v: "modest v" "\<bar>ts_total v\<bar> < 4611686018427387904" and rt: "usual_rate (user_rate s) r"
    and p: "p = timespecmul v (inverse_rate s)" and small: "\<bar>ts_total p\<bar> < 9223372036854775808"
  shows "\<bar>of_int (ts_total (timespecmul p (user_rate s))) - of_int (ts_total v)\<bar> \<le> r + 2 + \<bar>of_int (ts_total v)\<bar> / 2251799813685248"
proof -
  obtain c where c: "inverse_rate s = Fin c" "\<bar>c * r - 1\<bar> \<le> 1 / 9007199254740992" "0 \<le> c" "c \<le> 2000000"
    using inverse_rate_error [OF rt] .
  have r: "user_rate s = Fin r" "0 < r" "r \<le> 1000000" using rt by (auto simp: usual_rate_def intro: less_le_trans [rotated])
  let ?v = "rat_of_int (ts_total v)" and ?p = "rat_of_int (ts_total p)" and ?q = "rat_of_int (ts_total (timespecmul p (Fin r)))"
  have "\<bar>?p - ?v * c\<bar> < 1 + \<bar>?v * c\<bar> / 18446744073709551616"
    using scaled_total [of v c] v c p by simp
  from inverse_and_back [OF this c(2) r(2) c(3)] have 1: "\<bar>?p * r - ?v\<bar> \<le> r + \<bar>?v\<bar> / 4503599627370496" .
  have "modest p" using small p by (intro modest_of_total) (simp_all add: timespecmul_normal)
  then have "\<bar>?q - ?p * r\<bar> < 1 + \<bar>?p * r\<bar> / 18446744073709551616" using scaled_total [of p r] small r by simp
  with 1 r(3) have "\<bar>?q - ?v\<bar> \<le> r + 2 + \<bar>?v\<bar> / 2251799813685248" by linarith
  then show ?thesis by (simp add: r(1))
qed

section \<open>Properties\<close>

text \<open>
  Claim C32.
  Timer descriptors know their clock: after \<^verbatim>\<open>timerfd_create\<close> on the real-time or the (faked) monotonic clock, an absolute
  \<^verbatim>\<open>timerfd_settime\<close> on the new descriptor finds this clock, in \<^verbatim>\<open>/proc/self/fdinfo\<close> whatever its table holds, or in the table
  if that file cannot be read. While the faked clock runs at the speed of the real one it arms the real timer for the real time at which
  \<^verbatim>\<open>fake_clock_gettime\<close> of that clock reaches the requested time, not a nanosecond earlier or later; and at a rate r between a millionth
  and a million for the time whose distance from the start, times r, is the requested one from the base, up to one real nanosecond and a relative error of
  \<open>2 ^ - 52\<close>.
\<close>

theorem timerfd_fires_on_time:
  assumes "waits ''timerfd_create'' s" "waits ''timerfd_settime'' s" "keeps_null f" "fake_monotonic_clock s \<noteq> 0"
    and "steady s" "lock_works s" "ft_mode s = FT_START_AT" "\<not> user_per_tick_inc_set s"
    and "clk \<in> {CLOCK_REALTIME, CLOCK_MONOTONIC}" "0 < fd" "\<not> is_zero_ts T" "modest_deadline clk T s"
    and "fdinfo = Some (fdinfo_text ls clk rest) \<and> common_lines ls \<or> fdinfo = None \<and> mutex_ok \<and> has_room fd es"
  shows "\<exists>es' d. timerfd_create mutex_ok fd clk es s = Inr ((fd, es'), s) \<and> passed_timerfd True fdinfo es' f fd iv T s = Some d \<and>
    (\<not> user_rate_set s \<longrightarrow> expires_when clk T d s) \<and>
    (\<forall>r el. user_rate_set s \<and> usual_rate (user_rate s) r \<and> el = ts_total T - ts_total (user_faked_time_timespec s) \<and> \<bar>el\<bar> < 9223372036854775808 \<longrightarrow>
      \<bar>of_int (ts_total d - ts_total (start_of_clock clk (ftpl_starttime s))) * r - of_int el\<bar> \<le> r + \<bar>of_int el\<bar> / 4503599627370496)"
proof -
  let ?es = "remember_timerfd_clock mutex_ok fd clk es"
  have c: "timerfd_create mutex_ok fd clk es s = Inr ((fd, ?es), s)" using assms(1,10) by (simp add: timerfd_create_def waits_def)
  have k: "timerfd_clock True fdinfo fd ?es = clk"
    using assms(13)
  proof
    assume "fdinfo = Some (fdinfo_text ls clk rest) \<and> common_lines ls"
    then show ?thesis using fdinfo_clock_text [of ls clk rest] assms(9) by (auto simp: timerfd_clock_def INT_MAX_def)
  next
    assume "fdinfo = None \<and> mutex_ok \<and> has_room fd es"
    then show ?thesis using timerfd_clock_remembered [of fd es fd clk] assms(10) by simp
  qed
  have n: "ts_normal (user_faked_time_timespec s)" using assms(12) by (simp add: modest_deadline_def modest_def)
  have r: "clock_runs s" using assms(5-8) by (simp add: clock_runs_def)
  have p: "passed_timerfd True fdinfo ?es f fd iv T s = Some (real_deadline clk T s)"
    using assms(9) fd_rt.passes [of s f T True fdinfo fd ?es iv] fd_mono.passes [of s f T True fdinfo fd ?es iv] assms(2-4,11) k n by auto
  show ?thesis
    using c p real_deadline_expires [OF r assms(12)] real_deadline_rated [OF assms(12)] assms(9) by blast
qed

theorem timerfd_fires_on_time_witness:
  "\<exists>es' d. timerfd_create False 7 CLOCK_MONOTONIC timerfd_clocks_init (sample_ready\<lparr>user_rate_set := False, user_rate := Fin 1\<rparr>) =
       Inr ((7, es'), sample_ready\<lparr>user_rate_set := False, user_rate := Fin 1\<rparr>) \<and>
     passed_timerfd True (Some (''pos: 0'' @ newline # ''flags: 02'' @ newline # ''clockid: 1'' @ newline # ''ticks: 0'')) es'
       (\<lambda>c n old. (0, old)) 7 \<lparr>tv_sec = 0, tv_nsec = 0\<rparr> \<lparr>tv_sec = 1105, tv_nsec = 0\<rparr> (sample_ready\<lparr>user_rate_set := False, user_rate := Fin 1\<rparr>) = Some d \<and>
     expires_when CLOCK_MONOTONIC \<lparr>tv_sec = 1105, tv_nsec = 0\<rparr> d (sample_ready\<lparr>user_rate_set := False, user_rate := Fin 1\<rparr>)"
proof -
  let ?s = "sample_ready\<lparr>user_rate_set := False, user_rate := Fin 1\<rparr>" and ?ls = "[''pos: 0'', ''flags: 02'']"
  let ?i = "Some (''pos: 0'' @ newline # ''flags: 02'' @ newline # ''clockid: 1'' @ newline # ''ticks: 0'')"
  note h = sample_deadline [where b = False and r = "Fin 1"]
  have k: "keeps_null (\<lambda>c n old. (0, old))" by (simp add: keeps_null_def)
  have f: "fake_monotonic_clock ?s \<noteq> 0" "\<not> user_rate_set ?s" by (simp_all add: sample_ready_props)
  have c: "steady ?s" "lock_works ?s" "ft_mode ?s = FT_START_AT" "\<not> user_per_tick_inc_set ?s"
    using sample_clock_runs [where b = False and r = "Fin 1"] by (simp_all add: clock_runs_def)
  have m: "CLOCK_MONOTONIC \<in> {CLOCK_REALTIME, CLOCK_MONOTONIC}" "(0::int) < 7" by simp_all
  have z: "\<not> is_zero_ts \<lparr>tv_sec = 1105, tv_nsec = 0\<rparr>" by (simp add: is_zero_ts_def)
  have one: "show_int 1 = ''1''" by code_simp
  have t: "?i = Some (fdinfo_text ?ls CLOCK_MONOTONIC ''ticks: 0'') \<and> common_lines ?ls \<or> ?i = None \<and> False \<and> has_room 7 timerfd_clocks_init"
    using one by (simp add: fdinfo_text_def fdinfo_lines_def common_lines_def str_prefix_def)
  show ?thesis using timerfd_fires_on_time [OF h(3) h(3) k f(1) c m z h(2) t] f(2) by blast
qed

text \<open>
  Claim C33.
  At a clock rate, a relative timer that is read back shows what was set: \<^verbatim>\<open>timerfd_gettime\<close> undoes the scaling of
  \<^verbatim>\<open>timerfd_settime\<close>, for the time to the first expiration and for the interval, up to r + 2 nanoseconds and a relative error of
  \<open>2 ^ - 51\<close>.
\<close>

theorem timer_relative_roundtrip:
  assumes "waits ''timerfd_settime'' s" "waits ''timerfd_gettime'' s" "waits ''timer_gettime_233'' s" "user_rate_set s"
    and "usual_rate (user_rate s) r" "keeps_null f" "\<not> is_zero_ts v" "\<not> is_zero_ts iv" "modest v" "modest iv"
    and "\<bar>ts_total v\<bar> < 4611686018427387904" "\<bar>ts_total iv\<bar> < 4611686018427387904"
    and "\<bar>ts_total (timespecmul v (inverse_rate s))\<bar> < 9223372036854775808"
    and "\<bar>ts_total (timespecmul iv (inverse_rate s))\<bar> < 9223372036854775808"
  shows "\<exists>res p. timerfd_settime mutex_ok fdinfo es f fd False (Some \<lparr>it_interval = iv, it_value = v\<rparr>) None s = Inr ((res, None, Some p), s) \<and>
    (\<forall>g x. g FT_FD (Some x) = (0, Some p) \<longrightarrow>
      (\<exists>cv. timerfd_gettime g (Some x) s = Inr ((0, Some cv), s) \<and>
        \<bar>of_int (ts_total (it_value cv)) - of_int (ts_total v)\<bar> \<le> r + 2 + \<bar>of_int (ts_total v)\<bar> / 2251799813685248 \<and>
        \<bar>of_int (ts_total (it_interval cv)) - of_int (ts_total iv)\<bar> \<le> r + 2 + \<bar>of_int (ts_total iv)\<bar> / 2251799813685248))"
proof -
  let ?p = "\<lparr>it_interval = timespecmul iv (inverse_rate s), it_value = timespecmul v (inverse_rate s)\<rparr>"
  have ready: "ftpl_init_state s = FT_INIT_READY" "\<not> missing_real s ''timerfd_settime''" "\<not> missing_real s ''timerfd_gettime''"
    "\<not> missing_real s ''timer_gettime_233''" "\<not> dont_fake s" using assms(1-3) by (simp_all add: waits_def)
  have n: "timer_new_real False c (Some \<lparr>it_interval = iv, it_value = v\<rparr>) s = (Some ?p, s)" for c
    using ready(5) assms(4,7,8) by (simp add: timer_new_real_def scale_down_def)
  obtain res where "timer_settime_common f False (Some \<lparr>it_interval = iv, it_value = v\<rparr>) None FT_FD (timerfd_clock mutex_ok fdinfo fd es) s
      = Inr ((res, None, Some ?p), s)"
    using timer_settime_common_passes [OF ready(1) assms(6), of False "Some \<lparr>it_interval = iv, it_value = v\<rparr>" FT_FD] n by auto
  then have 1: "timerfd_settime mutex_ok fdinfo es f fd False (Some \<lparr>it_interval = iv, it_value = v\<rparr>) None s = Inr ((res, None, Some ?p), s)"
    using ready by (simp add: timerfd_settime_def)
  let ?cv = "\<lparr>it_interval = timespecmul (it_interval ?p) (user_rate s), it_value = timespecmul (it_value ?p) (user_rate s)\<rparr>"
  have 2: "timerfd_gettime g (Some x) s = Inr ((0, Some ?cv), s)" if "g FT_FD (Some x) = (0, Some ?p)" for g x
    using that ready assms(4) by (simp add: timerfd_gettime_def timer_gettime_common_def scaled_def)
  have 3: "\<bar>of_int (ts_total (it_value ?cv)) - of_int (ts_total v)\<bar> \<le> r + 2 + \<bar>of_int (ts_total v)\<bar> / 2251799813685248"
    "\<bar>of_int (ts_total (it_interval ?cv)) - of_int (ts_total iv)\<bar> \<le> r + 2 + \<bar>of_int (ts_total iv)\<bar> / 2251799813685248"
    using scale_there_and_back [OF assms(9,11,5) refl assms(13)] scale_there_and_back [OF assms(10,12,5) refl assms(14)] by simp_all
  from 1 2 3 show ?thesis by blast
qed

theorem timer_relative_roundtrip_witness:
  "\<exists>p. timerfd_settime True None timerfd_clocks_init (\<lambda>c n old. (0, old)) 7 False
      (Some \<lparr>it_interval = \<lparr>tv_sec = 1, tv_nsec = 0\<rparr>, it_value = \<lparr>tv_sec = 1, tv_nsec = 0\<rparr>\<rparr>) None (sample_ready\<lparr>user_rate_set := True, user_rate := Fin 4\<rparr>)
      = Inr ((0, None, Some p), sample_ready\<lparr>user_rate_set := True, user_rate := Fin 4\<rparr>) \<and>
    (\<exists>cv. timerfd_gettime (\<lambda>c x. (0, Some p)) (Some p) (sample_ready\<lparr>user_rate_set := True, user_rate := Fin 4\<rparr>) =
        Inr ((0, Some cv), sample_ready\<lparr>user_rate_set := True, user_rate := Fin 4\<rparr>) \<and>
      \<bar>of_int (ts_total (it_value cv)) - 1000000000\<bar> \<le> (7 :: rat))"
proof -
  let ?s = "sample_ready\<lparr>user_rate_set := True, user_rate := Fin 4\<rparr>" and ?v = "\<lparr>tv_sec = 1, tv_nsec = 0\<rparr>"
  note h = sample_deadline [where b = True and r = "Fin 4"]
  have r: "user_rate_set ?s" "usual_rate (user_rate ?s) 4" by (simp_all add: usual_rate_def)
  have k: "keeps_null (\<lambda>c n old. (0, old))" "\<not> is_zero_ts ?v" by (simp_all add: keeps_null_def is_zero_ts_def)
  have m: "modest ?v" "\<bar>ts_total ?v\<bar> < 4611686018427387904"
    by (simp_all add: modest_def normal_def in_s64_def total_of_def SEC_TO_nSEC_def)
  obtain c where c: "inverse_rate ?s = Fin c" "0 \<le> c" "c \<le> 2000000" using inverse_rate_error [OF r(2)] by metis
  have t: "ts_total ?v = 1000000000" by (simp add: total_of_def SEC_TO_nSEC_def)
  have "\<bar>rat_of_int (ts_total (timespecmul ?v (inverse_rate ?s)))\<bar> < 9223372036854775808"
    using scaled_total [OF m(1) _ c(2,3)] c(2,3) unfolding c(1) t by (simp add: abs_mult)
  then have sm: "\<bar>ts_total (timespecmul ?v (inverse_rate ?s))\<bar> < 9223372036854775808" by linarith
  have tot: "\<bar>x - of_int 1000000000\<bar> \<le> 4 + 2 + \<bar>of_int 1000000000\<bar> / 2251799813685248 \<Longrightarrow> \<bar>x - 1000000000\<bar> \<le> 7" for x :: rat by simp
  obtain res p where p: "timerfd_settime True None timerfd_clocks_init (\<lambda>c n old. (0, old)) 7 False (Some \<lparr>it_interval = ?v, it_value = ?v\<rparr>) None ?s
      = Inr ((res, None, Some p), ?s)"
    and bk: "\<And>g x. g FT_FD (Some x) = (0, Some p) \<Longrightarrow> \<exists>cv. timerfd_gettime g (Some x) ?s = Inr ((0, Some cv), ?s) \<and>
      \<bar>of_int (ts_total (it_value cv)) - of_int 1000000000\<bar> \<le> 4 + 2 + \<bar>rat_of_int 1000000000\<bar> / 2251799813685248"
    using timer_relative_roundtrip [OF h(3) h(3) h(3) r k(1) k(2) k(2) m(1) m(1) m(2) m(2) sm sm, of True None timerfd_clocks_init 7]
    unfolding t by blast
  have "res = 0" using p h(3) [of "''timerfd_settime''"]
    by (auto simp: timerfd_settime_def timer_settime_common_def waits_def split: prod.splits)
  then show ?thesis using p bk [of "\<lambda>c x. (0, Some p)" p] tot by blast
qed

section \<open>Deviations\<close>

text \<open>
  The old value of a timer is the time left, a duration; \<^verbatim>\<open>timer_settime\<close> converts it as if it were a moment, so it reports the
  time left plus the offset instead of the (scaled) time left.
\<close>

lemma timer_old_value_as_moment:
  assumes "steady s" "lock_works s" "ft_mode s = FT_START_AT" "\<not> user_per_tick_inc_set s" "\<not> user_rate_set s"
    and "modest (user_faked_time_timespec s)" "modest (st_real (ftpl_starttime s))" "modest left" "\<not> is_zero_ts left"
  shows "\<exists>t s'. timer_old_value \<lparr>it_interval = iv, it_value = left\<rparr> r s = Inr ((0, \<lparr>it_interval = iv, it_value = t\<rparr>), s') \<and>
    ts_total t = ts_total left + (ts_total (user_faked_time_timespec s) - ts_total (st_real (ftpl_starttime s)))"
proof -
  obtain s' where f: "fake_clock_gettime CLOCK_REALTIME left s = Inr ((0, running_time CLOCK_REALTIME s left), s')" and fr: "clock_frame s s'"
    using fake_clock_running [OF assms(1-4), of CLOCK_REALTIME left] assms(6-8) by (auto simp: start_of_clock_def modest_def)
  then show ?thesis
    using running_time_modest [OF assms(8), of CLOCK_REALTIME s] assms(5-7,9) clock_frame_fields [OF fr]
    by (simp add: timer_old_value_def start_of_clock_def)
qed

end
