(* ===== verification/Uthash.thy ===== *)
theory Uthash
  imports FT_Prelude "HOL-Library.Word" "HOL-Library.Monad_Syntax"
begin

unbundle bit_operations_syntax

text \<open>
  The hash table \<^verbatim>\<open>monotonic_conds\<close>: the macros of \<^verbatim>\<open>src/src/uthash.h\<close> that \<^verbatim>\<open>src/src/libfaketime.c\<close> expands, on its elements of type
  \<^verbatim>\<open>struct pthread_cond_monotonic\<close>. Elements are linked twice, in the order in which they were added (\<^verbatim>\<open>prev\<close>, \<^verbatim>\<open>next\<close>) and within
  their bucket (\<^verbatim>\<open>hh_prev\<close>, \<^verbatim>\<open>hh_next\<close>). Memory is explicit: an address is mapped to its element, or to nothing when it is
  not allocated. As every element has one hash handle, the address of an element also stands for that of its
  handle and of its key; there is one table, so that the field \<^verbatim>\<open>tbl\<close> of the handles is the field \<open>conds_tbl\<close> of the state.

  A computation that follows a null pointer or one to memory that is not allocated, that leaves the array of
  buckets, divides by zero or does not end has the value \<open>None\<close>. Failing allocations end the process (\<^verbatim>\<open>uthash_fatal\<close>). Words are as wide as in C.
\<close>

section \<open>Memory\<close>

type_synonym addr = nat

abbreviation (input) NULL :: "addr option" where "NULL \<equiv> None"

record UT_hash_handle =
  prev_elt :: "addr option"
  next_elt :: "addr option"
  hh_prev :: "addr option"
  hh_next :: "addr option"
  hh_key :: "addr option"
  keylen :: "32 word"
  hashv :: "32 word"

record pthread_cond_monotonic =
  ptr :: "64 word"
  hh :: UT_hash_handle

record UT_hash_bucket =
  hh_head :: "addr option"
  bkt_count :: "32 word"
  expand_mult :: "32 word"

record UT_hash_table =
  buckets :: "UT_hash_bucket list"
  num_buckets :: "32 word"
  log2_num_buckets :: "32 word"
  num_items :: "32 word"
  tbl_tail :: "addr option"
  ideal_chain_maxlen :: "32 word"
  nonideal_items :: "32 word"
  ineff_expands :: "32 word"
  noexpand :: "32 word"

type_synonym elements = "addr \<rightharpoonup> pthread_cond_monotonic"

record conds_state =
  conds_head :: "addr option"
  conds_tbl :: "UT_hash_table option"
  elems :: elements

text \<open>Allocating an element for a key, in memory with some old contents, and freeing it.\<close>

definition new_element :: "UT_hash_handle \<Rightarrow> addr \<Rightarrow> 64 word \<Rightarrow> conds_state \<Rightarrow> conds_state" where
  "new_element garbage a p c = c\<lparr>elems := (elems c)(a \<mapsto> \<lparr>ptr = p, hh = garbage\<rparr>)\<rparr>"

definition free_element :: "addr \<Rightarrow> conds_state \<Rightarrow> conds_state" where
  "free_element a c = c\<lparr>elems := (elems c)(a := None)\<rparr>"

definition empty_conds :: conds_state where
  "empty_conds = \<lparr>conds_head = NULL, conds_tbl = None, elems = Map.empty\<rparr>"

text \<open>Reading the handle behind a pointer, and changing one.\<close>

definition deref :: "elements \<Rightarrow> addr option \<Rightarrow> UT_hash_handle option" where
  "deref m p = do { a \<leftarrow> p; e \<leftarrow> m a; Some (hh e) }"

definition with_handle :: "(UT_hash_handle \<Rightarrow> UT_hash_handle) \<Rightarrow> addr \<Rightarrow> elements \<Rightarrow> elements" where
  "with_handle f a m = (case m a of None \<Rightarrow> m | Some e \<Rightarrow> m(a \<mapsto> e\<lparr>hh := f (hh e)\<rparr>))"

definition store :: "addr option \<Rightarrow> (UT_hash_handle \<Rightarrow> UT_hash_handle) \<Rightarrow> elements \<Rightarrow> elements option" where
  "store p f m = do { a \<leftarrow> p; _ \<leftarrow> m a; Some (with_handle f a m) }"

text \<open>\<^verbatim>\<open>if (p) p->field = ...\<close>\<close>

definition store_unless_null :: "addr option \<Rightarrow> (UT_hash_handle \<Rightarrow> UT_hash_handle) \<Rightarrow> elements \<Rightarrow> elements option" where
  "store_unless_null p f m = (if p = NULL then Some m else store p f m)"

definition bucket_at :: "UT_hash_bucket list \<Rightarrow> nat \<Rightarrow> UT_hash_bucket option" where
  "bucket_at bs i = (if i < length bs then Some (bs ! i) else None)"

section \<open>Hashing\<close>

type_synonym jen = "32 word \<times> 32 word \<times> 32 word"

definition HASH_JEN_MIX :: "jen \<Rightarrow> jen" where
  "HASH_JEN_MIX abc =
    (case abc of (a, b, c) \<Rightarrow>
     let a = (a - b - c) XOR drop_bit 13 c;
         b = (b - c - a) XOR push_bit 8 a;
         c = (c - a - b) XOR drop_bit 13 b;
         a = (a - b - c) XOR drop_bit 12 c;
         b = (b - c - a) XOR push_bit 16 a;
         c = (c - a - b) XOR drop_bit 5 b;
         a = (a - b - c) XOR drop_bit 3 c;
         b = (b - c - a) XOR push_bit 10 a;
         c = (c - a - b) XOR drop_bit 15 b
     in (a, b, c))"

text \<open>A byte of the key at its place in a word; nothing beyond the end, as the cases of the \<^verbatim>\<open>switch\<close> fall through.\<close>

definition key_byte :: "8 word list \<Rightarrow> nat \<Rightarrow> nat \<Rightarrow> 32 word" where
  "key_byte bs i n = (if i < length bs then push_bit n (ucast (bs ! i)) else 0)"

definition key_word :: "8 word list \<Rightarrow> nat \<Rightarrow> 32 word" where
  "key_word bs i = key_byte bs i 0 + key_byte bs (i + 1) 8 + key_byte bs (i + 2) 16 + key_byte bs (i + 3) 24"

function jen_blocks :: "8 word list \<Rightarrow> jen \<Rightarrow> jen \<times> 8 word list" where
  "jen_blocks bs (i, j, h) =
    (if length bs \<ge> 12
     then jen_blocks (drop 12 bs) (HASH_JEN_MIX (i + key_word bs 0, j + key_word bs 4, h + key_word bs 8))
     else ((i, j, h), bs))"
  by pat_completeness auto
termination by (relation "measure (length \<circ> fst)") auto

definition HASH_JEN :: "8 word list \<Rightarrow> 32 word" where
  "HASH_JEN bs =
    (case jen_blocks bs (0x9e3779b9, 0x9e3779b9, 0xfeedbeef) of ((i, j, h), rest) \<Rightarrow>
       snd (snd (HASH_JEN_MIX
         (i + key_word rest 0, j + key_word rest 4,
          h + of_nat (length bs) + key_byte rest 10 24 + key_byte rest 9 16 + key_byte rest 8 8))))"

text \<open>A pointer as a key: its eight bytes in memory, the lowest first.\<close>

definition key_bytes :: "64 word \<Rightarrow> 8 word list" where
  "key_bytes p = map (\<lambda>i. ucast (drop_bit (8 * i) p)) [0..<8]"

abbreviation (input) PTR_SIZE :: "32 word" where "PTR_SIZE \<equiv> 8"

definition HASH_TO_BKT :: "32 word \<Rightarrow> 32 word \<Rightarrow> nat" where
  "HASH_TO_BKT hv num_bkts = unat (hv AND (num_bkts - 1))"

section \<open>Finding\<close>

text \<open>Comparing the key of an element with \<open>n\<close> bytes; no key is longer than a pointer.\<close>

definition key_equals :: "elements \<Rightarrow> addr option \<Rightarrow> 8 word list \<Rightarrow> 32 word \<Rightarrow> bool option" where
  "key_equals m key bs n = do {
     a \<leftarrow> key;
     e \<leftarrow> m a;
     if n \<le> PTR_SIZE then Some (take (unat n) (key_bytes (ptr e)) = take (unat n) bs) else None }"

partial_function (option) find_in_chain ::
  "elements \<Rightarrow> 8 word list \<Rightarrow> 32 word \<Rightarrow> 32 word \<Rightarrow> addr option \<Rightarrow> addr option option" where
  "find_in_chain m key keylen_in hashval p =
    (case p of
       None \<Rightarrow> Some NULL
     | Some a \<Rightarrow> do {
         h \<leftarrow> deref m p;
         same \<leftarrow> (if hashv h = hashval \<and> keylen h = keylen_in then key_equals m (hh_key h) key keylen_in else Some False);
         if same then Some p else find_in_chain m key keylen_in hashval (hh_next h) })"

definition HASH_FIND_IN_BKT :: "elements \<Rightarrow> UT_hash_bucket \<Rightarrow> 8 word list \<Rightarrow> 32 word \<Rightarrow> 32 word \<Rightarrow> addr option option" where
  "HASH_FIND_IN_BKT m b key keylen_in hashval = find_in_chain m key keylen_in hashval (hh_head b)"

definition head_tbl :: "conds_state \<Rightarrow> UT_hash_table option" where
  "head_tbl c = do { _ \<leftarrow> deref (elems c) (conds_head c); conds_tbl c }"

definition HASH_FIND_BYHASHVALUE :: "conds_state \<Rightarrow> 8 word list \<Rightarrow> 32 word \<Rightarrow> 32 word \<Rightarrow> addr option option" where
  "HASH_FIND_BYHASHVALUE c key keylen_in hashval =
    (if conds_head c = NULL then Some NULL
     else do {
       t \<leftarrow> head_tbl c;
       b \<leftarrow> bucket_at (buckets t) (HASH_TO_BKT hashval (num_buckets t));
       HASH_FIND_IN_BKT (elems c) b key keylen_in hashval })"

definition HASH_FIND :: "conds_state \<Rightarrow> 8 word list \<Rightarrow> 32 word \<Rightarrow> addr option option" where
  "HASH_FIND c key keylen_in = HASH_FIND_BYHASHVALUE c key keylen_in (HASH_JEN key)"

definition HASH_FIND_PTR :: "conds_state \<Rightarrow> 64 word \<Rightarrow> addr option option" where
  "HASH_FIND_PTR c p = HASH_FIND c (key_bytes p) PTR_SIZE"

section \<open>Adding\<close>

text \<open>Whether an allocation of a number of bytes succeeds is an argument.\<close>

type_synonym allocator = "nat \<Rightarrow> bool"

definition uthash_fatal :: ft_exit where
  "uthash_fatal = Exit (- 1) ''out of memory''"

text \<open>The sizes of the structures, in bytes.\<close>

abbreviation (input) TABLE_SIZE :: nat where "TABLE_SIZE \<equiv> 64"
abbreviation (input) BUCKET_SIZE :: nat where "BUCKET_SIZE \<equiv> 16"

definition empty_bucket :: UT_hash_bucket where
  "empty_bucket = \<lparr>hh_head = NULL, bkt_count = 0, expand_mult = 0\<rparr>"

definition HASH_MAKE_TABLE :: "allocator \<Rightarrow> addr \<Rightarrow> UT_hash_table exitable" where
  "HASH_MAKE_TABLE malloc head =
    (if \<not> malloc TABLE_SIZE then Inl uthash_fatal
     else if \<not> malloc (32 * BUCKET_SIZE) then Inl uthash_fatal
     else Inr \<lparr>buckets = replicate 32 empty_bucket, num_buckets = 32, log2_num_buckets = 5, num_items = 0, tbl_tail = Some head,
            ideal_chain_maxlen = 0, nonideal_items = 0, ineff_expands = 0, noexpand = 0\<rparr>)"

definition HASH_APPEND_LIST :: "addr \<Rightarrow> elements \<Rightarrow> UT_hash_table \<Rightarrow> (elements \<times> UT_hash_table) option" where
  "HASH_APPEND_LIST add m t = do {
     m \<leftarrow> store (Some add) (next_elt_update (\<lambda>_. NULL)) m;
     m \<leftarrow> store (Some add) (prev_elt_update (\<lambda>_. tbl_tail t)) m;
     m \<leftarrow> store (tbl_tail t) (next_elt_update (\<lambda>_. Some add)) m;
     Some (m, t\<lparr>tbl_tail := Some add\<rparr>) }"

text \<open>
  A division by zero traps. Moving the elements of the old buckets to new ones, twice as many. The first function moves the chain that begins with
  \<open>thh\<close>; the state is the memory, the new buckets and \<^verbatim>\<open>nonideal_items\<close>.
\<close>

definition div_or_trap :: "32 word \<Rightarrow> 32 word \<Rightarrow> 32 word option" where
  "div_or_trap a b = (if b = 0 then None else Some (a div b))"

type_synonym expansion = "elements \<times> UT_hash_bucket list \<times> 32 word"

partial_function (option) expand_chain :: "UT_hash_table \<Rightarrow> addr option \<Rightarrow> expansion \<Rightarrow> expansion option" where
  "expand_chain t thh st =
    (if thh = NULL then Some st
     else case st of (m, new_buckets, nonideal) \<Rightarrow> do {
       h \<leftarrow> deref m thh;
       let bkt = HASH_TO_BKT (hashv h) (num_buckets t * 2);
       newbkt \<leftarrow> bucket_at new_buckets bkt;
       let newbkt = newbkt\<lparr>bkt_count := bkt_count newbkt + 1\<rparr>;
       let over = bkt_count newbkt > ideal_chain_maxlen t;
       let nonideal = (if over then nonideal + 1 else nonideal);
       newbkt \<leftarrow> (if over then div_or_trap (bkt_count newbkt) (ideal_chain_maxlen t) \<bind> (\<lambda>q. Some (newbkt\<lparr>expand_mult := q\<rparr>)) else Some newbkt);
       m \<leftarrow> store thh (hh_prev_update (\<lambda>_. NULL)) m;
       m \<leftarrow> store thh (hh_next_update (\<lambda>_. hh_head newbkt)) m;
       m \<leftarrow> store_unless_null (hh_head newbkt) (hh_prev_update (\<lambda>_. thh)) m;
       expand_chain t (hh_next h) (m, new_buckets[bkt := newbkt\<lparr>hh_head := thh\<rparr>], nonideal) })"

fun expand_buckets :: "UT_hash_table \<Rightarrow> nat list \<Rightarrow> expansion \<Rightarrow> expansion option" where
  "expand_buckets t [] st = Some st"
| "expand_buckets t (i # is) st = do {
     b \<leftarrow> bucket_at (buckets t) i;
     st \<leftarrow> expand_chain t (hh_head b) st;
     expand_buckets t is st }"

definition HASH_EXPAND_BUCKETS :: "allocator \<Rightarrow> elements \<Rightarrow> UT_hash_table \<Rightarrow> (elements \<times> UT_hash_table) exitable option" where
  "HASH_EXPAND_BUCKETS malloc m t =
    (if \<not> malloc (2 * unat (num_buckets t) * BUCKET_SIZE) then Some (Inl uthash_fatal)
     else do {
       let t = t\<lparr>ideal_chain_maxlen := drop_bit (unat (log2_num_buckets t + 1)) (num_items t) +
                   (if num_items t AND (num_buckets t * 2 - 1) \<noteq> 0 then 1 else 0)\<rparr>;
       (m, new_buckets, nonideal) \<leftarrow>
         expand_buckets t [0..<unat (num_buckets t)] (m, replicate (2 * unat (num_buckets t)) empty_bucket, 0);
       let t = t\<lparr>nonideal_items := nonideal, num_buckets := num_buckets t * 2, log2_num_buckets := log2_num_buckets t + 1,
                 buckets := new_buckets\<rparr>;
       let ineff = (if nonideal > drop_bit 1 (num_items t) then ineff_expands t + 1 else 0);
       Some (Inr (m, t\<lparr>ineff_expands := ineff, noexpand := (if ineff > 1 then 1 else noexpand t)\<rparr>)) })"

definition HASH_ADD_TO_BKT :: "allocator \<Rightarrow> nat \<Rightarrow> addr \<Rightarrow> elements \<Rightarrow> UT_hash_table \<Rightarrow> (elements \<times> UT_hash_table) exitable option" where
  "HASH_ADD_TO_BKT malloc i add m t = do {
     b \<leftarrow> bucket_at (buckets t) i;
     let b = b\<lparr>bkt_count := bkt_count b + 1\<rparr>;
     m \<leftarrow> store (Some add) (hh_next_update (\<lambda>_. hh_head b)) m;
     m \<leftarrow> store (Some add) (hh_prev_update (\<lambda>_. NULL)) m;
     m \<leftarrow> store_unless_null (hh_head b) (hh_prev_update (\<lambda>_. Some add)) m;
     let b = b\<lparr>hh_head := Some add\<rparr>;
     let t = t\<lparr>buckets := (buckets t)[i := b]\<rparr>;
     if bkt_count b \<ge> (expand_mult b + 1) * 10 \<and> noexpand t = 0 then HASH_EXPAND_BUCKETS malloc m t else Some (Inr (m, t)) }"

definition HASH_ADD_TO_TABLE :: "allocator \<Rightarrow> 32 word \<Rightarrow> addr \<Rightarrow> elements \<Rightarrow> UT_hash_table \<Rightarrow> (elements \<times> UT_hash_table) exitable option" where
  "HASH_ADD_TO_TABLE malloc hashval add m t =
    (let t = t\<lparr>num_items := num_items t + 1\<rparr> in HASH_ADD_TO_BKT malloc (HASH_TO_BKT hashval (num_buckets t)) add m t)"

definition HASH_ADD_KEYPTR_BYHASHVALUE :: "allocator \<Rightarrow> 32 word \<Rightarrow> 32 word \<Rightarrow> addr \<Rightarrow> conds_state \<Rightarrow> conds_state exitable option" where
  "HASH_ADD_KEYPTR_BYHASHVALUE malloc keylen_in hashval add c = do {
     m \<leftarrow> store (Some add) (\<lambda>h. h\<lparr>hashv := hashval, hh_key := Some add, keylen := keylen_in\<rparr>) (elems c);
     r \<leftarrow> (if conds_head c = NULL then do {
              m \<leftarrow> store (Some add) (\<lambda>h. h\<lparr>next_elt := NULL, prev_elt := NULL\<rparr>) m;
              Some (exit_bind (HASH_MAKE_TABLE malloc add) (\<lambda>t. Inr (add, m, t))) }
            else do {
              head \<leftarrow> conds_head c;
              t \<leftarrow> head_tbl c;
              (m, t) \<leftarrow> HASH_APPEND_LIST add m t;
              Some (Inr (head, m, t)) });
     case r of
       Inl e \<Rightarrow> Some (Inl e)
     | Inr (head, m, t) \<Rightarrow> do {
         r \<leftarrow> HASH_ADD_TO_TABLE malloc hashval add m t;
         Some (exit_bind r (\<lambda>(m, t). Inr \<lparr>conds_head = Some head, conds_tbl = Some t, elems = m\<rparr>)) } }"

definition HASH_ADD_KEYPTR :: "allocator \<Rightarrow> 32 word \<Rightarrow> addr \<Rightarrow> conds_state \<Rightarrow> conds_state exitable option" where
  "HASH_ADD_KEYPTR malloc keylen_in add c = do {
     e \<leftarrow> elems c add;
     HASH_ADD_KEYPTR_BYHASHVALUE malloc keylen_in (HASH_JEN (key_bytes (ptr e))) add c }"

definition HASH_ADD_PTR :: "allocator \<Rightarrow> addr \<Rightarrow> conds_state \<Rightarrow> conds_state exitable option" where
  "HASH_ADD_PTR malloc add c = HASH_ADD_KEYPTR malloc PTR_SIZE add c"

section \<open>Deleting\<close>

definition HASH_DEL_IN_BKT :: "nat \<Rightarrow> addr \<Rightarrow> elements \<Rightarrow> UT_hash_table \<Rightarrow> (elements \<times> UT_hash_table) option" where
  "HASH_DEL_IN_BKT i del m t = do {
     b \<leftarrow> bucket_at (buckets t) i;
     let b = b\<lparr>bkt_count := bkt_count b - 1\<rparr>;
     h \<leftarrow> deref m (Some del);
     let b = (if hh_head b = Some del then b\<lparr>hh_head := hh_next h\<rparr> else b);
     m \<leftarrow> store_unless_null (hh_prev h) (hh_next_update (\<lambda>_. hh_next h)) m;
     m \<leftarrow> store_unless_null (hh_next h) (hh_prev_update (\<lambda>_. hh_prev h)) m;
     Some (m, t\<lparr>buckets := (buckets t)[i := b]\<rparr>) }"

definition HASH_DELETE_HH :: "addr \<Rightarrow> conds_state \<Rightarrow> conds_state option" where
  "HASH_DELETE_HH del c = do {
     h \<leftarrow> deref (elems c) (Some del);
     t \<leftarrow> head_tbl c;
     if prev_elt h = NULL \<and> next_elt h = NULL then Some (c\<lparr>conds_tbl := None, conds_head := NULL\<rparr>)
     else do {
       let t = (if tbl_tail t = Some del then t\<lparr>tbl_tail := prev_elt h\<rparr> else t);
       m \<leftarrow> store_unless_null (prev_elt h) (next_elt_update (\<lambda>_. next_elt h)) (elems c);
       let head = (if prev_elt h = NULL then next_elt h else conds_head c);
       m \<leftarrow> store_unless_null (next_elt h) (prev_elt_update (\<lambda>_. prev_elt h)) m;
       (m, t) \<leftarrow> HASH_DEL_IN_BKT (HASH_TO_BKT (hashv h) (num_buckets t)) del m t;
       Some \<lparr>conds_head = head, conds_tbl = Some (t\<lparr>num_items := num_items t - 1\<rparr>), elems = m\<rparr> } }"

declare find_in_chain.simps [code] expand_chain.simps [code]

section \<open>Checking\<close>

text \<open>
  \<^verbatim>\<open>HASH_FSCK\<close>, which checks the integrity of the table after every change when \<^verbatim>\<open>HASH_DEBUG\<close> is defined. \<open>Some None\<close> is a
  report by \<^verbatim>\<open>HASH_OOPS\<close>; otherwise a walk gives the number of elements.
\<close>

partial_function (option) fsck_chain :: "elements \<Rightarrow> addr option \<Rightarrow> addr option \<Rightarrow> 32 word \<Rightarrow> 32 word option option" where
  "fsck_chain m prev thh n =
    (if thh = NULL then Some (Some n)
     else do {
       h \<leftarrow> deref m thh;
       if prev \<noteq> hh_prev h then Some None else fsck_chain m thh (hh_next h) (n + 1) })"

fun fsck_buckets :: "elements \<Rightarrow> UT_hash_table \<Rightarrow> nat list \<Rightarrow> 32 word \<Rightarrow> 32 word option option" where
  "fsck_buckets m t [] n = Some (Some n)"
| "fsck_buckets m t (i # is) n = do {
     b \<leftarrow> bucket_at (buckets t) i;
     r \<leftarrow> fsck_chain m NULL (hh_head b) 0;
     case r of
       None \<Rightarrow> Some None
     | Some k \<Rightarrow> if bkt_count b \<noteq> k then Some None else fsck_buckets m t is (n + k) }"

partial_function (option) fsck_list :: "elements \<Rightarrow> addr option \<Rightarrow> addr option \<Rightarrow> 32 word \<Rightarrow> 32 word option option" where
  "fsck_list m prev thh n =
    (if thh = NULL then Some (Some n)
     else do {
       h \<leftarrow> deref m thh;
       if prev \<noteq> prev_elt h then Some None else fsck_list m thh (next_elt h) (n + 1) })"

declare fsck_chain.simps [code] fsck_list.simps [code]

definition HASH_FSCK :: "conds_state \<Rightarrow> bool option" where
  "HASH_FSCK c =
    (if conds_head c = NULL then Some True
     else do {
       t \<leftarrow> head_tbl c;
       r \<leftarrow> fsck_buckets (elems c) t [0..<unat (num_buckets t)] 0;
       if r \<noteq> Some (num_items t) then Some False
       else do {
         r \<leftarrow> fsck_list (elems c) NULL (conds_head c) 0;
         Some (r = Some (num_items t)) } })"

end
