(* ===== verification/Uthash_Correct.thy ===== *)
theory Uthash_Correct
  imports Uthash
begin

text \<open>
  Correctness of the hash table of the theory \<open>Uthash\<close>. Memory is described by its fields, as functions of addresses; doubly linked
  lists of addresses (\<open>linked\<close>) describe the order of the elements and the chains of the buckets. The predicate \<open>holds\<close> says
  that a state of memory represents a list of elements; every operation is shown to preserve it, with the expansion of the
  buckets, and not to leave the allocated memory. The locale \<open>keyed_elements\<close> is the interface that the rest of the library
  uses: a table refines a finite map from the addresses of elements to their keys.
\<close>

section \<open>Lemmas on memory\<close>

text \<open>A field of the handles as a function of the address, and the keys.\<close>

definition fld :: "(UT_hash_handle \<Rightarrow> 'a) \<Rightarrow> elements \<Rightarrow> addr \<Rightarrow> 'a" where
  "fld g m a = g (hh (the (m a)))"

definition key_of :: "elements \<Rightarrow> addr \<Rightarrow> 64 word" where
  "key_of m a = ptr (the (m a))"

lemma deref_Some [simp]: "a \<in> dom m \<Longrightarrow> deref m (Some a) = Some (hh (the (m a)))"
  by (auto simp: deref_def)

lemma store_Some [simp]: "a \<in> dom m \<Longrightarrow> store (Some a) f m = Some (with_handle f a m)"
  by (auto simp: store_def)

lemma store_unless_null_simps [simp]:
  "store_unless_null None f m = Some m" "store_unless_null (Some a) f m = store (Some a) f m"
  by (simp_all add: store_unless_null_def)

lemma dom_with_handle [simp]: "dom (with_handle f a m) = dom m"
  by (auto simp: with_handle_def split: option.splits)

lemma key_of_with_handle [simp]: "key_of (with_handle f a m) = key_of m"
  by (auto simp: with_handle_def key_of_def fun_eq_iff split: option.splits)

lemma fld_with_handle_other [simp]: "(\<And>h. g (f h) = g h) \<Longrightarrow> fld g (with_handle f a m) = fld g m"
  by (auto simp: with_handle_def fld_def fun_eq_iff split: option.splits)

lemma fld_with_handle_same [simp]:
  assumes "a \<in> dom m"
  shows "fld next_elt (with_handle (next_elt_update (\<lambda>_. v)) a m) = (fld next_elt m)(a := v)"
    "fld prev_elt (with_handle (prev_elt_update (\<lambda>_. v)) a m) = (fld prev_elt m)(a := v)"
    "fld hh_next (with_handle (hh_next_update (\<lambda>_. v)) a m) = (fld hh_next m)(a := v)"
    "fld hh_prev (with_handle (hh_prev_update (\<lambda>_. v)) a m) = (fld hh_prev m)(a := v)"
  using assms by (auto simp: with_handle_def fld_def fun_eq_iff)

lemma fld_deref: "g (hh (the (m a))) = fld g m a"
  by (simp add: fld_def)

lemmas handle_fields = fld_deref [of prev_elt] fld_deref [of next_elt] fld_deref [of hh_prev] fld_deref [of hh_next]
  fld_deref [of hashv] fld_deref [of keylen] fld_deref [of hh_key]

section \<open>Doubly linked lists\<close>

text \<open>
  A list of addresses linked by two fields, between an address before and one behind.
\<close>

definition first_of :: "'a list \<Rightarrow> 'a option \<Rightarrow> 'a option" where
  "first_of xs q = (case xs of [] \<Rightarrow> q | x # _ \<Rightarrow> Some x)"

definition last_of :: "'a list \<Rightarrow> 'a option \<Rightarrow> 'a option" where
  "last_of xs p = (if xs = [] then p else Some (last xs))"

fun linked :: "('a \<Rightarrow> 'a option) \<Rightarrow> ('a \<Rightarrow> 'a option) \<Rightarrow> 'a option \<Rightarrow> 'a list \<Rightarrow> 'a option \<Rightarrow> bool" where
  "linked nx pv p [] q \<longleftrightarrow> True"
| "linked nx pv p (x # xs) q \<longleftrightarrow> pv x = p \<and> nx x = first_of xs q \<and> linked nx pv (Some x) xs q"

lemma first_of_simps [simp]: "first_of [] q = q" "first_of (x # xs) q = Some x" "first_of (xs @ ys) q = first_of xs (first_of ys q)"
  by (simp_all add: first_of_def split: list.splits)

lemma last_of_simps [simp]: "last_of [] p = p" "last_of (x # xs) p = last_of xs (Some x)" "last_of (xs @ ys) p = last_of ys (last_of xs p)"
  by (auto simp: last_of_def)

lemma first_of_None [simp]: "first_of xs None = None \<longleftrightarrow> xs = []"
  by (cases xs) simp_all

lemma last_of_None [simp]: "last_of xs None = None \<longleftrightarrow> xs = []"
  by (simp add: last_of_def)

lemma last_of_Some [simp]: "last_of xs (Some x) \<noteq> None"
  by (simp add: last_of_def)

lemma first_of_None' [simp]: "None = first_of xs None \<longleftrightarrow> xs = []"
  by (cases xs) simp_all

lemma first_in_set: "first_of xs None = Some a \<Longrightarrow> a \<in> set xs"
  by (cases xs) simp_all

lemma last_in_set_of: "last_of xs None = Some a \<Longrightarrow> a \<in> set xs"
  by (auto simp: last_of_def split: if_splits)

lemma linked_append [simp]:
  "linked nx pv p (xs @ ys) q \<longleftrightarrow> linked nx pv p xs (first_of ys q) \<and> linked nx pv (last_of xs p) ys q"
  by (induction xs arbitrary: p) auto

lemma linked_upd [simp]:
  "a \<notin> set xs \<Longrightarrow> linked (nx(a := v)) pv p xs q = linked nx pv p xs q"
  "a \<notin> set xs \<Longrightarrow> linked nx (pv(a := v)) p xs q = linked nx pv p xs q"
  by (induction xs arbitrary: p) auto

lemma linked_cong:
  "(\<And>a. a \<in> set xs \<Longrightarrow> nx a = nx' a \<and> pv a = pv' a) \<Longrightarrow> linked nx pv p xs q = linked nx' pv' p xs q"
  by (induction xs arbitrary: p) auto

text \<open>Changing the ends.\<close>

lemma linked_set_end: "linked nx pv p (xs @ [x]) q \<Longrightarrow> x \<notin> set xs \<Longrightarrow> linked (nx(x := q')) pv p (xs @ [x]) q'"
  by simp

lemma linked_set_start: "linked nx pv p (x # xs) q \<Longrightarrow> x \<notin> set xs \<Longrightarrow> linked nx (pv(x := p')) p' (x # xs) q"
  by simp

text \<open>An element in front, an element at the end, and unlinking an element.\<close>

definition link_from :: "'a option \<Rightarrow> 'a option \<Rightarrow> ('a \<Rightarrow> 'a option) \<Rightarrow> 'a \<Rightarrow> 'a option" where
  "link_from p v nx = (case p of None \<Rightarrow> nx | Some a \<Rightarrow> nx(a := v))"

lemma link_from_simps [simp]: "link_from None v nx = nx" "link_from (Some a) v nx = nx(a := v)"
  by (simp_all add: link_from_def)

lemma link_from_other: "p \<noteq> Some a \<Longrightarrow> link_from p v nx a = nx a"
  by (cases p) auto

lemma linked_link_from [simp]:
  "p \<notin> Some ` set xs \<Longrightarrow> linked (link_from p v nx) pv p' xs q = linked nx pv p' xs q"
  "p \<notin> Some ` set xs \<Longrightarrow> linked nx (link_from p v pv) p' xs q = linked nx pv p' xs q"
  by (cases p, simp, simp add: image_iff)+

lemma linked_push:
  assumes "linked nx pv None xs None" "a \<notin> set xs" "distinct xs"
  shows "linked (nx(a := first_of xs None)) (link_from (first_of xs None) (Some a) (pv(a := None))) None (a # xs) None"
  using assms by (cases xs) auto

lemma linked_snoc:
  assumes "linked nx pv None xs None" "a \<notin> set xs" "distinct xs" "xs \<noteq> []"
  shows "linked (nx(a := None, last xs := Some a)) (pv(a := Some (last xs))) None (xs @ [a]) None"
  using assms by (cases xs rule: rev_cases) auto

lemma linked_unlink:
  assumes "linked nx pv None (xs @ a # ys) None" "distinct (xs @ a # ys)"
  shows "linked (link_from (pv a) (nx a) nx) (link_from (nx a) (pv a) pv) None (xs @ ys) None"
    "pv a = last_of xs None" "nx a = first_of ys None"
proof -
  show "pv a = last_of xs None" "nx a = first_of ys None" using assms by auto
  with assms show "linked (link_from (pv a) (nx a) nx) (link_from (nx a) (pv a) pv) None (xs @ ys) None"
    by (cases xs rule: rev_cases; cases ys) auto
qed

text \<open>Stores through a pointer that may be null.\<close>

definition with_link :: "(UT_hash_handle \<Rightarrow> UT_hash_handle) \<Rightarrow> addr option \<Rightarrow> elements \<Rightarrow> elements" where
  "with_link f p m = (case p of None \<Rightarrow> m | Some a \<Rightarrow> with_handle f a m)"

lemma store_with_link: "set_option p \<subseteq> dom m \<Longrightarrow> store_unless_null p f m = Some (with_link f p m)"
  by (cases p) (auto simp: with_link_def)

lemma with_link_frame [simp]:
  "dom (with_link f p m) = dom m" "key_of (with_link f p m) = key_of m"
  "(\<And>h. g (f h) = g h) \<Longrightarrow> fld g (with_link f p m) = fld g m"
  by (simp_all add: with_link_def split: option.splits)

lemma fld_with_link [simp]:
  assumes "set_option p \<subseteq> dom m"
  shows "fld next_elt (with_link (next_elt_update (\<lambda>_. v)) p m) = link_from p v (fld next_elt m)"
    "fld prev_elt (with_link (prev_elt_update (\<lambda>_. v)) p m) = link_from p v (fld prev_elt m)"
    "fld hh_next (with_link (hh_next_update (\<lambda>_. v)) p m) = link_from p v (fld hh_next m)"
    "fld hh_prev (with_link (hh_prev_update (\<lambda>_. v)) p m) = link_from p v (fld hh_prev m)"
  using assms by (cases p; simp add: with_link_def)+

section \<open>Buckets\<close>

definition bucket_ok :: "elements \<Rightarrow> UT_hash_bucket \<Rightarrow> addr list \<Rightarrow> bool" where
  "bucket_ok m b xs \<longleftrightarrow> hh_head b = first_of xs None \<and> bkt_count b = of_nat (length xs) \<and>
     linked (fld hh_next m) (fld hh_prev m) None xs None \<and> distinct xs"

abbreviation place :: "elements \<Rightarrow> nat \<Rightarrow> addr \<Rightarrow> nat" where
  "place m k a \<equiv> HASH_TO_BKT (fld hashv m a) (2 ^ k)"

text \<open>The chains \<open>ch\<close> of \<open>2 ^ k\<close> buckets hold the elements of a set, each in the bucket of its hash value.\<close>

definition buckets_ok :: "elements \<Rightarrow> UT_hash_bucket list \<Rightarrow> nat \<Rightarrow> (nat \<Rightarrow> addr list) \<Rightarrow> addr set \<Rightarrow> bool" where
  "buckets_ok m bs k ch A \<longleftrightarrow> length bs = 2 ^ k \<and>
     (\<forall>i < 2 ^ k. bucket_ok m (bs ! i) (ch i) \<and> set (ch i) = {a \<in> A. place m k a = i})"

lemma HASH_TO_BKT_mask: "HASH_TO_BKT h (2 ^ k) = unat (take_bit k h)"
  by (simp add: HASH_TO_BKT_def take_bit_eq_mask mask_eq_exp_minus_1)

lemma HASH_TO_BKT_less: "HASH_TO_BKT h (2 ^ k) < 2 ^ k"
proof -
  have "unat (take_bit k h) = take_bit k (unat h)" by (rule unsigned_take_bit_eq)
  then show ?thesis by (simp add: HASH_TO_BKT_mask)
qed

lemma bucket_at_less [simp]: "i < length bs \<Longrightarrow> bucket_at bs i = Some (bs ! i)"
  by (simp add: bucket_at_def)

lemma bucket_ok_frame:
  assumes "bucket_ok m b xs" "\<And>a. a \<in> set xs \<Longrightarrow> fld hh_next m' a = fld hh_next m a \<and> fld hh_prev m' a = fld hh_prev m a"
  shows "bucket_ok m' b xs"
  using assms linked_cong [of xs "fld hh_next m'" "fld hh_next m" "fld hh_prev m'" "fld hh_prev m"] by (simp add: bucket_ok_def)

lemma buckets_ok_chain:
  assumes "buckets_ok m bs k ch A" "i < 2 ^ k"
  shows "bucket_ok m (bs ! i) (ch i)" "set (ch i) = {a \<in> A. place m k a = i}"
  using assms by (auto simp: buckets_ok_def)

definition same_chains :: "elements \<Rightarrow> elements \<Rightarrow> addr set \<Rightarrow> bool" where
  "same_chains m m' A \<longleftrightarrow> (\<forall>a\<in>A. fld hashv m' a = fld hashv m a \<and> fld hh_next m' a = fld hh_next m a \<and> fld hh_prev m' a = fld hh_prev m a)"

lemma buckets_ok_frame:
  assumes "buckets_ok m bs k ch A" "same_chains m m' A"
  shows "buckets_ok m' bs k ch A"
proof -
  have "bucket_ok m' (bs ! i) (ch i)" if "i < 2 ^ k" for i
    by (rule bucket_ok_frame [OF buckets_ok_chain(1) [OF assms(1) that]])
      (use buckets_ok_chain(2) [OF assms(1) that] assms(2) in \<open>simp add: same_chains_def\<close>)
  moreover have "{a \<in> A. place m' k a = i} = {a \<in> A. place m k a = i}" for i using assms(2) by (auto simp: same_chains_def)
  ultimately show ?thesis using assms(1) by (simp add: buckets_ok_def)
qed

text \<open>Putting an element in front of its chain.\<close>

lemma bucket_push:
  assumes ok: "buckets_ok m bs k ch A" and a: "a \<notin> A" "i = place m k a"
    and m': "fld hh_next m' = (fld hh_next m)(a := hh_head (bs ! i))"
      "fld hh_prev m' = link_from (hh_head (bs ! i)) (Some a) ((fld hh_prev m)(a := None))" "fld hashv m' = fld hashv m"
    and b': "hh_head b' = Some a" "bkt_count b' = bkt_count (bs ! i) + 1"
  shows "buckets_ok m' (bs[i := b']) k (ch(i := a # ch i)) (insert a A)"
proof -
  have i: "i < 2 ^ k" "length bs = 2 ^ k" using HASH_TO_BKT_less ok a(2) by (auto simp: buckets_ok_def)
  note c = buckets_ok_chain [OF ok i(1)]
  then have ai: "a \<notin> set (ch i)" and hd: "hh_head (bs ! i) = first_of (ch i) None" using a(1) by (auto simp: bucket_ok_def)
  have "linked (fld hh_next m') (fld hh_prev m') None (a # ch i) None"
    unfolding m' hd by (rule linked_push) (use c(1) ai in \<open>simp_all add: bucket_ok_def\<close>)
  then have "bucket_ok m' b' (a # ch i)" using c(1) ai b' unfolding bucket_ok_def by simp
  moreover have "bucket_ok m' (bs ! j) (ch j)" if "j < 2 ^ k" "j \<noteq> i" for j
  proof (rule bucket_ok_frame [OF buckets_ok_chain(1) [OF ok that(1)]])
    fix x assume "x \<in> set (ch j)"
    then have "x \<in> A" "place m k x = j" using buckets_ok_chain(2) [OF ok that(1)] by auto
    then have "x \<noteq> a" "hh_head (bs ! i) \<noteq> Some x" using that(2) a(1) c(2) hd first_in_set [of "ch i" x] by auto
    then show "fld hh_next m' x = fld hh_next m x \<and> fld hh_prev m' x = fld hh_prev m x" by (simp add: m' link_from_other)
  qed
  ultimately show ?thesis
    using i ok a(2) m'(3) by (auto simp: buckets_ok_def nth_list_update)
qed

text \<open>Taking an element out of its chain.\<close>

lemma bucket_split:
  assumes "buckets_ok m bs k ch A" "a \<in> A" "i = place m k a"
  obtains xs ys where "ch i = xs @ a # ys" "distinct (xs @ a # ys)" "linked (fld hh_next m) (fld hh_prev m) None (xs @ a # ys) None"
    "set xs \<union> set ys \<subseteq> A"
proof -
  have i: "i < 2 ^ k" using HASH_TO_BKT_less assms(3) by simp
  note c = buckets_ok_chain [OF assms(1) i]
  then have "a \<in> set (ch i)" using assms by simp
  then obtain xs ys where ch: "ch i = xs @ a # ys" by (meson split_list)
  then have "set xs \<union> set ys \<subseteq> A" using c(2) by auto
  with that [OF ch] c(1) ch show ?thesis by (simp add: bucket_ok_def)
qed

lemma bucket_neighbours:
  assumes "buckets_ok m bs k ch A" "a \<in> A"
  shows "set_option (fld hh_prev m a) \<subseteq> A" "set_option (fld hh_next m a) \<subseteq> A"
proof -
  obtain xs ys where s: "distinct (xs @ a # ys)" "linked (fld hh_next m) (fld hh_prev m) None (xs @ a # ys) None" "set xs \<union> set ys \<subseteq> A"
    using bucket_split [OF assms refl] .
  from linked_unlink(2,3) [OF s(2,1)] s(3) show "set_option (fld hh_prev m a) \<subseteq> A" "set_option (fld hh_next m a) \<subseteq> A"
    by (auto dest: first_in_set last_in_set_of)
qed

lemma bucket_remove:
  assumes ok: "buckets_ok m bs k ch A" and a: "a \<in> A" "i = place m k a"
    and m': "fld hh_next m' = link_from (fld hh_prev m a) (fld hh_next m a) (fld hh_next m)"
      "fld hh_prev m' = link_from (fld hh_next m a) (fld hh_prev m a) (fld hh_prev m)" "fld hashv m' = fld hashv m"
    and b': "hh_head b' = (if hh_head (bs ! i) = Some a then fld hh_next m a else hh_head (bs ! i))" "bkt_count b' = bkt_count (bs ! i) - 1"
  shows "buckets_ok m' (bs[i := b']) k (ch(i := remove1 a (ch i))) (A - {a})"
proof -
  have i: "i < 2 ^ k" "length bs = 2 ^ k" using HASH_TO_BKT_less ok a(2) by (auto simp: buckets_ok_def)
  note c = buckets_ok_chain [OF ok i(1)]
  obtain xs ys where ch: "ch i = xs @ a # ys" and d: "distinct (xs @ a # ys)"
    and l: "linked (fld hh_next m) (fld hh_prev m) None (xs @ a # ys) None" using bucket_split [OF ok a] .
  have hd: "hh_head (bs ! i) = first_of (xs @ a # ys) None" and n: "bkt_count (bs ! i) = of_nat (length (xs @ a # ys))"
    using c(1) ch by (simp_all add: bucket_ok_def)
  note u = linked_unlink [OF l d]
  have r: "remove1 a (ch i) = xs @ ys" using d ch by (simp add: remove1_append)
  have "hh_head b' = first_of (xs @ ys) None" using b'(1) hd d u(3) by (cases xs) auto
  then have "bucket_ok m' b' (xs @ ys)" using u(1) d b'(2) n m' by (simp add: bucket_ok_def)
  moreover have "bucket_ok m' (bs ! j) (ch j)" if "j < 2 ^ k" "j \<noteq> i" for j
  proof (rule bucket_ok_frame [OF buckets_ok_chain(1) [OF ok that(1)]])
    fix x assume "x \<in> set (ch j)"
    then have "x \<notin> set (ch i)" using buckets_ok_chain(2) [OF ok that(1)] c(2) that(2) by auto
    then have "fld hh_prev m a \<noteq> Some x" "fld hh_next m a \<noteq> Some x"
      using ch u(2,3) by (auto dest: first_in_set last_in_set_of)
    then show "fld hh_next m' x = fld hh_next m x \<and> fld hh_prev m' x = fld hh_prev m x" by (simp add: m' link_from_other)
  qed
  moreover have "set (xs @ ys) = {x \<in> A - {a}. place m k x = i}" using c(2) ch d by auto
  ultimately show ?thesis
    using i ok a(2) m'(3) unfolding r by (auto simp: buckets_ok_def nth_list_update)
qed

section \<open>Expansion\<close>

text \<open>What operations on the buckets of a set of elements leave alone.\<close>

definition only_chains :: "elements \<Rightarrow> elements \<Rightarrow> addr set \<Rightarrow> bool" where
  "only_chains m m' A \<longleftrightarrow> dom m' = dom m \<and> key_of m' = key_of m \<and>
     fld next_elt m' = fld next_elt m \<and> fld prev_elt m' = fld prev_elt m \<and>
     fld hh_key m' = fld hh_key m \<and> fld keylen m' = fld keylen m \<and> fld hashv m' = fld hashv m \<and>
     (\<forall>a. a \<notin> A \<longrightarrow> fld hh_next m' a = fld hh_next m a \<and> fld hh_prev m' a = fld hh_prev m a)"

lemma only_chains_refl [simp]: "only_chains m m A"
  by (simp add: only_chains_def)

lemma only_chains_trans:
  assumes "only_chains m1 m2 A" "only_chains m2 m3 B" "A \<subseteq> C" "B \<subseteq> C"
  shows "only_chains m1 m3 C"
proof -
  have "fld hh_next m3 a = fld hh_next m1 a \<and> fld hh_prev m3 a = fld hh_prev m1 a" if "a \<notin> C" for a
  proof -
    have "a \<notin> A" "a \<notin> B" using that assms(3,4) by blast+
    then show ?thesis using assms(1,2) by (simp add: only_chains_def)
  qed
  then show ?thesis using assms(1,2) by (simp add: only_chains_def)
qed

text \<open>The three stores that put an element in front of a chain.\<close>

definition pushed :: "addr \<Rightarrow> addr option \<Rightarrow> elements \<Rightarrow> elements" where
  "pushed a p m = with_link (hh_prev_update (\<lambda>_. Some a)) p
     (with_handle (hh_next_update (\<lambda>_. p)) a (with_handle (hh_prev_update (\<lambda>_. NULL)) a m))"

lemma pushed_fields:
  assumes "a \<in> dom m" "set_option p \<subseteq> dom m"
  shows "fld hh_next (pushed a p m) = (fld hh_next m)(a := p)"
    "fld hh_prev (pushed a p m) = link_from p (Some a) ((fld hh_prev m)(a := None))"
    "only_chains m (pushed a p m) (insert a (set_option p))"
  using assms by (auto simp: pushed_def only_chains_def link_from_other)

lemma bucket_head_in:
  assumes "buckets_ok m bs k ch A" "i < 2 ^ k"
  shows "set_option (hh_head (bs ! i)) \<subseteq> A"
  using buckets_ok_chain [OF assms] by (auto simp: bucket_ok_def dest: first_in_set)

lemma bucket_pushed:
  assumes "buckets_ok m bs k ch A" "a \<notin> A" "i = place m k a" "a \<in> dom m" "A \<subseteq> dom m"
    and "hh_head b' = Some a" "bkt_count b' = bkt_count (bs ! i) + 1"
  shows "buckets_ok (pushed a (hh_head (bs ! i)) m) (bs[i := b']) k (ch(i := a # ch i)) (insert a A)"
    "only_chains m (pushed a (hh_head (bs ! i)) m) (insert a A)"
proof -
  have h: "set_option (hh_head (bs ! i)) \<subseteq> A" using bucket_head_in [OF assms(1)] assms(3) HASH_TO_BKT_less by simp
  then have d: "set_option (hh_head (bs ! i)) \<subseteq> dom m" using assms(5) by blast
  note f = pushed_fields [OF assms(4) d]
  show "buckets_ok (pushed a (hh_head (bs ! i)) m) (bs[i := b']) k (ch(i := a # ch i)) (insert a A)"
    by (rule bucket_push [OF assms(1-3) f(1,2) _ assms(6,7)]) (use f(3) in \<open>simp add: only_chains_def\<close>)
  show "only_chains m (pushed a (hh_head (bs ! i)) m) (insert a A)"
    using h by (intro only_chains_trans [OF f(3) only_chains_refl]) auto
qed

lemma expand_chain_ok:
  assumes "linked (fld hh_next m) (fld hh_prev m) p xs None" "distinct xs" "set xs \<subseteq> dom m" "set xs \<inter> A = {}" "A \<subseteq> dom m"
    and "buckets_ok m nb (Suc k) ch A" "num_buckets t = 2 ^ k" "ideal_chain_maxlen t \<noteq> 0"
  shows "\<exists>m' nb' n' ch'. expand_chain t (first_of xs None) (m, nb, n) = Some (m', nb', n') \<and>
    buckets_ok m' nb' (Suc k) ch' (A \<union> set xs) \<and> only_chains m m' (A \<union> set xs)"
  using assms
proof (induction xs arbitrary: m nb n ch A p)
  case Nil
  then show ?case by (auto simp: expand_chain.simps)
next
  case (Cons a xs)
  let ?i = "place m (Suc k) a"
  let ?b = "nb ! ?i"
  let ?over = "bkt_count ?b + 1 > ideal_chain_maxlen t"
  define b' where "b' = (if ?over then ?b\<lparr>bkt_count := bkt_count ?b + 1, expand_mult := (bkt_count ?b + 1) div ideal_chain_maxlen t\<rparr>
    else ?b\<lparr>bkt_count := bkt_count ?b + 1\<rparr>)\<lparr>hh_head := Some a\<rparr>"
  let ?m = "pushed a (hh_head ?b) m" and ?nb = "nb[?i := b']"
  have i: "?i < length nb" "?i < 2 ^ Suc k" using Cons.prems(6) HASH_TO_BKT_less [of _ "Suc k"] by (simp_all add: buckets_ok_def)
  have a: "a \<in> dom m" "a \<notin> A" using Cons.prems(3,4) by auto
  have hd: "set_option (hh_head ?b) \<subseteq> dom m" using bucket_head_in [OF Cons.prems(6) i(2)] Cons.prems(5) by blast
  have push: "buckets_ok ?m ?nb (Suc k) (ch(?i := a # ch ?i)) (insert a A)" "only_chains m ?m (insert a A)"
    using bucket_pushed [OF Cons.prems(6) a(2) refl a(1) Cons.prems(5), of b'] by (simp_all add: b'_def)
  have frame: "fld hh_next ?m x = fld hh_next m x \<and> fld hh_prev ?m x = fld hh_prev m x" if "x \<in> set xs" for x
    using push(2) that Cons.prems(2,4) by (auto simp: only_chains_def)
  have l: "linked (fld hh_next ?m) (fld hh_prev ?m) (Some a) xs None"
    using Cons.prems(1) frame by (simp cong: linked_cong)
  have nx: "hh_next (hh (the (m a))) = first_of xs None" using Cons.prems(1) by (simp add: fld_def)
  define n' where "n' = (if ?over then n + 1 else n)"
  have fh: "hashv (hh (the (m a))) = fld hashv m a" "num_buckets t * 2 = 2 ^ Suc k" using Cons.prems(7) by (simp_all add: fld_def)
  have step: "expand_chain t (Some a) (m, nb, n) = expand_chain t (first_of xs None) (?m, ?nb, n')"
    unfolding expand_chain.simps [of t "Some a"] b'_def n'_def pushed_def
    using a(1) hd i(1) Cons.prems(8) by (cases ?over) (simp_all add: Let_def div_or_trap_def fh nx store_with_link del: power_Suc)
  have d: "distinct xs" "set xs \<subseteq> dom ?m" "set xs \<inter> insert a A = {}" "insert a A \<subseteq> dom ?m"
    using push(2) a Cons.prems(2-5) by (auto simp: only_chains_def)
  from Cons.IH [OF l d push(1) Cons.prems(7,8), of n']
  obtain m' nb' n'' ch' where ih: "expand_chain t (first_of xs None) (?m, ?nb, n') = Some (m', nb', n'')"
    "buckets_ok m' nb' (Suc k) ch' (insert a A \<union> set xs)" "only_chains ?m m' (insert a A \<union> set xs)" by blast
  have "only_chains m m' (A \<union> set (a # xs))" by (rule only_chains_trans [OF push(2) ih(3)]) auto
  with ih(1,2) step show ?case by auto
qed

lemma expand_buckets_ok:
  assumes "\<And>i. i \<in> set is \<Longrightarrow> i < length (buckets t) \<and> bucket_ok m (buckets t ! i) (old i) \<and> set (old i) \<subseteq> dom m \<and> set (old i) \<inter> A = {}"
    and "\<And>i j. i \<in> set is \<Longrightarrow> j \<in> set is \<Longrightarrow> i \<noteq> j \<Longrightarrow> set (old i) \<inter> set (old j) = {}"
    and "distinct is" "A \<subseteq> dom m" "buckets_ok m nb (Suc k) ch A" "num_buckets t = 2 ^ k" "ideal_chain_maxlen t \<noteq> 0"
  shows "\<exists>m' nb' n' ch'. expand_buckets t is (m, nb, n) = Some (m', nb', n') \<and>
    buckets_ok m' nb' (Suc k) ch' (A \<union> (\<Union>i\<in>set is. set (old i))) \<and> only_chains m m' (A \<union> (\<Union>i\<in>set is. set (old i)))"
  using assms
proof (induction "is" arbitrary: m nb n ch A)
  case Nil
  then show ?case by auto
next
  case (Cons i "is")
  have i: "i < length (buckets t)" "bucket_ok m (buckets t ! i) (old i)" "set (old i) \<subseteq> dom m" "set (old i) \<inter> A = {}"
    using Cons.prems(1) [of i] by auto
  have l: "linked (fld hh_next m) (fld hh_prev m) None (old i) None" "distinct (old i)" "hh_head (buckets t ! i) = first_of (old i) None"
    using i(2) by (simp_all add: bucket_ok_def)
  from expand_chain_ok [OF l(1,2) i(3,4) Cons.prems(4-7), of n]
  obtain m1 nb1 n1 ch1 where e: "expand_chain t (first_of (old i) None) (m, nb, n) = Some (m1, nb1, n1)"
    "buckets_ok m1 nb1 (Suc k) ch1 (A \<union> set (old i))" "only_chains m m1 (A \<union> set (old i))" by blast
  let ?A = "A \<union> set (old i)"
  have dom: "dom m1 = dom m" using e(3) by (simp add: only_chains_def)
  have rest: "j < length (buckets t) \<and> bucket_ok m1 (buckets t ! j) (old j) \<and> set (old j) \<subseteq> dom m1 \<and> set (old j) \<inter> ?A = {}" if "j \<in> set is" for j
  proof -
    have j: "j < length (buckets t)" "bucket_ok m (buckets t ! j) (old j)" "set (old j) \<subseteq> dom m" "set (old j) \<inter> A = {}"
      using Cons.prems(1) [of j] that by auto
    have dis: "set (old j) \<inter> ?A = {}" using Cons.prems(2) [of j i] Cons.prems(3) that j(4) by auto
    have "bucket_ok m1 (buckets t ! j) (old j)"
      by (rule bucket_ok_frame [OF j(2)]) (use e(3) dis in \<open>auto simp: only_chains_def\<close>)
    with j dis dom show ?thesis by simp
  qed
  have "distinct is" "?A \<subseteq> dom m1" using Cons.prems(3,4) i(3) dom by auto
  from Cons.IH [OF rest _ this e(2) Cons.prems(6,7), of n1] Cons.prems(2)
  obtain m' nb' n' ch' where r: "expand_buckets t is (m1, nb1, n1) = Some (m', nb', n')"
    "buckets_ok m' nb' (Suc k) ch' (?A \<union> (\<Union>j\<in>set is. set (old j)))" "only_chains m1 m' (?A \<union> (\<Union>j\<in>set is. set (old j)))" by auto
  have "?A \<union> (\<Union>j\<in>set is. set (old j)) = A \<union> (\<Union>j\<in>set (i # is). set (old j))" by auto
  moreover have "only_chains m m' (A \<union> (\<Union>j\<in>set (i # is). set (old j)))" by (rule only_chains_trans [OF e(3) r(3)]) auto
  moreover have "expand_buckets t (i # is) (m, nb, n) = Some (m', nb', n')" using i(1) l(3) e(1) r(1) by simp
  ultimately show ?case using r(2) by metis
qed

definition table_ok :: "elements \<Rightarrow> UT_hash_table \<Rightarrow> addr set \<Rightarrow> bool" where
  "table_ok m t A \<longleftrightarrow> (\<exists>k ch. k < 32 \<and> num_buckets t = 2 ^ k \<and> log2_num_buckets t = of_nat k \<and> buckets_ok m (buckets t) k ch A)"

text \<open>Allocations are bounded: there is no block of 64 gigabytes.\<close>

definition bounded_memory :: "allocator \<Rightarrow> bool" where
  "bounded_memory malloc \<longleftrightarrow> (\<forall>n \<ge> 2 ^ 36. \<not> malloc n)"

lemma empty_buckets_ok: "buckets_ok m (replicate (2 ^ k) empty_bucket) k (\<lambda>_. []) {}"
  by (simp add: buckets_ok_def bucket_ok_def empty_bucket_def)

lemma unat_small: "n < 2 ^ 32 \<Longrightarrow> unat (of_nat n :: 32 word) = n"
  by (subst unat_of_nat) (simp add: take_bit_eq_mod)

lemma unat_power2: "k < 32 \<Longrightarrow> unat (2 ^ k :: 32 word) = 2 ^ k"
  using unat_small [of "2 ^ k"] power_strict_increasing [of k 32 "2::nat"] by simp

text \<open>The ideal length of a chain is not zero when there are elements.\<close>

lemma ideal_length_pos:
  fixes n :: "32 word"
  assumes "n \<noteq> 0" "0 < k" "k < 32"
  shows "drop_bit k n + (if n AND (2 ^ k - 1) \<noteq> 0 then 1 else 0) \<noteq> 0"
proof (cases "n AND (2 ^ k - 1) = 0")
  case True
  then have "take_bit k n = 0" by (simp add: take_bit_eq_mask mask_eq_exp_minus_1)
  then have "push_bit k (drop_bit k n) = n" using bits_ident [of k n] by simp
  then show ?thesis using True assms(1) by auto
next
  case False
  have "\<not> bit (drop_bit k n) 31" using assms(2) by (auto simp: bit_drop_bit_eq dest: bit_imp_le_length)
  moreover have "bit (- 1 :: 32 word) 31" by simp
  ultimately have "drop_bit k n \<noteq> - 1" by metis
  then show ?thesis using False by (simp add: add_eq_0_iff2)
qed

lemma expand_ok:
  assumes "table_ok m t A" "A \<subseteq> dom m" "bounded_memory malloc" "num_items t \<noteq> 0"
  shows "(HASH_EXPAND_BUCKETS malloc m t = Some (Inl uthash_fatal) \<and> \<not> malloc (2 * unat (num_buckets t) * BUCKET_SIZE)) \<or>
    (\<exists>m' t'. HASH_EXPAND_BUCKETS malloc m t = Some (Inr (m', t')) \<and> table_ok m' t' A \<and> only_chains m m' A \<and>
       num_items t' = num_items t \<and> tbl_tail t' = tbl_tail t)"
proof (cases "malloc (2 * unat (num_buckets t) * BUCKET_SIZE)")
  case True
  from assms(1) obtain k ch where k: "k < 32" "num_buckets t = 2 ^ k" "log2_num_buckets t = of_nat k" and ok: "buckets_ok m (buckets t) k ch A"
    by (auto simp: table_ok_def)
  have n: "unat (num_buckets t) = 2 ^ k" using k by (simp add: unat_power2)
  have "k \<noteq> 31" using True assms(3) n by (auto simp: bounded_memory_def)
  then have k': "Suc k < 32" using k(1) by simp
  define t1 where "t1 = t\<lparr>ideal_chain_maxlen := drop_bit (unat (log2_num_buckets t + 1)) (num_items t) +
    (if num_items t AND (num_buckets t * 2 - 1) \<noteq> 0 then 1 else 0)\<rparr>"
  have t1: "buckets t1 = buckets t" "num_buckets t1 = 2 ^ k" "log2_num_buckets t1 = of_nat k" "num_items t1 = num_items t" "tbl_tail t1 = tbl_tail t"
    using k by (simp_all add: t1_def)
  have "unat (of_nat k + 1 :: 32 word) = Suc k" using unat_small [of "Suc k"] k' by (simp add: add.commute)
  then have t1': "ideal_chain_maxlen t1 \<noteq> 0"
    using ideal_length_pos [OF assms(4), of "Suc k"] k k' by (simp add: t1_def mult.commute)
  have c1: "i < length (buckets t1) \<and> bucket_ok m (buckets t1 ! i) (ch i) \<and> set (ch i) \<subseteq> dom m \<and> set (ch i) \<inter> {} = {}" if "i \<in> set [0..<2 ^ k]" for i
    using buckets_ok_chain [OF ok, of i] that assms(2) ok by (auto simp: t1 buckets_ok_def)
  have c2: "set (ch i) \<inter> set (ch j) = {}" if "i \<in> set [0..<2 ^ k]" "j \<in> set [0..<2 ^ k]" "i \<noteq> j" for i j
    using buckets_ok_chain(2) [OF ok, of i] buckets_ok_chain(2) [OF ok, of j] that by auto
  have all: "(\<Union>i\<in>set [0..<2 ^ k]. set (ch i)) = A"
    using buckets_ok_chain(2) [OF ok] HASH_TO_BKT_less [of _ k] by auto
  have "buckets_ok m (replicate (2 * 2 ^ k) empty_bucket) (Suc k) (\<lambda>_. []) {}" using empty_buckets_ok [of m "Suc k"] by simp
  from expand_buckets_ok [of "[0..<2 ^ k]" t1 m ch "{}", OF c1 c2 _ _ this t1(2) t1', where n = 0]
  obtain m' nb' n' ch' where e: "expand_buckets t1 [0..<2 ^ k] (m, replicate (2 * 2 ^ k) empty_bucket, 0) = Some (m', nb', n')"
    "buckets_ok m' nb' (Suc k) ch' A" "only_chains m m' A" unfolding all by auto
  let ?r = "HASH_EXPAND_BUCKETS malloc m t"
  obtain t' where r: "?r = Some (Inr (m', t'))" and t': "num_buckets t' = 2 ^ k * 2" "log2_num_buckets t' = of_nat k + 1"
    "buckets t' = nb'" "num_items t' = num_items t" "tbl_tail t' = tbl_tail t"
    using True e(1) n unfolding HASH_EXPAND_BUCKETS_def t1_def [symmetric] by (simp add: Let_def t1 unat_power2 [OF k(1)])
  have "table_ok m' t' A" unfolding table_ok_def using k' t' e(2) by (intro exI [of _ "Suc k"]) (auto simp: mult.commute add.commute)
  then show ?thesis using r t' e(3) by blast
qed (simp add: HASH_EXPAND_BUCKETS_def)

section \<open>The table\<close>

definition element_ok :: "elements \<Rightarrow> addr \<Rightarrow> bool" where
  "element_ok m a \<longleftrightarrow> fld hh_key m a = Some a \<and> fld keylen m a = PTR_SIZE \<and> fld hashv m a = HASH_JEN (key_bytes (key_of m a))"

text \<open>The table holds a list of elements, in the order in which they were added.\<close>

definition holds :: "conds_state \<Rightarrow> addr list \<Rightarrow> bool" where
  "holds c xs \<longleftrightarrow> conds_head c = first_of xs None \<and> distinct xs \<and> set xs \<subseteq> dom (elems c) \<and>
     (\<forall>a\<in>set xs. element_ok (elems c) a) \<and> linked (fld next_elt (elems c)) (fld prev_elt (elems c)) None xs None \<and>
     (case conds_tbl c of
        None \<Rightarrow> xs = []
      | Some t \<Rightarrow> xs \<noteq> [] \<and> tbl_tail t = last_of xs None \<and> num_items t = of_nat (length xs) \<and> table_ok (elems c) t (set xs))"

lemma element_ok_frame: "only_chains m m' A \<Longrightarrow> element_ok m' a = element_ok m a"
  by (simp add: only_chains_def element_ok_def)

lemma table_ok_frame:
  assumes "table_ok m t A" "same_chains m m' A"
    and "buckets t' = buckets t" "num_buckets t' = num_buckets t" "log2_num_buckets t' = log2_num_buckets t"
  shows "table_ok m' t' A"
  using assms(1) buckets_ok_frame [OF _ assms(2)] unfolding table_ok_def assms(3-5) by blast

lemma table_ok_place:
  assumes "table_ok m t A"
  shows "HASH_TO_BKT h (num_buckets t) < length (buckets t)"
  using assms HASH_TO_BKT_less by (auto simp: table_ok_def buckets_ok_def)

lemma with_handle_commute: "(\<And>h. f (g h) = g (f h)) \<Longrightarrow> with_handle f a (with_handle g a m) = with_handle g a (with_handle f a m)"
  by (auto simp: with_handle_def split: option.splits)

lemma pushed_stores:
  assumes "a \<in> dom m" "set_option p \<subseteq> dom m"
  shows "do { m \<leftarrow> store (Some a) (hh_next_update (\<lambda>_. p)) m; m \<leftarrow> store (Some a) (hh_prev_update (\<lambda>_. NULL)) m;
    store_unless_null p (hh_prev_update (\<lambda>_. Some a)) m } = Some (pushed a p m)"
proof -
  have "with_handle (hh_prev_update (\<lambda>_. NULL)) a (with_handle (hh_next_update (\<lambda>_. p)) a m) =
      with_handle (hh_next_update (\<lambda>_. p)) a (with_handle (hh_prev_update (\<lambda>_. NULL)) a m)" by (rule with_handle_commute) simp
  then show ?thesis using assms by (simp add: store_with_link pushed_def)
qed

lemma add_to_bucket_ok:
  assumes ok: "table_ok m t A" and a: "a \<in> dom m" "a \<notin> A" "A \<subseteq> dom m" and mem: "bounded_memory malloc"
    and i: "i = HASH_TO_BKT (fld hashv m a) (num_buckets t)" and n: "num_items t \<noteq> 0"
  shows "(HASH_ADD_TO_BKT malloc i a m t = Some (Inl uthash_fatal) \<and> \<not> malloc (2 * unat (num_buckets t) * BUCKET_SIZE)) \<or>
    (\<exists>m' t'. HASH_ADD_TO_BKT malloc i a m t = Some (Inr (m', t')) \<and> table_ok m' t' (insert a A) \<and> only_chains m m' (insert a A) \<and>
       num_items t' = num_items t \<and> tbl_tail t' = tbl_tail t)"
proof -
  from ok obtain k ch where k: "k < 32" "num_buckets t = 2 ^ k" "log2_num_buckets t = of_nat k" and b: "buckets_ok m (buckets t) k ch A"
    by (auto simp: table_ok_def)
  let ?b = "buckets t ! i"
  let ?b' = "?b\<lparr>bkt_count := bkt_count ?b + 1, hh_head := Some a\<rparr>"
  let ?m = "pushed a (hh_head ?b) m" and ?t = "t\<lparr>buckets := (buckets t)[i := ?b']\<rparr>"
  have i': "i < length (buckets t)" "i < 2 ^ k" "i = place m k a" using i k(2) b HASH_TO_BKT_less [of _ k] by (auto simp: buckets_ok_def)
  have hd: "set_option (hh_head ?b) \<subseteq> dom m" using bucket_head_in [OF b i'(2)] a(3) by blast
  note push = bucket_pushed [OF b a(2) i'(3) a(1,3), of ?b']
  have ok': "table_ok ?m ?t (insert a A)" unfolding table_ok_def using k push(1) by (intro exI [of _ k]) auto
  have add: "HASH_ADD_TO_BKT malloc i a m t =
      (if bkt_count ?b' \<ge> (expand_mult ?b' + 1) * 10 \<and> noexpand t = 0 then HASH_EXPAND_BUCKETS malloc ?m ?t else Some (Inr (?m, ?t)))"
    using i'(1) pushed_stores [OF a(1) hd] by (simp add: HASH_ADD_TO_BKT_def Let_def flip: bind_assoc)
  have oc: "only_chains m ?m (insert a A)" using push(2) by simp
  have "insert a A \<subseteq> dom ?m" using oc a by (auto simp: only_chains_def)
  from expand_ok [OF ok' this mem] n consider
      "HASH_EXPAND_BUCKETS malloc ?m ?t = Some (Inl uthash_fatal)" "\<not> malloc (2 * unat (num_buckets t) * BUCKET_SIZE)"
    | m' t' where "HASH_EXPAND_BUCKETS malloc ?m ?t = Some (Inr (m', t'))" "table_ok m' t' (insert a A)"
        "only_chains ?m m' (insert a A)" "num_items t' = num_items t" "tbl_tail t' = tbl_tail t" by auto
  then show ?thesis
  proof cases
    case 1
    then show ?thesis using add ok' oc by auto
  next
    case 2
    have "only_chains m m' (insert a A)" by (rule only_chains_trans [OF oc 2(3)]) auto
    with 2 show ?thesis using add ok' oc by auto
  qed
qed

lemma fld_with_handle: "a \<in> dom m \<Longrightarrow> fld g (with_handle f a m) = (fld g m)(a := g (f (hh (the (m a)))))"
  by (auto simp: with_handle_def fld_def fun_eq_iff)

text \<open>The key, its length and its hash value are stored in the handle first.\<close>

lemma keyed_element:
  assumes "a \<in> dom m" "m' = with_handle (\<lambda>h. h\<lparr>hashv := HASH_JEN (key_bytes (key_of m a)), hh_key := Some a, keylen := PTR_SIZE\<rparr>) a m"
  shows "element_ok m' a" "dom m' = dom m" "key_of m' = key_of m" "fld next_elt m' = fld next_elt m" "fld prev_elt m' = fld prev_elt m"
    "fld hh_next m' = fld hh_next m" "fld hh_prev m' = fld hh_prev m"
    "x \<noteq> a \<Longrightarrow> element_ok m' x = element_ok m x" "x \<noteq> a \<Longrightarrow> fld hashv m' x = fld hashv m x"
  using assms by (simp_all add: element_ok_def fld_with_handle)

lemma new_table_ok: "HASH_MAKE_TABLE malloc a = Inr t \<Longrightarrow> table_ok m t {}"
  using empty_buckets_ok [of m 5] unfolding table_ok_def
  by (intro exI [of _ 5]) (auto simp: HASH_MAKE_TABLE_def split: if_splits)

text \<open>From the list to the table: what is left to show after an element is linked into the list.\<close>

lemma count_not_zero: "n < 2 ^ 32 - 1 \<Longrightarrow> of_nat n + 1 \<noteq> (0 :: 32 word)"
  using unat_small [of "Suc n"] by (auto simp: add.commute)

lemma holds_added:
  assumes "table_ok m t (set xs)" "a \<in> dom m" "a \<notin> set xs" "set xs \<subseteq> dom m" "distinct xs" "bounded_memory malloc"
    and "\<forall>x\<in>set (xs @ [a]). element_ok m x" "linked (fld next_elt m) (fld prev_elt m) None (xs @ [a]) None"
    and "tbl_tail t = Some a" "num_items t = of_nat (length xs)" "h = fld hashv m a" "length xs < 2 ^ 32 - 1"
  shows "(HASH_ADD_TO_TABLE malloc h a m t = Some (Inl uthash_fatal) \<and> \<not> malloc (2 * unat (num_buckets t) * BUCKET_SIZE)) \<or>
    (\<exists>m' t'. HASH_ADD_TO_TABLE malloc h a m t = Some (Inr (m', t')) \<and> dom m' = dom m \<and> key_of m' = key_of m \<and>
       holds \<lparr>conds_head = first_of (xs @ [a]) None, conds_tbl = Some t', elems = m'\<rparr> (xs @ [a]))"
proof -
  let ?t = "t\<lparr>num_items := num_items t + 1\<rparr>"
  have "table_ok m ?t (set xs)" by (rule table_ok_frame [OF assms(1)]) (simp_all add: same_chains_def)
  moreover have "num_items ?t \<noteq> 0" using count_not_zero [OF assms(12)] assms(10) by simp
  ultimately have "
    (HASH_ADD_TO_TABLE malloc h a m t = Some (Inl uthash_fatal) \<and> \<not> malloc (2 * unat (num_buckets t) * BUCKET_SIZE)) \<or>
    (\<exists>m' t'. HASH_ADD_TO_TABLE malloc h a m t = Some (Inr (m', t')) \<and> table_ok m' t' (insert a (set xs)) \<and> only_chains m m' (insert a (set xs)) \<and>
       num_items t' = num_items t + 1 \<and> tbl_tail t' = tbl_tail t)"
    using add_to_bucket_ok [OF _ assms(2-4,6) refl, of ?t] by (simp add: HASH_ADD_TO_TABLE_def assms(11))
  moreover have "holds \<lparr>conds_head = first_of (xs @ [a]) None, conds_tbl = Some t', elems = m'\<rparr> (xs @ [a])"
    if "table_ok m' t' (insert a (set xs))" "only_chains m m' (insert a (set xs))" "num_items t' = num_items t + 1" "tbl_tail t' = tbl_tail t" for m' t'
    using that assms(2-5,7-10) element_ok_frame [OF that(2)] unfolding holds_def by (simp add: only_chains_def)
  ultimately show ?thesis unfolding only_chains_def by blast
qed

text \<open>The sizes of the blocks that adding an element may allocate.\<close>

definition block_sizes :: "conds_state \<Rightarrow> nat set" where
  "block_sizes c = (case conds_tbl c of
     None \<Rightarrow> {TABLE_SIZE, 32 * BUCKET_SIZE, 64 * BUCKET_SIZE} | Some t \<Rightarrow> {2 * unat (num_buckets t) * BUCKET_SIZE})"

lemma make_table_cases:
  fixes malloc :: allocator
  obtains (fatal) "HASH_MAKE_TABLE malloc a = Inl uthash_fatal" "\<not> malloc TABLE_SIZE \<or> \<not> malloc (32 * BUCKET_SIZE)"
    | (made) t where "HASH_MAKE_TABLE malloc a = Inr t" "tbl_tail t = Some a" "num_items t = 0" "num_buckets t = 32"
proof (cases "malloc TABLE_SIZE \<and> malloc (32 * BUCKET_SIZE)")
  case False
  then show ?thesis using fatal by (auto simp: HASH_MAKE_TABLE_def)
qed (auto simp: HASH_MAKE_TABLE_def intro: made)

lemma append_ok:
  assumes "linked (fld next_elt m) (fld prev_elt m) None xs None" "distinct xs" "xs \<noteq> []" "set xs \<subseteq> dom m" "a \<in> dom m" "a \<notin> set xs"
    and "tbl_tail t = last_of xs None"
  obtains m' where "HASH_APPEND_LIST a m t = Some (m', t\<lparr>tbl_tail := Some a\<rparr>)"
    "linked (fld next_elt m') (fld prev_elt m') None (xs @ [a]) None" "dom m' = dom m" "key_of m' = key_of m"
    "fld hh_key m' = fld hh_key m" "fld keylen m' = fld keylen m" "fld hashv m' = fld hashv m" "fld hh_next m' = fld hh_next m" "fld hh_prev m' = fld hh_prev m"
proof -
  have l: "last xs \<in> dom m" "tbl_tail t = Some (last xs)" using subsetD [OF assms(4) last_in_set [OF assms(3)]] assms(3,7) by (simp_all add: last_of_def)
  let ?m1 = "with_handle (prev_elt_update (\<lambda>_. Some (last xs))) a (with_handle (next_elt_update (\<lambda>_. NULL)) a m)"
  let ?m' = "with_handle (next_elt_update (\<lambda>_. Some a)) (last xs) ?m1"
  have "HASH_APPEND_LIST a m t = Some (?m', t\<lparr>tbl_tail := Some a\<rparr>)" using l assms(5) by (simp add: HASH_APPEND_LIST_def)
  moreover have "linked (fld next_elt ?m') (fld prev_elt ?m') None (xs @ [a]) None"
    using linked_snoc [OF assms(1,6,2,3)] l(1) assms(5) by (simp del: linked_append)
  ultimately show ?thesis using that by simp
qed

lemma add_first_ok:
  assumes "holds c []" "a \<in> dom (elems c)" "bounded_memory malloc"
  shows "(HASH_ADD_PTR malloc a c = Some (Inl uthash_fatal) \<and> (\<exists>n\<in>block_sizes c. \<not> malloc n)) \<or>
    (\<exists>c'. HASH_ADD_PTR malloc a c = Some (Inr c') \<and> holds c' [a] \<and> dom (elems c') = dom (elems c) \<and> key_of (elems c') = key_of (elems c))"
proof -
  let ?h = "HASH_JEN (key_bytes (key_of (elems c) a))"
  define m where "m = with_handle (\<lambda>h. h\<lparr>hashv := ?h, hh_key := Some a, keylen := PTR_SIZE\<rparr>) a (elems c)"
  define m1 where "m1 = with_handle (\<lambda>h. h\<lparr>next_elt := NULL, prev_elt := NULL\<rparr>) a m"
  note k = keyed_element [OF assms(2) m_def]
  have m1: "dom m1 = dom (elems c)" "key_of m1 = key_of (elems c)" "element_ok m1 a" "linked (fld next_elt m1) (fld prev_elt m1) None ([] @ [a]) None"
    "?h = fld hashv m1 a" using k(1-3) assms(2) by (simp_all add: m1_def element_ok_def fld_with_handle)
  obtain e where e: "elems c a = Some e" "ptr e = key_of (elems c) a" using assms(2) by (auto simp: key_of_def)
  have none: "conds_tbl c = None" using assms(1) by (auto simp: holds_def split: option.splits)
  have run: "HASH_ADD_PTR malloc a c = (case HASH_MAKE_TABLE malloc a of Inl x \<Rightarrow> Some (Inl x) | Inr t \<Rightarrow> do {
      r \<leftarrow> HASH_ADD_TO_TABLE malloc ?h a m1 t;
      Some (exit_bind r (\<lambda>(m, t). Inr \<lparr>conds_head = Some a, conds_tbl = Some t, elems = m\<rparr>)) })"
    using assms(1,2) e k(2)
    by (simp add: HASH_ADD_PTR_def HASH_ADD_KEYPTR_def HASH_ADD_KEYPTR_BYHASHVALUE_def holds_def exit_bind_def flip: m_def m1_def split: sum.splits)
  show ?thesis
  proof (cases rule: make_table_cases [of malloc a])
    case fatal
    then show ?thesis using run none by (auto simp: block_sizes_def)
  next
    case (made t)
    have "(HASH_ADD_TO_TABLE malloc ?h a m1 t = Some (Inl uthash_fatal) \<and> \<not> malloc (2 * unat (num_buckets t) * BUCKET_SIZE)) \<or>
      (\<exists>m' t'. HASH_ADD_TO_TABLE malloc ?h a m1 t = Some (Inr (m', t')) \<and> dom m' = dom m1 \<and> key_of m' = key_of m1 \<and>
         holds \<lparr>conds_head = first_of ([] @ [a]) None, conds_tbl = Some t', elems = m'\<rparr> ([] @ [a]))"
      by (rule holds_added) (use new_table_ok [OF made(1)] made(2,3) assms(2,3) m1 in simp_all)
    then show ?thesis using run made(1,4) m1(1,2) none by (auto simp: exit_bind_def block_sizes_def)
  qed
qed

lemma add_next_ok:
  assumes "holds c xs" "xs \<noteq> []" "a \<in> dom (elems c)" "a \<notin> set xs" "bounded_memory malloc" "length xs < 2 ^ 32 - 1"
  shows "(HASH_ADD_PTR malloc a c = Some (Inl uthash_fatal) \<and> (\<exists>n\<in>block_sizes c. \<not> malloc n)) \<or>
    (\<exists>c'. HASH_ADD_PTR malloc a c = Some (Inr c') \<and> holds c' (xs @ [a]) \<and> dom (elems c') = dom (elems c) \<and> key_of (elems c') = key_of (elems c))"
proof -
  let ?h = "HASH_JEN (key_bytes (key_of (elems c) a))"
  define m where "m = with_handle (\<lambda>h. h\<lparr>hashv := ?h, hh_key := Some a, keylen := PTR_SIZE\<rparr>) a (elems c)"
  note k = keyed_element [OF assms(3) m_def]
  from assms(1,2) obtain t where t: "conds_tbl c = Some t" "tbl_tail t = last_of xs None" "num_items t = of_nat (length xs)" "table_ok (elems c) t (set xs)"
    and c: "conds_head c = Some (hd xs)" "distinct xs" "set xs \<subseteq> dom (elems c)" "linked (fld next_elt m) (fld prev_elt m) None xs None"
    and el: "\<forall>x\<in>set xs. element_ok (elems c) x"
    unfolding holds_def k(4,5) by (cases xs) (auto split: option.splits)
  have "head_tbl c = Some t" using c(1,3) t(1) assms(2) by (cases xs) (auto simp: head_tbl_def)
  moreover obtain e where e: "elems c a = Some e" "ptr e = key_of (elems c) a" using assms(3) by (auto simp: key_of_def)
  ultimately have run: "HASH_ADD_PTR malloc a c = do {
      (m, t) \<leftarrow> HASH_APPEND_LIST a m t;
      r \<leftarrow> HASH_ADD_TO_TABLE malloc ?h a m t;
      Some (exit_bind r (\<lambda>(m, t). Inr \<lparr>conds_head = Some (hd xs), conds_tbl = Some t, elems = m\<rparr>)) }"
    using c(1) assms(3) k(2)
    by (simp add: HASH_ADD_PTR_def HASH_ADD_KEYPTR_def HASH_ADD_KEYPTR_BYHASHVALUE_def case_prod_unfold flip: m_def)
  have "a \<in> dom m" "set xs \<subseteq> dom m" using k(2) assms(3) c(3) by simp_all
  from append_ok [OF c(4,2) assms(2) this(2,1) assms(4) t(2)] obtain m1 where
    ap: "HASH_APPEND_LIST a m t = Some (m1, t\<lparr>tbl_tail := Some a\<rparr>)"
    and l: "linked (fld next_elt m1) (fld prev_elt m1) None (xs @ [a]) None" and f: "dom m1 = dom m" "key_of m1 = key_of m"
      "fld hh_key m1 = fld hh_key m" "fld keylen m1 = fld keylen m" "fld hashv m1 = fld hashv m" "fld hh_next m1 = fld hh_next m" "fld hh_prev m1 = fld hh_prev m" .
  let ?t = "t\<lparr>tbl_tail := Some a\<rparr>"
  have el1: "element_ok m1 x = element_ok m x" for x using f by (simp add: element_ok_def)
  have ne: "x \<noteq> a" if "x \<in> set xs" for x using that assms(4) by blast
  then have "same_chains (elems c) m1 (set xs)" using k(6,7,9) f(5-7) by (simp add: same_chains_def)
  then have ok: "table_ok m1 ?t (set xs)" by (rule table_ok_frame [OF t(4)]) simp_all
  have el2: "\<forall>x\<in>set (xs @ [a]). element_ok m1 x" using el k(1) by (auto simp: el1 k(8) [OF ne])
  have hv: "?h = fld hashv m1 a" using k(1,3) f(5) by (simp add: element_ok_def)
  have "(HASH_ADD_TO_TABLE malloc ?h a m1 ?t = Some (Inl uthash_fatal) \<and> \<not> malloc (2 * unat (num_buckets ?t) * BUCKET_SIZE)) \<or>
      (\<exists>m' t'. HASH_ADD_TO_TABLE malloc ?h a m1 ?t = Some (Inr (m', t')) \<and> dom m' = dom m1 \<and> key_of m' = key_of m1 \<and>
         holds \<lparr>conds_head = first_of (xs @ [a]) None, conds_tbl = Some t', elems = m'\<rparr> (xs @ [a]))"
    by (rule holds_added [OF ok]) (use assms(3-6) k(2) f(1) c(2,3) el2 hv l t(3) in simp_all)
  moreover have "first_of (xs @ [a]) None = Some (hd xs)" using assms(2) by (cases xs) simp_all
  ultimately show ?thesis using run ap f(1,2) k(2,3) t(1) by (auto simp: exit_bind_def block_sizes_def)
qed

lemma add_ok:
  assumes "holds c xs" "a \<in> dom (elems c)" "a \<notin> set xs" "bounded_memory malloc" "length xs < 2 ^ 32 - 1"
  shows "(HASH_ADD_PTR malloc a c = Some (Inl uthash_fatal) \<and> (\<exists>n\<in>block_sizes c. \<not> malloc n)) \<or>
    (\<exists>c'. HASH_ADD_PTR malloc a c = Some (Inr c') \<and> holds c' (xs @ [a]) \<and> dom (elems c') = dom (elems c) \<and> key_of (elems c') = key_of (elems c))"
  using add_first_ok [OF _ assms(2,4)] add_next_ok [OF assms(1) _ assms(2-5)] assms(1) by (cases "xs = []") auto

text \<open>Deleting.\<close>

lemma delete_in_bucket_ok:
  assumes "table_ok m t A" "A \<subseteq> dom m" "a \<in> A"
  shows "\<exists>m' t'. HASH_DEL_IN_BKT (HASH_TO_BKT (fld hashv m a) (num_buckets t)) a m t = Some (m', t') \<and>
    table_ok m' t' (A - {a}) \<and> only_chains m m' A \<and> num_items t' = num_items t \<and> tbl_tail t' = tbl_tail t"
proof -
  from assms(1) obtain k ch where k: "k < 32" "num_buckets t = 2 ^ k" "log2_num_buckets t = of_nat k" and b: "buckets_ok m (buckets t) k ch A"
    by (auto simp: table_ok_def)
  let ?i = "place m k a" and ?p = "fld hh_prev m a" and ?n = "fld hh_next m a"
  let ?b = "buckets t ! ?i"
  define b' where "b' = (if hh_head ?b = Some a then ?b\<lparr>bkt_count := bkt_count ?b - 1, hh_head := ?n\<rparr> else ?b\<lparr>bkt_count := bkt_count ?b - 1\<rparr>)"
  define m' where "m' = with_link (hh_prev_update (\<lambda>_. ?p)) ?n (with_link (hh_next_update (\<lambda>_. ?n)) ?p m)"
  have sub: "set_option ?p \<subseteq> A" "set_option ?n \<subseteq> A"
    using bucket_neighbours [OF b assms(3)] by simp_all
  then have d: "set_option ?p \<subseteq> dom m" "set_option ?n \<subseteq> dom m" using assms(2) by blast+
  have f: "fld hh_next m' = link_from ?p ?n (fld hh_next m)" "fld hh_prev m' = link_from ?n ?p (fld hh_prev m)" "fld hashv m' = fld hashv m"
    using d by (simp_all add: m'_def)
  have "buckets_ok m' ((buckets t)[?i := b']) k (ch(?i := remove1 a (ch ?i))) (A - {a})"
    by (rule bucket_remove [OF b assms(3) refl f]) (simp_all add: b'_def)
  then have "table_ok m' (t\<lparr>buckets := (buckets t)[?i := b']\<rparr>) (A - {a})" unfolding table_ok_def using k by (intro exI [of _ k]) auto
  moreover have "only_chains m m' A"
    using sub d by (auto simp: only_chains_def m'_def intro!: link_from_other)
  moreover have "HASH_DEL_IN_BKT (HASH_TO_BKT (fld hashv m a) (num_buckets t)) a m t = Some (m', t\<lparr>buckets := (buckets t)[?i := b']\<rparr>)"
    using k(2) b assms(2,3) d HASH_TO_BKT_less [of "fld hashv m a" k]
    by (auto simp: HASH_DEL_IN_BKT_def buckets_ok_def Let_def store_with_link b'_def m'_def fld_def subset_iff)
  ultimately show ?thesis by auto
qed

lemma holds_table:
  assumes "holds c xs" "a \<in> set xs"
  obtains t where "conds_tbl c = Some t" "head_tbl c = Some t" "tbl_tail t = last_of xs None" "num_items t = of_nat (length xs)" "table_ok (elems c) t (set xs)"
proof -
  have "xs \<noteq> []" using assms(2) by auto
  with assms(1) that show ?thesis by (cases xs) (auto simp: holds_def head_tbl_def split: option.splits)
qed

lemma delete_ok:
  assumes "holds c xs" "a \<in> set xs"
  shows "\<exists>c'. HASH_DELETE_HH a c = Some c' \<and> holds c' (remove1 a xs) \<and> dom (elems c') = dom (elems c) \<and> key_of (elems c') = key_of (elems c)"
proof -
  let ?m = "elems c"
  obtain t where t: "conds_tbl c = Some t" "head_tbl c = Some t" "tbl_tail t = last_of xs None" "num_items t = of_nat (length xs)" "table_ok ?m t (set xs)"
    using holds_table [OF assms] .
  have c: "conds_head c = first_of xs None" "distinct xs" "set xs \<subseteq> dom ?m" "linked (fld next_elt ?m) (fld prev_elt ?m) None xs None"
    and el: "\<forall>x\<in>set xs. element_ok ?m x" using assms(1) by (simp_all add: holds_def)
  obtain ys zs where xs: "xs = ys @ a # zs" using assms(2) by (meson split_list)
  let ?p = "fld prev_elt ?m a" and ?n = "fld next_elt ?m a"
  have "linked (fld next_elt ?m) (fld prev_elt ?m) None (ys @ a # zs) None" "distinct (ys @ a # zs)" using c(2,4) xs by simp_all
  note u = linked_unlink [OF this]
  have r: "remove1 a xs = ys @ zs" "set (ys @ zs) = set xs - {a}" using c(2) xs by (auto simp: remove1_append)
  have a: "a \<in> dom ?m" using assms(2) c(3) by blast
  show ?thesis
  proof (cases "ys = [] \<and> zs = []")
    case True
    then have "HASH_DELETE_HH a c = Some (c\<lparr>conds_tbl := None, conds_head := NULL\<rparr>)"
      using t(2) a u(2,3) by (simp add: HASH_DELETE_HH_def fld_def)
    moreover have "holds (c\<lparr>conds_tbl := None, conds_head := NULL\<rparr>) (remove1 a xs)" using True r(1) by (simp add: holds_def)
    ultimately show ?thesis by simp
  next
    case False
    define t1 where "t1 = (if tbl_tail t = Some a then t\<lparr>tbl_tail := ?p\<rparr> else t)"
    define m1 where "m1 = with_link (prev_elt_update (\<lambda>_. ?p)) ?n (with_link (next_elt_update (\<lambda>_. ?n)) ?p ?m)"
    have d: "set_option ?p \<subseteq> dom ?m" "set_option ?n \<subseteq> dom ?m" using u(2,3) c(3) xs by (auto dest!: first_in_set last_in_set_of)
    have f: "fld next_elt m1 = link_from ?p ?n (fld next_elt ?m)" "fld prev_elt m1 = link_from ?n ?p (fld prev_elt ?m)" "dom m1 = dom ?m" "key_of m1 = key_of ?m"
      "fld hh_key m1 = fld hh_key ?m" "fld keylen m1 = fld keylen ?m" "fld hashv m1 = fld hashv ?m" "fld hh_next m1 = fld hh_next ?m" "fld hh_prev m1 = fld hh_prev ?m"
      using d by (simp_all add: m1_def)
    have t1: "num_buckets t1 = num_buckets t" "num_items t1 = num_items t" "tbl_tail t1 = last_of (ys @ zs) None"
      using t(3) u(2) xs c(2) by (auto simp: t1_def last_of_def split: if_splits)
    have "table_ok m1 t1 (set xs)" by (rule table_ok_frame [OF t(5)]) (use f in \<open>simp_all add: same_chains_def t1_def\<close>)
    from delete_in_bucket_ok [OF this _ assms(2)] c(3) f(3) obtain m' t' where
      del: "HASH_DEL_IN_BKT (HASH_TO_BKT (fld hashv m1 a) (num_buckets t1)) a m1 t1 = Some (m', t')"
      and ok: "table_ok m' t' (set xs - {a})" and oc: "only_chains m1 m' (set xs)" and t': "num_items t' = num_items t" "tbl_tail t' = last_of (ys @ zs) None"
      using t1 by auto
    let ?c = "\<lparr>conds_head = first_of (ys @ zs) None, conds_tbl = Some (t'\<lparr>num_items := num_items t' - 1\<rparr>), elems = m'\<rparr>"
    have head: "(if ?p = NULL then ?n else conds_head c) = first_of (ys @ zs) None" using u(2,3) c(1) xs by (cases ys) auto
    have "\<not> (?p = NULL \<and> ?n = NULL)" using u(2,3) False by simp
    then have "HASH_DELETE_HH a c = do { (m, t) \<leftarrow> HASH_DEL_IN_BKT (HASH_TO_BKT (fld hashv ?m a) (num_buckets t1)) a m1 t1;
        Some \<lparr>conds_head = (if ?p = NULL then ?n else conds_head c), conds_tbl = Some (t\<lparr>num_items := num_items t - 1\<rparr>), elems = m\<rparr> }"
      using t(2) a d by (auto simp: HASH_DELETE_HH_def Let_def store_with_link handle_fields t1_def m1_def)
    then have "HASH_DELETE_HH a c = Some ?c" using del head f(7) by simp
    moreover have "table_ok m' (t'\<lparr>num_items := num_items t' - 1\<rparr>) (set (ys @ zs))"
      unfolding r(2) by (rule table_ok_frame [OF ok]) (simp_all add: same_chains_def)
    moreover have "element_ok m' x" if "x \<in> set (ys @ zs)" for x
      using el that xs f element_ok_frame [OF oc] by (auto simp: element_ok_def)
    moreover have "linked (fld next_elt m') (fld prev_elt m') None (ys @ zs) None" using u(1) oc f(1,2) by (simp add: only_chains_def)
    ultimately show ?thesis
      using oc f(3,4) t' t(4) c(2,3) xs False unfolding r(1) by (auto simp: holds_def only_chains_def)
  qed
qed

text \<open>Finding. Different pointers have different bytes.\<close>

lemma key_bytes_inj: "key_bytes p = key_bytes q \<longleftrightarrow> p = q"
proof
  assume e: "key_bytes p = key_bytes q"
  have "bit p n = bit q n" if "n < 64" for n
  proof -
    have i: "n div 8 < 8" using that by simp
    then have "key_bytes r ! (n div 8) = ucast (drop_bit (8 * (n div 8)) r)" for r by (simp add: key_bytes_def)
    then have "bit (ucast (drop_bit (8 * (n div 8)) p) :: 8 word) (n mod 8) = bit (ucast (drop_bit (8 * (n div 8)) q) :: 8 word) (n mod 8)"
      using e by metis
    then show ?thesis by (simp add: bit_ucast_iff bit_drop_bit_eq)
  qed
  then show "p = q" by (intro bit_word_eqI) simp
qed simp

lemma length_key_bytes [simp]: "length (key_bytes p) = 8"
  by (simp add: key_bytes_def)

lemma find_in_chain_ok:
  assumes "linked (fld hh_next m) pv q xs None" "set xs \<subseteq> dom m" "\<forall>a\<in>set xs. element_ok m a"
  shows "find_in_chain m (key_bytes p) PTR_SIZE (HASH_JEN (key_bytes p)) (first_of xs None) = Some (List.find (\<lambda>a. key_of m a = p) xs)"
  using assms
proof (induction xs arbitrary: q)
  case Nil
  then show ?case by (simp add: find_in_chain.simps)
next
  case (Cons a xs)
  then have a: "a \<in> dom m" "fld hh_next m a = first_of xs None" "element_ok m a" by simp_all
  then obtain e where e: "m a = Some e" by blast
  have "key_equals m (Some a) (key_bytes p) PTR_SIZE = Some (key_of m a = p)"
    using e by (simp add: key_equals_def key_of_def key_bytes_inj)
  with Cons a show ?case
    by (auto simp: find_in_chain.simps [of m "key_bytes p" _ _ "Some a"] handle_fields element_ok_def)
qed

lemma find_SomeD: "List.find P xs = Some x \<Longrightarrow> x \<in> set xs \<and> P x"
  by (induction xs) (auto split: if_splits)

lemma find_ok:
  assumes "holds c xs"
  shows "\<exists>r. HASH_FIND_PTR c p = Some r \<and> (\<forall>a. r = Some a \<longrightarrow> a \<in> set xs \<and> key_of (elems c) a = p) \<and>
    (r = None \<longrightarrow> p \<notin> key_of (elems c) ` set xs)"
proof (cases "xs = []")
  case True
  then show ?thesis using assms by (simp add: HASH_FIND_PTR_def HASH_FIND_def HASH_FIND_BYHASHVALUE_def holds_def)
next
  case False
  let ?h = "HASH_JEN (key_bytes p)"
  obtain t where t: "head_tbl c = Some t" "table_ok (elems c) t (set xs)" using holds_table [OF assms] False last_in_set by metis
  then obtain k ch where k: "num_buckets t = 2 ^ k" and b: "buckets_ok (elems c) (buckets t) k ch (set xs)" by (auto simp: table_ok_def)
  let ?i = "HASH_TO_BKT ?h (2 ^ k)"
  have i: "?i < 2 ^ k" "?i < length (buckets t)" using HASH_TO_BKT_less b by (simp_all add: buckets_ok_def)
  note ch = buckets_ok_chain [OF b i(1)]
  have x: "set xs \<subseteq> dom (elems c)" "\<forall>a\<in>set xs. element_ok (elems c) a" "conds_head c \<noteq> None" using assms False by (auto simp: holds_def)
  let ?r = "List.find (\<lambda>a. key_of (elems c) a = p) (ch ?i)"
  have run: "HASH_FIND_PTR c p = Some ?r"
    using t(1) k i(2) x(3) ch find_in_chain_ok [of "elems c" "fld hh_prev (elems c)" None "ch ?i" p] x(1,2)
    by (auto simp: HASH_FIND_PTR_def HASH_FIND_def HASH_FIND_BYHASHVALUE_def HASH_FIND_IN_BKT_def bucket_ok_def)
  have none: "p \<notin> key_of (elems c) ` set xs" if "?r = None"
  proof
    assume "p \<in> key_of (elems c) ` set xs"
    then obtain a where a: "a \<in> set xs" "key_of (elems c) a = p" by blast
    then have "a \<in> set (ch ?i)" using ch(2) x(2) by (simp add: element_ok_def)
    then show False using that a(2) by (auto simp: find_None_iff)
  qed
  have some: "a \<in> set xs \<and> key_of (elems c) a = p" if "?r = Some a" for a
    using find_SomeD [OF that] ch(2) by simp
  show ?thesis by (intro exI [of _ ?r] conjI allI impI run none) (simp_all add: some)
qed

text \<open>Checking.\<close>

lemma fsck_chain_ok:
  assumes "linked (fld hh_next m) (fld hh_prev m) p xs None" "set xs \<subseteq> dom m"
  shows "fsck_chain m p (first_of xs None) n = Some (Some (n + of_nat (length xs)))"
  using assms
proof (induction xs arbitrary: p n)
  case (Cons a xs)
  then show ?case by (simp add: fsck_chain.simps [of m _ "Some a"] handle_fields ac_simps)
qed (simp add: fsck_chain.simps)

lemma fsck_list_ok:
  assumes "linked (fld next_elt m) (fld prev_elt m) p xs None" "set xs \<subseteq> dom m"
  shows "fsck_list m p (first_of xs None) n = Some (Some (n + of_nat (length xs)))"
  using assms
proof (induction xs arbitrary: p n)
  case (Cons a xs)
  then show ?case by (simp add: fsck_list.simps [of m _ "Some a"] handle_fields ac_simps)
qed (simp add: fsck_list.simps)

lemma fsck_buckets_ok:
  assumes "\<And>i. i \<in> set is \<Longrightarrow> i < length (buckets t) \<and> bucket_ok m (buckets t ! i) (ch i) \<and> set (ch i) \<subseteq> dom m"
  shows "fsck_buckets m t is n = Some (Some (n + of_nat (\<Sum>i\<leftarrow>is. length (ch i))))"
  using assms
proof (induction "is" arbitrary: n)
  case (Cons i "is")
  have "i < length (buckets t)" "bucket_ok m (buckets t ! i) (ch i)" "set (ch i) \<subseteq> dom m" using Cons.prems by simp_all
  then show ?case using Cons.IH Cons.prems fsck_chain_ok [of m None "ch i"] by (simp add: bucket_ok_def ac_simps)
qed simp

lemma chains_length:
  assumes "buckets_ok m bs k ch (set xs)" "distinct xs"
  shows "(\<Sum>i\<leftarrow>[0..<2 ^ k]. length (ch i)) = length xs"
proof -
  have c: "set (ch i) = {a \<in> set xs. place m k a = i}" "distinct (ch i)" if "i < 2 ^ k" for i
    using buckets_ok_chain [OF assms(1) that] by (simp_all add: bucket_ok_def)
  have "(\<Sum>i\<leftarrow>[0..<2 ^ k]. length (ch i)) = (\<Sum>i<2 ^ k. card (set (ch i)))"
    using c(2) by (simp add: sum_list_distinct_conv_sum_set distinct_card atLeast0LessThan)
  also have "\<dots> = card (\<Union>i<2 ^ k. set (ch i))" using c(1) by (subst card_UN_disjoint) auto
  also have "(\<Union>i<2 ^ k. set (ch i)) = set xs" using c(1) HASH_TO_BKT_less by auto
  finally show ?thesis using assms(2) by (simp add: distinct_card)
qed

lemma fsck_ok:
  assumes "holds c xs"
  shows "HASH_FSCK c = Some True"
proof (cases "xs = []")
  case True
  then show ?thesis using assms by (simp add: HASH_FSCK_def holds_def)
next
  case False
  obtain t where t: "head_tbl c = Some t" "num_items t = of_nat (length xs)" "table_ok (elems c) t (set xs)"
    using holds_table [OF assms] False last_in_set by metis
  then obtain k ch where k: "k < 32" "num_buckets t = 2 ^ k" and b: "buckets_ok (elems c) (buckets t) k ch (set xs)" by (auto simp: table_ok_def)
  have x: "set xs \<subseteq> dom (elems c)" "distinct xs" "conds_head c = first_of xs None" "linked (fld next_elt (elems c)) (fld prev_elt (elems c)) None xs None"
    using assms by (simp_all add: holds_def)
  have "fsck_buckets (elems c) t [0..<2 ^ k] 0 = Some (Some (0 + of_nat (\<Sum>i\<leftarrow>[0..<2 ^ k]. length (ch i))))"
    by (rule fsck_buckets_ok) (use b x(1) in \<open>auto simp: buckets_ok_def\<close>)
  then have "fsck_buckets (elems c) t [0..<2 ^ k] 0 = Some (Some (num_items t))" using chains_length [OF b x(2)] t(2) by simp
  then show ?thesis using t(1,2) k False x(3) fsck_list_ok [OF x(4,1)] by (simp add: HASH_FSCK_def unat_power2)
qed

text \<open>Allocating and freeing elements that are not in the table.\<close>

lemma holds_elsewhere:
  assumes "holds c xs" "a \<notin> set xs"
  shows "holds (c\<lparr>elems := (elems c)(a := v)\<rparr>) xs" "x \<noteq> a \<Longrightarrow> key_of ((elems c)(a := v)) x = key_of (elems c) x"
proof -
  let ?m = "(elems c)(a := v)"
  have f: "fld g ?m x = fld g (elems c) x" "key_of ?m x = key_of (elems c) x" if "x \<in> set xs" for g :: "UT_hash_handle \<Rightarrow> 'b" and x
    using that assms(2) by (auto simp: fld_def key_of_def)
  have e: "element_ok ?m x = element_ok (elems c) x" if "x \<in> set xs" for x
    using that assms(2) by (auto simp: element_ok_def fld_def key_of_def)
  have l: "linked (fld next_elt ?m) (fld prev_elt ?m) None xs None = linked (fld next_elt (elems c)) (fld prev_elt (elems c)) None xs None"
    by (rule linked_cong) (use assms(2) in \<open>auto simp: fld_def\<close>)
  have "same_chains (elems c) ?m (set xs)" using assms(2) by (auto simp: same_chains_def fld_def)
  then have "table_ok (elems c) t (set xs) \<Longrightarrow> table_ok ?m t (set xs)" for t by (rule table_ok_frame [rotated]) simp_all
  then show "holds (c\<lparr>elems := ?m\<rparr>) xs" using assms e l unfolding holds_def by (auto split: option.splits)
  show "x \<noteq> a \<Longrightarrow> key_of ?m x = key_of (elems c) x" by (simp add: key_of_def)
qed

section \<open>The interface of the table\<close>

text \<open>
  What the functions for condition variables rely on: a state represents a map from the elements that are allocated to their
  keys. An element is allocated, added, deleted and freed.
\<close>

locale keyed_elements =
  fixes rep :: "'s \<Rightarrow> (addr \<rightharpoonup> 'k) \<Rightarrow> bool"
    and new :: "addr \<Rightarrow> 'k \<Rightarrow> 's \<Rightarrow> 's"
    and free :: "addr \<Rightarrow> 's \<Rightarrow> 's"
    and find :: "'s \<Rightarrow> 'k \<Rightarrow> addr option option"
    and add :: "addr \<Rightarrow> 's \<Rightarrow> 's exitable option"
    and del :: "addr \<Rightarrow> 's \<Rightarrow> 's option"
    and capacity :: nat
  assumes find_law: "rep s m \<Longrightarrow> \<exists>r. find s k = Some r \<and> (\<forall>a. r = Some a \<longrightarrow> m a = Some k) \<and> (r = None \<longrightarrow> k \<notin> ran m)"
    and add_law: "rep s m \<Longrightarrow> m a = None \<Longrightarrow> card (dom m) < capacity \<Longrightarrow>
      (\<exists>x. add a (new a k s) = Some (Inl x)) \<or> (\<exists>s'. add a (new a k s) = Some (Inr s') \<and> rep s' (m(a \<mapsto> k)))"
    and new_free_law: "rep s m \<Longrightarrow> m a = None \<Longrightarrow> rep (free a (new a k s)) m"
    and del_law: "rep s m \<Longrightarrow> m a = Some k \<Longrightarrow> \<exists>s'. del a s = Some s' \<and> rep (free a s') (m(a := None))"
begin

definition each_once :: "(addr \<rightharpoonup> 'k) \<Rightarrow> bool" where
  "each_once m \<longleftrightarrow> inj_on m (dom m)"

lemma find_cases:
  assumes "rep s m"
  obtains (absent) "find s k = Some None" "k \<notin> ran m" | (present) a where "find s k = Some (Some a)" "m a = Some k" "k \<in> ran m"
  using find_law [OF assms, of k] by (metis option.exhaust ranI)

lemma ran_add: "m a = None \<Longrightarrow> ran (m(a \<mapsto> k)) = insert k (ran m)"
  by (rule ran_map_upd)

lemma each_once_add: "each_once m \<Longrightarrow> m a = None \<Longrightarrow> k \<notin> ran m \<Longrightarrow> each_once (m(a \<mapsto> k))"
  by (auto simp: each_once_def inj_on_def ran_def)

lemma each_once_del: "each_once m \<Longrightarrow> each_once (m(a := None))"
  by (auto simp: each_once_def inj_on_def)

lemma ran_del: "each_once m \<Longrightarrow> m a = Some k \<Longrightarrow> ran (m(a := None)) = ran m - {k}"
  by (auto simp: each_once_def inj_on_def ran_def split: if_splits) (metis domI option.inject)+

lemma add_then_del:
  assumes "rep s m" "m a = None" "card (dom m) < capacity" "add a (new a k s) = Some (Inr s1)"
  obtains s2 where "del a s1 = Some s2" "rep (free a s2) m"
proof -
  have "rep s1 (m(a \<mapsto> k))" using add_law [OF assms(1-3), of k] assms(4) by auto
  from del_law [OF this, of a k] obtain s2 where "del a s1 = Some s2" "rep (free a s2) ((m(a \<mapsto> k))(a := None))" by auto
  moreover have "(m(a \<mapsto> k))(a := None) = m" using assms(2) by auto
  ultimately show ?thesis using that by simp
qed

end

section \<open>The table implements the interface\<close>

definition conds_map :: "conds_state \<Rightarrow> addr \<rightharpoonup> 64 word" where
  "conds_map c a = map_option ptr (elems c a)"

definition represents_map :: "conds_state \<Rightarrow> (addr \<rightharpoonup> 64 word) \<Rightarrow> bool" where
  "represents_map c m \<longleftrightarrow> m = conds_map c \<and> (\<exists>xs. holds c xs \<and> set xs = dom (elems c))"

lemma conds_map_key: "conds_map c a = (if a \<in> dom (elems c) then Some (key_of (elems c) a) else None)"
  by (auto simp: conds_map_def key_of_def)

lemma conds_map_cong: "dom (elems c') = dom (elems c) \<Longrightarrow> key_of (elems c') = key_of (elems c) \<Longrightarrow> conds_map c' = conds_map c"
  by (simp add: fun_eq_iff conds_map_key)

lemma represents_empty: "represents_map empty_conds Map.empty"
  unfolding represents_map_def by (intro conjI exI [of _ "[]"]) (auto simp: conds_map_def empty_conds_def holds_def)

lemma represents_find:
  assumes "represents_map c m"
  shows "\<exists>r. HASH_FIND_PTR c k = Some r \<and> (\<forall>a. r = Some a \<longrightarrow> m a = Some k) \<and> (r = None \<longrightarrow> k \<notin> ran m)"
proof -
  from assms obtain xs where xs: "holds c xs" "set xs = dom (elems c)" and m: "m = conds_map c" by (auto simp: represents_map_def)
  have "ran m = key_of (elems c) ` set xs" by (auto simp: m conds_map_key xs(2) ran_def)
  moreover have "m a = Some k" if "a \<in> set xs" "key_of (elems c) a = k" for a using that xs(2) by (simp add: m conds_map_key)
  ultimately show ?thesis using find_ok [OF xs(1), of k] by metis
qed

lemma represents_add:
  assumes "represents_map c m" "m a = None" "bounded_memory malloc" "card (dom m) < 2 ^ 32 - 1"
  shows "(HASH_ADD_PTR malloc a (new_element g a k c) = Some (Inl uthash_fatal) \<and> (\<exists>n\<in>block_sizes c. \<not> malloc n)) \<or>
    (\<exists>c'. HASH_ADD_PTR malloc a (new_element g a k c) = Some (Inr c') \<and> represents_map c' (m(a \<mapsto> k)))"
proof -
  let ?c = "new_element g a k c"
  from assms obtain xs where xs: "holds c xs" "set xs = dom (elems c)" and m: "m = conds_map c" by (auto simp: represents_map_def)
  then have a: "a \<notin> set xs" using assms(2) by (auto simp: conds_map_def)
  have "dom m = set xs" using xs(2) by (auto simp: m conds_map_def)
  then have n: "length xs < 2 ^ 32 - 1" using assms(4) xs(1) distinct_card [of xs] by (simp add: holds_def)
  have h: "holds ?c xs" unfolding new_element_def by (rule holds_elsewhere(1) [OF xs(1) a])
  have "block_sizes ?c = block_sizes c" by (simp add: block_sizes_def new_element_def)
  moreover have "represents_map c' (m(a \<mapsto> k))"
    if "holds c' (xs @ [a])" "dom (elems c') = dom (elems ?c)" "key_of (elems c') = key_of (elems ?c)" for c'
  proof -
    have "conds_map c' = conds_map ?c" using that(2,3) by (rule conds_map_cong)
    moreover have "conds_map ?c = m(a \<mapsto> k)" by (auto simp: m conds_map_def new_element_def)
    ultimately show ?thesis unfolding represents_map_def
      using that(1,2) xs(2) by (intro conjI exI [of _ "xs @ [a]"]) (auto simp: new_element_def fun_eq_iff)
  qed
  ultimately show ?thesis using add_ok [OF h _ a assms(3) n] by (auto simp: new_element_def)
qed

lemma represents_del:
  assumes "represents_map c m" "m a = Some k"
  shows "\<exists>c'. HASH_DELETE_HH a c = Some c' \<and> represents_map (free_element a c') (m(a := None))"
proof -
  from assms obtain xs where xs: "holds c xs" "set xs = dom (elems c)" and m: "m = conds_map c" by (auto simp: represents_map_def)
  have a: "a \<in> set xs" "distinct xs" using assms(2) xs by (auto simp: m conds_map_def holds_def)
  from delete_ok [OF xs(1) a(1)] obtain c' where c': "HASH_DELETE_HH a c = Some c'" "holds c' (remove1 a xs)" "dom (elems c') = dom (elems c)"
    "key_of (elems c') = key_of (elems c)" by blast
  have "holds (free_element a c') (remove1 a xs)" unfolding free_element_def
    by (rule holds_elsewhere(1) [OF c'(2)]) (use a(2) in simp)
  moreover have "conds_map c' = conds_map c" using c'(3,4) by (rule conds_map_cong)
  then have "m(a := None) = conds_map (free_element a c')" unfolding m fun_eq_iff by (simp add: free_element_def conds_map_def)
  ultimately have "represents_map (free_element a c') (m(a := None))" unfolding represents_map_def
    using a(2) xs(2) c'(3) by (intro conjI exI [of _ "remove1 a xs"]) (auto simp: free_element_def)
  then show ?thesis using c'(1) by blast
qed

lemma represents_new_free: "represents_map c m \<Longrightarrow> m a = None \<Longrightarrow> represents_map (free_element a (new_element g a k c)) m"
  by (cases c) (auto simp: represents_map_def conds_map_def free_element_def new_element_def fun_upd_idem)

interpretation conds: keyed_elements represents_map "new_element g" free_element HASH_FIND_PTR "HASH_ADD_PTR (\<lambda>n. n < 2 ^ 36 \<and> malloc n)" HASH_DELETE_HH "2 ^ 32 - 1"
  for g malloc
proof
  show "(\<exists>x. HASH_ADD_PTR (\<lambda>n. n < 2 ^ 36 \<and> malloc n) a (new_element g a k s) = Some (Inl x)) \<or>
    (\<exists>s'. HASH_ADD_PTR (\<lambda>n. n < 2 ^ 36 \<and> malloc n) a (new_element g a k s) = Some (Inr s') \<and> represents_map s' (m(a \<mapsto> k)))"
    if "represents_map s m" "m a = None" "card (dom m) < 2 ^ 32 - 1" for s m a k
    using represents_add [OF that(1,2) _ that(3), of "\<lambda>n. n < 2 ^ 36 \<and> malloc n"] by (auto simp: bounded_memory_def)
qed (erule represents_find, erule (1) represents_new_free, erule (1) represents_del)

lemma bounded_memory_eq: "bounded_memory malloc \<Longrightarrow> (\<lambda>n. n < 2 ^ 36 \<and> malloc n) = malloc"
  by (auto simp: bounded_memory_def fun_eq_iff not_le)

section \<open>Properties\<close>

text \<open>
  Runs of additions and deletions, with the map from elements to keys that they stand for. The memory allocator gives an element an address that is
  not in use, with any contents; it may refuse any block of the table, and refuses blocks of 64 gigabytes. There are
  fewer than \<open>2 ^ 32 - 1\<close> elements.
\<close>

inductive table_run :: "conds_state \<Rightarrow> (addr \<rightharpoonup> 64 word) \<Rightarrow> bool" where
  empty: "table_run empty_conds Map.empty"
| add: "table_run c m \<Longrightarrow> m a = None \<Longrightarrow> bounded_memory malloc \<Longrightarrow> card (dom m) < 2 ^ 32 - 1 \<Longrightarrow>
    HASH_ADD_PTR malloc a (new_element garbage a k c) = Some (Inr c') \<Longrightarrow> table_run c' (m(a \<mapsto> k))"
| del: "table_run c m \<Longrightarrow> m a \<noteq> None \<Longrightarrow> HASH_DELETE_HH a c = Some c' \<Longrightarrow> table_run (free_element a c') (m(a := None))"

lemma table_run_represents: "table_run c m \<Longrightarrow> represents_map c m"
proof (induction rule: table_run.induct)
  case (add c m a malloc garbage k c')
  then show ?case using represents_add [OF add.IH add.hyps(2-4), of garbage k] by (auto simp del: fun_upd_apply)
next
  case (del c m a c')
  then obtain k where "m a = Some k" by blast
  from represents_del [OF del.IH this] del.hyps(3) show ?case by (auto simp del: fun_upd_apply)
qed (rule represents_empty)

text \<open>
  Claim C35.
  The hash table of \<^verbatim>\<open>uthash.h\<close> refines a map. After any additions and deletions, however the hash values collide and however often
  the buckets were expanded: a search ends and finds an element with the key exactly when there is one; an addition ends without leaving the allocated memory and
  fails only when it was refused memory; a deletion ends; and the integrity check \<^verbatim>\<open>HASH_FSCK\<close> finds nothing to report.
\<close>

theorem hash_table_refines_map:
  assumes "table_run c m"
  shows "(\<exists>r. HASH_FIND_PTR c k = Some r \<and> (\<forall>a. r = Some a \<longrightarrow> m a = Some k) \<and> (r = NULL \<longrightarrow> k \<notin> ran m)) \<and>
    (m a = None \<and> bounded_memory malloc \<and> card (dom m) < 2 ^ 32 - 1 \<longrightarrow>
       (HASH_ADD_PTR malloc a (new_element garbage a k c) = Some (Inl uthash_fatal) \<and> (\<exists>n\<in>block_sizes c. \<not> malloc n)) \<or>
       (\<exists>c'. HASH_ADD_PTR malloc a (new_element garbage a k c) = Some (Inr c') \<and> table_run c' (m(a \<mapsto> k)))) \<and>
    (m a \<noteq> None \<longrightarrow> (\<exists>c'. HASH_DELETE_HH a c = Some c' \<and> table_run (free_element a c') (m(a := None)))) \<and>
    HASH_FSCK c = Some True"
proof -
  have r: "represents_map c m" using assms by (rule table_run_represents)
  then have "HASH_FSCK c = Some True" using fsck_ok by (auto simp: represents_map_def)
  moreover have "\<exists>c'. HASH_DELETE_HH a c = Some c' \<and> table_run (free_element a c') (m(a := None))" if "m a \<noteq> None"
    using represents_del [OF r] table_run.del [OF assms that] that by blast
  moreover have "(HASH_ADD_PTR malloc a (new_element garbage a k c) = Some (Inl uthash_fatal) \<and> (\<exists>n\<in>block_sizes c. \<not> malloc n)) \<or>
       (\<exists>c'. HASH_ADD_PTR malloc a (new_element garbage a k c) = Some (Inr c') \<and> table_run c' (m(a \<mapsto> k)))"
    if "m a = None" "bounded_memory malloc" "card (dom m) < 2 ^ 32 - 1"
    using represents_add [OF r that, of garbage k] table_run.add [OF assms that] by blast
  ultimately show ?thesis using represents_find [OF r, of k] by blast
qed

text \<open>Memory as the allocator may find it.\<close>

definition sample_handle :: UT_hash_handle where
  "sample_handle = \<lparr>prev_elt = Some 7, next_elt = NULL, hh_prev = Some 7, hh_next = Some 9, hh_key = NULL, keylen = 0, hashv = 5\<rparr>"

theorem hash_table_refines_map_witness:
  "\<exists>c. HASH_ADD_PTR (\<lambda>n. n < 2 ^ 36) 1 (new_element sample_handle 1 0x7ffe12345678 empty_conds) = Some (Inr c) \<and>
     HASH_FIND_PTR c 0x7ffe12345678 = Some (Some 1) \<and> HASH_FIND_PTR c 0x7ffe12345680 = Some NULL \<and> HASH_FSCK c = Some True \<and>
     (\<exists>c'. HASH_DELETE_HH 1 c = Some c')"
proof -
  let ?malloc = "\<lambda>n. n < (2::nat) ^ 36" and ?m = "[1 \<mapsto> 0x7ffe12345678] :: addr \<rightharpoonup> 64 word"
  have mem: "bounded_memory ?malloc" by (simp add: bounded_memory_def)
  have few: "card (dom (Map.empty :: addr \<rightharpoonup> 64 word)) < 2 ^ 32 - 1" by simp
  have "\<forall>n\<in>block_sizes empty_conds. ?malloc n" by (simp add: block_sizes_def empty_conds_def)
  then obtain c where c: "HASH_ADD_PTR ?malloc 1 (new_element sample_handle 1 0x7ffe12345678 empty_conds) = Some (Inr c)" "table_run c ?m"
    using hash_table_refines_map [OF table_run.empty, where malloc = ?malloc and a = 1 and k = "0x7ffe12345678" and garbage = sample_handle] mem few by blast
  have f: "\<exists>r. HASH_FIND_PTR c k = Some r \<and> (\<forall>a. r = Some a \<longrightarrow> ?m a = Some k) \<and> (r = NULL \<longrightarrow> k \<notin> ran ?m)" for k
    using hash_table_refines_map [OF c(2), where k = k] by blast
  have "ran ?m = {0x7ffe12345678}" by simp
  then have "HASH_FIND_PTR c 0x7ffe12345678 = Some (Some 1)" using f [of "0x7ffe12345678"] by (auto split: if_splits)
  moreover obtain r where "HASH_FIND_PTR c 0x7ffe12345680 = Some r" "\<forall>a. r = Some a \<longrightarrow> ?m a = Some 0x7ffe12345680" using f by blast
  then have "HASH_FIND_PTR c 0x7ffe12345680 = Some NULL" by (cases r) (auto split: if_splits)
  moreover have "HASH_FSCK c = Some True" using hash_table_refines_map [OF c(2)] by blast
  moreover have "\<exists>c'. HASH_DELETE_HH 1 c = Some c'" using hash_table_refines_map [OF c(2), where a = 1] by auto
  ultimately show ?thesis using c(1) by blast
qed

end
