(* ===== verification/Pthread_Cond.thy ===== *)
theory Pthread_Cond
  imports Timers Uthash_Correct
begin

text \<open>
  Timed waits on condition variables of \<^verbatim>\<open>src/src/libfaketime.c\<close>: the set of condition variables that use the monotonic clock, with
  \<^verbatim>\<open>pthread_cond_init\<close> and \<^verbatim>\<open>pthread_cond_destroy\<close>, and \<^verbatim>\<open>pthread_cond_timedwait\<close>. The hash table \<^verbatim>\<open>monotonic_conds\<close> is that of
  the theory \<open>Uthash\<close>. The outcomes of the calls of the C library are arguments.
\<close>

section \<open>Condition variables on the monotonic clock\<close>

type_synonym monotonic_conds = conds_state

text \<open>
  What the calls inside \<^verbatim>\<open>pthread_cond_init\<close> and \<^verbatim>\<open>pthread_cond_destroy\<close> give; \<^verbatim>\<open>malloc\<close> for an element gives an address and what the memory
  there held before.
\<close>

record cond_calls =
  real_result :: int
  getclock_result :: int
  attr_clock :: int
  malloc_result :: "(addr \<times> UT_hash_handle) option"
  table_malloc :: allocator
  rwlock_result :: int
  rwunlock_result :: int

abbreviation (input) ENOMEM :: int where "ENOMEM \<equiv> 12"

text \<open>A computation that leaves the allocated memory does not return.\<close>

definition no_fault :: "'a option \<Rightarrow> 'a exitable" where
  "no_fault r = (case r of None \<Rightarrow> Inl (Exit (- 1) ''memory fault'') | Some x \<Rightarrow> Inr x)"

text \<open>The result, the table, and whether the real condition variable was destroyed again.\<close>

definition pthread_cond_init_232 ::
  "cond_calls \<Rightarrow> 64 word \<Rightarrow> bool \<Rightarrow> monotonic_conds \<Rightarrow> ft_state \<Rightarrow> ((int \<times> monotonic_conds \<times> bool) \<times> ft_state) exitable" where
  "pthread_cond_init_232 c cond has_attr conds s =
    exit_bind (ftpl_ready s) (\<lambda>s.
      case check_missing_real ''pthread_cond_init_232'' s of (ok, s) \<Rightarrow>
      if \<not> ok then Inr ((- 1, conds, False), s)
      else if real_result c \<noteq> 0 \<or> \<not> has_attr then Inr ((real_result c, conds, False), s)
      else if getclock_result c \<noteq> 0 then Inr ((getclock_result c, conds, False), s)
      else if attr_clock c = CLOCK_MONOTONIC then
        (case malloc_result c of
           None \<Rightarrow> Inr ((ENOMEM, conds, True), s)
         | Some (e, garbage) \<Rightarrow>
             let conds = new_element garbage e cond conds
             in if rwlock_result c \<noteq> 0 then Inr ((rwlock_result c, free_element e conds, True), s)
                else exit_bind (no_fault (HASH_ADD_PTR (table_malloc c) e conds)) (\<lambda>added. exit_bind added (\<lambda>conds.
                  if rwunlock_result c \<noteq> 0 then
                    exit_bind (no_fault (HASH_DELETE_HH e conds)) (\<lambda>conds. Inr ((rwunlock_result c, free_element e conds, True), s))
                  else Inr ((rwunlock_result c, conds, False), s))))
      else Inr ((getclock_result c, conds, False), s))"

definition pthread_cond_destroy_232 :: "cond_calls \<Rightarrow> 64 word \<Rightarrow> monotonic_conds \<Rightarrow> ft_state \<Rightarrow> ((int \<times> monotonic_conds) \<times> ft_state) exitable" where
  "pthread_cond_destroy_232 c cond conds s =
    exit_bind (ftpl_ready s) (\<lambda>s.
      if real_result c \<noteq> 0 then Inr ((real_result c, conds), s)
      else if rwlock_result c \<noteq> 0 then Inr ((rwlock_result c, conds), s)
      else exit_bind (no_fault (HASH_FIND_PTR conds cond)) (\<lambda>found.
        case found of
          None \<Rightarrow> Inr ((rwunlock_result c, conds), s)
        | Some e \<Rightarrow> exit_bind (no_fault (HASH_DELETE_HH e conds)) (\<lambda>conds. Inr ((rwunlock_result c, free_element e conds), s))))"

section \<open>\<^verbatim>\<open>pthread_cond_timedwait\<close>\<close>

text \<open>
  The decision about the fix for the monotonic clock, with the version of glibc as an argument. On Linux
  the last alternative applies with glibc, too.
\<close>

definition needs_forced_monotonic_fix :: "int \<Rightarrow> int \<Rightarrow> ft_state \<Rightarrow> bool" where
  "needs_forced_monotonic_fix glibc_major glibc_minor s =
    (case getenv ''FAKETIME_FORCE_MONOTONIC_FIX'' s of
       Some env_var \<Rightarrow> \<not> str_prefix ''0'' env_var
     | None \<Rightarrow> if glibc_major = 2 \<and> (glibc_minor \<le> 24 \<or> glibc_minor \<ge> 30) then True else True)"

text \<open>The time to wait, in real time, or the error code returned; the second reading of the clock replaces the first.\<close>

definition cond_difference ::
  "int \<Rightarrow> timespec \<Rightarrow> timespec \<Rightarrow> timespec \<Rightarrow> ft_state \<Rightarrow> ((int + timespec \<times> timespec) \<times> ft_state) exitable" where
  "cond_difference clk_id abstime realtime faketime s =
    (case getenv ''FAKETIME_WAIT_MS'' s of
       Some tmp_env \<Rightarrow>
         exit_bind (parse_nonnegative_long_setting ''FAKETIME_WAIT_MS'' tmp_env) (\<lambda>n.
           let wait_ms = wrap_s32 n
           in case real_clock_gettime clk_id realtime s of ((result, realtime), s) \<Rightarrow>
              if result = - 1 then Inr (Inl EINVAL, s)
              else Inr (Inr (realtime, \<lparr>tv_sec = wait_ms sdiv 1000, tv_nsec = (wait_ms smod 1000) * 1000000\<rparr>), s))
     | None \<Rightarrow>
         if fake_monotonic_clock s = 0 \<and> clk_id = CLOCK_MONOTONIC then
           (case real_clock_gettime CLOCK_MONOTONIC \<lparr>tv_sec = 0, tv_nsec = 0\<rparr> s of ((result, current_monotonic), s) \<Rightarrow>
              if result = - 1 then Inr (Inl (- 1), s)
              else Inr (Inr (realtime, scale_down (timespecsub abstime current_monotonic) s), s))
         else Inr (Inr (realtime, scale_down (timespecsub abstime faketime) s), s))"

definition cond_deadline ::
  "int \<Rightarrow> int \<Rightarrow> int \<Rightarrow> timespec \<Rightarrow> timespec \<Rightarrow> timespec \<Rightarrow> ft_state \<Rightarrow> (int + timespec) \<times> ft_state" where
  "cond_deadline glibc_major glibc_minor clk_id realtime faketime tdiff_actual s =
    (if clk_id = CLOCK_MONOTONIC then
       (if fake_monotonic_clock s = 0 then
          (case real_clock_gettime CLOCK_MONOTONIC \<lparr>tv_sec = 0, tv_nsec = 0\<rparr> s of ((result, current_monotonic), s) \<Rightarrow>
             if result = - 1 then (Inl (- 1), s) else (Inr (timespecadd current_monotonic tdiff_actual), s))
        else if needs_forced_monotonic_fix glibc_major glibc_minor s then (Inr (timespecadd realtime tdiff_actual), s)
        else (Inr (timespecadd faketime tdiff_actual), s))
     else (Inr (timespecadd realtime tdiff_actual), s))"

datatype ft_lib_compat_pthread = FT_COMPAT_GLIBC_2_2_5 | FT_COMPAT_GLIBC_2_3_2

text \<open>The outcomes of the calls of the C library inside, and the version of glibc.\<close>

record timedwait_calls =
  rdlock_result :: int
  rdunlock_result :: int
  glibc_version :: "int \<times> int"
  real_timedwait :: "ft_lib_compat_pthread \<Rightarrow> timespec option \<Rightarrow> int"

definition pthread_cond_timedwait_common ::
  "timedwait_calls \<Rightarrow> ft_lib_compat_pthread \<Rightarrow> monotonic_conds \<Rightarrow> 64 word \<Rightarrow> timespec option \<Rightarrow> ft_state \<Rightarrow>
    ((int \<times> timespec option option) \<times> ft_state) exitable" where
  "pthread_cond_timedwait_common c mode conds cond abstime s =
    exit_bind (ftpl_ready s) (\<lambda>s.
      case abstime of
        None \<Rightarrow> Inr ((real_timedwait c mode None, Some None), s)
      | Some abstime \<Rightarrow>
          if rdlock_result c \<noteq> 0 then Inr ((rdlock_result c, None), s)
          else exit_bind (no_fault (HASH_FIND_PTR conds cond)) (\<lambda>e.
            if rdunlock_result c \<noteq> 0 then Inr ((rdunlock_result c, None), s)
            else let clk_id = (if e \<noteq> NULL then CLOCK_MONOTONIC else CLOCK_REALTIME)
            in case real_clock_gettime clk_id \<lparr>tv_sec = 0, tv_nsec = 0\<rparr> s of ((result, realtime), s) \<Rightarrow>
               if result = - 1 then Inr ((EINVAL, None), s)
               else exit_bind (fake_clock_gettime clk_id realtime s) (\<lambda>((_, faketime), s).
                 exit_bind (cond_difference clk_id abstime realtime faketime s) (\<lambda>(d, s).
                   case d of
                     Inl err \<Rightarrow> Inr ((err, None), s)
                   | Inr (realtime, tdiff_actual) \<Rightarrow>
                      (case cond_deadline (fst (glibc_version c)) (snd (glibc_version c)) clk_id realtime faketime tdiff_actual s of
                         (Inl err, s) \<Rightarrow> Inr ((err, None), s)
                       | (Inr tp, s) \<Rightarrow> Inr ((real_timedwait c mode (Some tp), Some (Some tp)), s))))))"

definition pthread_cond_timedwait_225 ::
  "timedwait_calls \<Rightarrow> monotonic_conds \<Rightarrow> 64 word \<Rightarrow> timespec option \<Rightarrow> ft_state \<Rightarrow> ((int \<times> timespec option option) \<times> ft_state) exitable" where
  "pthread_cond_timedwait_225 c = pthread_cond_timedwait_common c FT_COMPAT_GLIBC_2_2_5"

definition pthread_cond_timedwait_232 ::
  "timedwait_calls \<Rightarrow> monotonic_conds \<Rightarrow> 64 word \<Rightarrow> timespec option \<Rightarrow> ft_state \<Rightarrow> ((int \<times> timespec option option) \<times> ft_state) exitable" where
  "pthread_cond_timedwait_232 c = pthread_cond_timedwait_common c FT_COMPAT_GLIBC_2_3_2"

section \<open>Lemmas\<close>

text \<open>The time left on a faked clock, counted from the present reading of the real one, ends at the real deadline.\<close>

lemma remaining_time_total:
  assumes "modest now" "modest_deadline clk T s" "\<not> user_rate_set s"
  shows "ts_total (timespecadd now (timespecsub T (running_time clk s now))) = ts_total (real_deadline clk T s)"
proof -
  let ?st = "start_of_clock clk (ftpl_starttime s)" and ?b = "user_faked_time_timespec s" and ?n = "running_time clk s now"
  have m: "modest T" "modest ?b" "modest ?st" using assms(2) by (simp_all add: modest_deadline_def)
  note b = m [THEN modest_bounds] modest_bounds [OF assms(1)]
  have n: "ts_normal T" "ts_normal ?b" "ts_normal ?st" "ts_normal now" using m assms(1) by (simp_all add: modest_def)
  have nn: "ts_normal ?n" by (rule running_time_normal) (use n in simp_all)
  have nt: "ts_total ?n = ts_total ?b + (ts_total now - ts_total ?st)" using running_time_modest [OF assms(1) m(3,2) assms(3)] .
  have c: "clamp_total SEC_TO_nSEC (ts_total T - ts_total ?n) = ts_total T - ts_total ?n"
    "clamp_total SEC_TO_nSEC (ts_total now + (ts_total T - ts_total ?n)) = ts_total now + (ts_total T - ts_total ?n)"
    by (rule clamp_id, use b nt in \<open>simp_all add: SEC_TO_nSEC_def\<close>)+
  note sub = timespecsub_total [OF n(1) nn]
  show ?thesis using timespecadd_total [OF n(4) sub(1)] sub(2) c real_deadline_total [OF assms(2,3)] nt by simp
qed

lemma clock_frame_env: "clock_frame s s' \<Longrightarrow> getenv v s' = getenv v s"
  by (cases s; cases s'; simp add: clock_frame_def erase_clock_def getenv_def)

lemma needs_fix_default: "getenv ''FAKETIME_FORCE_MONOTONIC_FIX'' s = None \<Longrightarrow> needs_forced_monotonic_fix major minor s"
  by (simp add: needs_forced_monotonic_fix_def)

lemma cond_timedwait_running:
  assumes "ftpl_init_state s = FT_INIT_READY" "steady s" "lock_works s" "ft_mode s = FT_START_AT" "\<not> user_per_tick_inc_set s" "\<not> user_rate_set s"
    and "rdlock_result c = 0" "rdunlock_result c = 0"
    and "getenv ''FAKETIME_WAIT_MS'' s = None" "getenv ''FAKETIME_FORCE_MONOTONIC_FIX'' s = None"
    and "clk = (if e \<noteq> NULL then CLOCK_MONOTONIC else CLOCK_REALTIME)" "mono_faked s"
    and "clk_read s (clk_count s) clk = Some now" "modest now" "modest_deadline clk T s"
    and "HASH_FIND_PTR conds cond = Some e"
  shows "\<exists>d s'. pthread_cond_timedwait_common c mode conds cond (Some T) s = Inr ((real_timedwait c mode (Some d), Some (Some d)), s') \<and>
    ts_total d = ts_total (real_deadline clk T s)"
proof -
  let ?s = "s\<lparr>clk_count := Suc (clk_count s)\<rparr>" and ?n = "running_time clk s now"
  have st: "steady ?s" "lock_works ?s" using assms(2,3) by (simp_all add: steady_def lock_works_def getenv_def)
  have clk: "clk = CLOCK_MONOTONIC \<or> clk = CLOCK_REALTIME" using assms(11) by simp
  have r: "running_time clk ?s = running_time clk s" by (rule running_time_frame) (simp add: clock_frame_def erase_clock_def lock_works_def)
  obtain s' where f: "fake_clock_gettime clk now ?s = Inr ((0, ?n), s')" and fr: "clock_frame ?s s'"
    using fake_clock_running [OF st, of clk now] clk assms(4,5,14,15) unfolding r by (auto simp: modest_deadline_def modest_def)
  have fl: "\<not> user_rate_set s'" "getenv v s' = getenv v s" for v
    using clock_frame_fields [OF fr] clock_frame_env [OF fr, of v] assms(6) by (simp_all add: getenv_def)
  have "mono_faked s'" using fr assms(12) by (simp add: clock_frame_def)
  then have fm: "fake_monotonic_clock s' \<noteq> 0" by (simp add: mono_faked_def)
  have dif: "cond_difference clk T now ?n s' = Inr (Inr (now, timespecsub T ?n), s')"
    using fm fl assms(9) by (simp add: cond_difference_def scale_down_def)
  have dl: "cond_deadline j k clk now ?n x s' = (Inr (timespecadd now x), s')" for j k x
    using fm fl assms(10) by (simp add: cond_deadline_def needs_fix_default)
  have rd: "real_clock_gettime clk \<lparr>tv_sec = 0, tv_nsec = 0\<rparr> s = ((0, now), ?s)" using assms(13) by (simp add: real_clock_gettime_def)
  have "pthread_cond_timedwait_common c mode conds cond (Some T) s =
      Inr ((real_timedwait c mode (Some (timespecadd now (timespecsub T ?n))), Some (Some (timespecadd now (timespecsub T ?n)))), s')"
    using assms(1,7,8,11,16) f dif dl rd unfolding pthread_cond_timedwait_common_def by (cases e) (simp_all add: Let_def no_fault_def)
  with remaining_time_total [OF assms(14,15,6)] show ?thesis by blast
qed

subsection \<open>Which condition variables use the monotonic clock\<close>

datatype cond_event = Cond_Init cond_calls "64 word" bool | Cond_Destroy cond_calls "64 word"

text \<open>
  Runs of initialisations and destructions, with their results, latest first. A program initialises a condition variable only
  when it is not in use, and the memory allocator gives addresses that are not in use and no block of 64 gigabytes. There are fewer
  than \<open>2 ^ 32 - 1\<close> of them.
\<close>

fun live_monotonic :: "(cond_event \<times> int) list \<Rightarrow> 64 word set" where
  "live_monotonic [] = {}"
| "live_monotonic ((Cond_Init c cond has_attr, r) # es) =
    (if r = 0 \<and> has_attr \<and> attr_clock c = CLOCK_MONOTONIC then insert cond (live_monotonic es) else live_monotonic es)"
| "live_monotonic ((Cond_Destroy c cond, r) # es) =
    (if real_result c = 0 \<and> rwlock_result c = 0 then live_monotonic es - {cond} else live_monotonic es)"

definition sound_allocation :: "cond_calls \<Rightarrow> monotonic_conds \<Rightarrow> bool" where
  "sound_allocation c conds \<longleftrightarrow> (\<forall>a g. malloc_result c = Some (a, g) \<longrightarrow> a \<notin> dom (elems conds)) \<and> bounded_memory (table_malloc c) \<and>
     card (dom (elems conds)) < 2 ^ 32 - 1"

inductive cond_run :: "(cond_event \<times> int) list \<Rightarrow> monotonic_conds \<Rightarrow> ft_state \<Rightarrow> bool" where
  start: "ftpl_init_state s = FT_INIT_READY \<Longrightarrow> cond_run [] empty_conds s"
| init: "cond_run es conds s \<Longrightarrow> cond \<notin> live_monotonic es \<Longrightarrow> sound_allocation c conds \<Longrightarrow>
    pthread_cond_init_232 c cond has_attr conds s = Inr ((r, conds', d), s') \<Longrightarrow> cond_run ((Cond_Init c cond has_attr, r) # es) conds' s'"
| destroy: "cond_run es conds s \<Longrightarrow>
    pthread_cond_destroy_232 c cond conds s = Inr ((r, conds'), s') \<Longrightarrow> cond_run ((Cond_Destroy c cond, r) # es) conds' s'"

inductive_cases cond_run_ConsE: "cond_run (e # es) conds s"

text \<open>The table of condition variables: a map from its elements to their condition variables, each of which has one element.\<close>

definition table_of :: "monotonic_conds \<Rightarrow> 64 word set \<Rightarrow> bool" where
  "table_of conds A \<longleftrightarrow> represents_map conds (conds_map conds) \<and> conds.each_once (conds_map conds) \<and> ran (conds_map conds) = A"

lemma represents_self: "represents_map c m \<Longrightarrow> m = conds_map c"
  by (simp add: represents_map_def)

lemma table_of_add:
  assumes "table_of conds A" "p \<notin> A" "sound_allocation c conds" "malloc_result c = Some (a, g)"
  shows "table_of (free_element a (new_element g a p conds)) A"
    "HASH_ADD_PTR (table_malloc c) a (new_element g a p conds) = Some (Inl uthash_fatal) \<or>
     (\<exists>t1 t2. HASH_ADD_PTR (table_malloc c) a (new_element g a p conds) = Some (Inr t1) \<and> table_of t1 (insert p A) \<and>
        HASH_DELETE_HH a t1 = Some t2 \<and> table_of (free_element a t2) A)"
proof -
  let ?m = "conds_map conds"
  have r: "represents_map conds ?m" "conds.each_once ?m" "ran ?m = A" using assms(1) by (simp_all add: table_of_def)
  have "dom ?m = dom (elems conds)" by (auto simp: conds_map_def)
  then have a: "?m a = None" "bounded_memory (table_malloc c)" "card (dom ?m) < 2 ^ 32 - 1"
    using assms(3,4) by (auto simp: sound_allocation_def conds_map_def)
  have unchanged: "table_of c' A" if "represents_map c' ?m" for c' using that r(2,3) represents_self [OF that] by (simp add: table_of_def)
  show "table_of (free_element a (new_element g a p conds)) A" using conds.new_free_law [OF r(1) a(1)] by (rule unchanged)
  show "HASH_ADD_PTR (table_malloc c) a (new_element g a p conds) = Some (Inl uthash_fatal) \<or>
     (\<exists>t1 t2. HASH_ADD_PTR (table_malloc c) a (new_element g a p conds) = Some (Inr t1) \<and> table_of t1 (insert p A) \<and>
        HASH_DELETE_HH a t1 = Some t2 \<and> table_of (free_element a t2) A)"
  proof (cases "HASH_ADD_PTR (table_malloc c) a (new_element g a p conds) = Some (Inl uthash_fatal)")
    case False
    with represents_add [OF r(1) a] obtain t1 where
      add: "HASH_ADD_PTR (table_malloc c) a (new_element g a p conds) = Some (Inr t1)" and r': "represents_map t1 (?m(a \<mapsto> p))" by blast
    have "table_of t1 (insert p A)" unfolding table_of_def represents_self [OF r', symmetric]
      using r' conds.ran_add [of ?m a p, OF a(1)] conds.each_once_add [OF r(2) a(1)] r(3) assms(2) by (simp del: fun_upd_apply)
    moreover obtain t2 where "HASH_DELETE_HH a t1 = Some t2" "represents_map (free_element a t2) ?m"
      using conds.add_then_del [OF r(1) a(1,3)] add bounded_memory_eq [OF a(2)] by metis
    ultimately show ?thesis using add unchanged by blast
  qed simp
qed

lemma table_of_find:
  assumes "table_of conds A"
  obtains (absent) "HASH_FIND_PTR conds p = Some NULL" "p \<notin> A"
    | (present) e t1 where "HASH_FIND_PTR conds p = Some (Some e)" "p \<in> A" "HASH_DELETE_HH e conds = Some t1"
        "table_of (free_element e t1) (A - {p})"
proof -
  let ?m = "conds_map conds"
  have r: "represents_map conds ?m" "conds.each_once ?m" "ran ?m = A" using assms by (simp_all add: table_of_def)
  show ?thesis
  proof (cases rule: conds.find_cases [OF r(1), of p])
    case 1
    then show ?thesis using absent r(3) by simp
  next
    case (2 e)
    from conds.del_law [OF r(1) 2(2)] obtain t1 where
      d: "HASH_DELETE_HH e conds = Some t1" "represents_map (free_element e t1) (?m(e := None))" by blast
    have "table_of (free_element e t1) (A - {p})" unfolding table_of_def represents_self [OF d(2), symmetric]
      using d(2) conds.each_once_del [OF r(2)] conds.ran_del [OF r(2) 2(2)] r(3) by (simp del: fun_upd_apply)
    then show ?thesis using present 2 d(1) r(3) by simp
  qed
qed

lemma table_of_bij:
  assumes "table_of conds A"
  shows "bij_betw (\<lambda>a. ptr (the (elems conds a))) (dom (elems conds)) A"
proof -
  let ?f = "\<lambda>a. ptr (the (elems conds a))" and ?m = "conds_map conds"
  have m: "?m a = Some (?f a)" if "a \<in> dom (elems conds)" for a using that by (auto simp: conds_map_def)
  have d: "dom ?m = dom (elems conds)" by (auto simp: conds_map_def)
  have "inj_on ?f (dom (elems conds))"
  proof (rule inj_onI)
    fix a b assume "a \<in> dom (elems conds)" "b \<in> dom (elems conds)" "?f a = ?f b"
    then have "?m a = ?m b" using m by simp
    then show "a = b" using assms d \<open>a \<in> _\<close> \<open>b \<in> _\<close> unfolding table_of_def conds.each_once_def by (auto dest: inj_onD)
  qed
  moreover have "ran ?m = ?f ` dom (elems conds)" by (auto simp: ran_def conds_map_def image_iff) (force, blast)
  ultimately show ?thesis using assms by (simp add: bij_betw_def table_of_def)
qed

lemma cond_init_step:
  assumes "pthread_cond_init_232 c cond has_attr conds s = Inr ((r, conds', d), s')" "ftpl_init_state s = FT_INIT_READY"
    and "table_of conds A" "cond \<notin> A" "sound_allocation c conds"
  shows "ftpl_init_state s' = FT_INIT_READY \<and> table_of conds' (if r = 0 \<and> has_attr \<and> attr_clock c = CLOCK_MONOTONIC then insert cond A else A)"
proof (cases "malloc_result c")
  case None
  then show ?thesis using assms by (auto simp: pthread_cond_init_232_def check_missing_real_def split: if_splits)
next
  case (Some ag)
  obtain a g where ag: "ag = (a, g)" by (cases ag)
  note t = table_of_add [OF assms(3-5), of a g] Some [unfolded ag]
  show ?thesis using assms t
    by (auto simp: pthread_cond_init_232_def check_missing_real_def Let_def no_fault_def split: if_splits)
qed

lemma cond_destroy_step:
  assumes "ftpl_init_state s = FT_INIT_READY" "table_of conds A"
  shows "\<exists>r conds' s'. pthread_cond_destroy_232 c cond conds s = Inr ((r, conds'), s') \<and> ftpl_init_state s' = FT_INIT_READY \<and>
    table_of conds' (if real_result c = 0 \<and> rwlock_result c = 0 then A - {cond} else A)"
proof (cases rule: table_of_find [OF assms(2), of cond, case_names absent present])
  case absent
  then have "A - {cond} = A" by simp
  with absent show ?thesis using assms by (auto simp: pthread_cond_destroy_232_def no_fault_def)
next
  case (present e conds')
  then show ?thesis using assms by (auto simp: pthread_cond_destroy_232_def no_fault_def)
qed

lemma cond_run_table:
  assumes "cond_run es conds s"
  shows "ftpl_init_state s = FT_INIT_READY \<and> table_of conds (live_monotonic es)"
  using assms
proof (induction rule: cond_run.induct)
  case (start s)
  have "represents_map empty_conds (conds_map empty_conds)" using represents_empty represents_self by metis
  moreover have "conds_map empty_conds = Map.empty" by (simp add: fun_eq_iff conds_map_def empty_conds_def)
  ultimately show ?case using start by (simp add: table_of_def conds.each_once_def)
next
  case (init es conds s cond c has_attr r conds' d s')
  then show ?case using cond_init_step [OF init.hyps(4), of "live_monotonic es"] by (simp split del: if_split)
next
  case (destroy es conds s c cond r conds' s')
  then show ?case using cond_destroy_step [of s conds "live_monotonic es" c cond] by (auto split: if_splits)
qed

section \<open>Properties\<close>

text \<open>
  Claim C36.
  The table of condition variables refines a set: after any run of \<^verbatim>\<open>pthread_cond_init\<close> and
  \<^verbatim>\<open>pthread_cond_destroy\<close>, with whatever failures of allocation, locks and the real functions, a search in the hash table finds exactly the condition
  variables that were successfully initialised for the monotonic clock and not destroyed since; each of them has one element, and every
  element that is allocated belongs to one of them. Destroying never leaves the allocated memory, and initialising ends the process only
  when the hash table is refused memory.
\<close>

theorem monotonic_conds_refine_set:
  assumes "cond_run es conds s"
  shows "(\<exists>e. HASH_FIND_PTR conds cond = Some e \<and> (e \<noteq> NULL \<longleftrightarrow> cond \<in> live_monotonic es)) \<and>
    bij_betw (\<lambda>a. ptr (the (elems conds a))) (dom (elems conds)) (live_monotonic es) \<and>
    (\<exists>r. pthread_cond_destroy_232 c cond conds s = Inr r) \<and>
    (cond \<notin> live_monotonic es \<and> sound_allocation c conds \<longrightarrow>
       (\<forall>x. pthread_cond_init_232 c cond has_attr conds s = Inl x \<longrightarrow> x = uthash_fatal))"
proof -
  let ?A = "live_monotonic es"
  have s: "ftpl_init_state s = FT_INIT_READY" and t: "table_of conds ?A" using cond_run_table [OF assms] by simp_all
  have "\<exists>e. HASH_FIND_PTR conds cond = Some e \<and> (e \<noteq> NULL \<longleftrightarrow> cond \<in> ?A)"
    by (cases rule: table_of_find [OF t, of cond]) auto
  moreover have "bij_betw (\<lambda>a. ptr (the (elems conds a))) (dom (elems conds)) ?A"
    using table_of_bij [OF t] .
  moreover have "\<exists>r. pthread_cond_destroy_232 c cond conds s = Inr r" using cond_destroy_step [OF s t] by blast
  moreover have "x = uthash_fatal"
    if "cond \<notin> ?A" "sound_allocation c conds" "pthread_cond_init_232 c cond has_attr conds s = Inl x" for x
  proof (cases "malloc_result c")
    case None
    then show ?thesis using that s by (auto simp: pthread_cond_init_232_def check_missing_real_def split: if_splits)
  next
    case (Some ag)
    obtain a g where ag: "ag = (a, g)" by (cases ag)
    show ?thesis using that s Some table_of_add(2) [OF t that(1,2) Some [unfolded ag]] unfolding ag
      by (auto simp: pthread_cond_init_232_def check_missing_real_def Let_def no_fault_def split: if_splits)
  qed
  ultimately show ?thesis by blast
qed

text \<open>One condition variable, for examples.\<close>

definition sample_calls :: cond_calls where
  "sample_calls = \<lparr>real_result = 0, getclock_result = 0, attr_clock = CLOCK_MONOTONIC, malloc_result = Some (1, sample_handle),
     table_malloc = (\<lambda>n. n < 2 ^ 36), rwlock_result = 0, rwunlock_result = 0\<rparr>"

lemma sample_cond_run: "\<exists>conds. cond_run [(Cond_Init sample_calls 77 True, 0)] conds sample_ready"
proof -
  let ?malloc = "\<lambda>n. n < (2::nat) ^ 36"
  have b: "bounded_memory ?malloc" by (simp add: bounded_memory_def)
  have "\<forall>n\<in>block_sizes empty_conds. ?malloc n" by (simp add: block_sizes_def empty_conds_def)
  then obtain conds where "HASH_ADD_PTR ?malloc 1 (new_element sample_handle 1 77 empty_conds) = Some (Inr conds)"
    using represents_add [OF represents_empty _ b, of 1 sample_handle 77] by (auto simp: card_0_eq)
  then have "pthread_cond_init_232 sample_calls 77 True empty_conds sample_ready = Inr ((0, conds, False), sample_ready)"
    by (simp add: pthread_cond_init_232_def check_missing_real_def sample_ready_props sample_calls_def no_fault_def Let_def)
  moreover have "sound_allocation sample_calls empty_conds"
    using b by (simp add: sound_allocation_def sample_calls_def empty_conds_def)
  ultimately show ?thesis using cond_run.init [OF cond_run.start, of sample_ready 77 sample_calls True 0 conds False sample_ready]
    by (auto simp: sample_ready_props)
qed

theorem monotonic_conds_refine_set_witness:
  "\<exists>conds e. cond_run [(Cond_Init sample_calls 77 True, 0)] conds sample_ready \<and> HASH_FIND_PTR conds 77 = Some (Some e) \<and>
     HASH_FIND_PTR conds 78 = Some NULL"
proof -
  obtain conds where r: "cond_run [(Cond_Init sample_calls 77 True, 0)] conds sample_ready" using sample_cond_run by blast
  have l: "live_monotonic [(Cond_Init sample_calls 77 True, 0)] = {77}" by (simp add: sample_calls_def)
  obtain e where "HASH_FIND_PTR conds 77 = Some e" "e \<noteq> NULL" using monotonic_conds_refine_set [OF r, where cond = 77] unfolding l by auto
  moreover have "HASH_FIND_PTR conds 78 = Some NULL" using monotonic_conds_refine_set [OF r, where cond = 78] unfolding l by auto
  ultimately show ?thesis using r by auto
qed

text \<open>
  Claim C34.
  A timed wait on a condition variable ends when the faked clock says so: without a rate, the deadline passed to the real
  \<^verbatim>\<open>pthread_cond_timedwait\<close> is reached by the real clock of that condition variable (the monotonic one exactly when it was
  initialised with it, which the search in the hash table finds out) at the moment the faked clock reaches the requested deadline.
\<close>

theorem cond_timedwait_expires:
  assumes "ftpl_init_state s = FT_INIT_READY" "steady s" "lock_works s" "ft_mode s = FT_START_AT" "\<not> user_per_tick_inc_set s" "\<not> user_rate_set s"
    and "rdlock_result c = 0" "rdunlock_result c = 0"
    and "getenv ''FAKETIME_WAIT_MS'' s = None" "getenv ''FAKETIME_FORCE_MONOTONIC_FIX'' s = None"
    and "cond_run es conds s0" "clk = (if cond \<in> live_monotonic es then CLOCK_MONOTONIC else CLOCK_REALTIME)" "mono_faked s"
    and "clk_read s (clk_count s) clk = Some now" "modest now" "modest_deadline clk T s"
  shows "\<exists>d s'. pthread_cond_timedwait_232 c conds cond (Some T) s =
      Inr ((real_timedwait c FT_COMPAT_GLIBC_2_3_2 (Some d), Some (Some d)), s') \<and>
    (\<forall>t. modest t \<longrightarrow> ts_total d \<le> ts_total t \<longleftrightarrow> ts_total T \<le> ts_total (running_time clk s t))"
proof -
  have "table_of conds (live_monotonic es)" using cond_run_table [OF assms(11)] by simp
  then obtain e where e: "HASH_FIND_PTR conds cond = Some e" "e \<noteq> NULL \<longleftrightarrow> cond \<in> live_monotonic es"
    by (cases rule: table_of_find [of conds _ cond]) auto
  then have clk: "clk = (if e \<noteq> NULL then CLOCK_MONOTONIC else CLOCK_REALTIME)" using assms(12) by simp
  show ?thesis
    using cond_timedwait_running [OF assms(1-10) clk assms(13-16) e(1), of FT_COMPAT_GLIBC_2_3_2] real_deadline_reached [OF assms(16,6)]
    by (fastforce simp: pthread_cond_timedwait_232_def)
qed

theorem cond_timedwait_expires_witness:
  "\<exists>conds d s'. cond_run [(Cond_Init sample_calls 77 True, 0)] conds sample_ready \<and>
    pthread_cond_timedwait_232 \<lparr>rdlock_result = 0, rdunlock_result = 0, glibc_version = (2, 36), real_timedwait = \<lambda>_ _. 110\<rparr> conds 77
      (Some \<lparr>tv_sec = 1105, tv_nsec = 0\<rparr>) (sample_ready\<lparr>user_rate_set := False, user_rate := Fin 1\<rparr>) = Inr ((110, Some (Some d)), s')"
proof -
  let ?s = "sample_ready\<lparr>user_rate_set := False, user_rate := Fin 1\<rparr>"
  let ?c = "\<lparr>rdlock_result = 0, rdunlock_result = 0, glibc_version = (2, 36), real_timedwait = \<lambda>_ _. 110\<rparr>"
  have a: "ftpl_init_state ?s = FT_INIT_READY" "steady ?s" "lock_works ?s" "ft_mode ?s = FT_START_AT" "\<not> user_per_tick_inc_set ?s" "\<not> user_rate_set ?s"
    by (simp_all add: sample_ready_def sample_running_def static_defs steady_def lock_works_def getenv_def)
  have b: "rdlock_result ?c = 0" "rdunlock_result ?c = 0" "getenv ''FAKETIME_WAIT_MS'' ?s = None" "getenv ''FAKETIME_FORCE_MONOTONIC_FIX'' ?s = None"
    by (simp_all add: sample_ready_def sample_running_def static_defs getenv_def)
  obtain conds where r: "cond_run [(Cond_Init sample_calls 77 True, 0)] conds sample_ready" using sample_cond_run by blast
  have k: "CLOCK_MONOTONIC = (if 77 \<in> live_monotonic [(Cond_Init sample_calls 77 True, 0)] then CLOCK_MONOTONIC else CLOCK_REALTIME)"
    by (simp add: sample_calls_def)
  have m: "mono_faked ?s" "clk_read ?s (clk_count ?s) CLOCK_MONOTONIC = Some \<lparr>tv_sec = 1000, tv_nsec = 0\<rparr>" "modest \<lparr>tv_sec = 1000, tv_nsec = 0\<rparr>"
    by (simp_all add: sample_ready_def sample_running_def static_defs getenv_def mono_faked_def get_fake_monotonic_setting_def
        sample_ready_props modest_def normal_def in_s64_def SEC_TO_nSEC_def)
  show ?thesis using r cond_timedwait_expires [OF a b r k m sample_deadline(2)] by fastforce
qed

section \<open>Deviations\<close>

text \<open>
  The version test of \<^verbatim>\<open>needs_forced_monotonic_fix\<close> has no effect: on Linux the answer is yes for every version of glibc, unless the
  environment variable says otherwise.
\<close>

lemma forced_fix_ignores_version:
  "getenv ''FAKETIME_FORCE_MONOTONIC_FIX'' s = None \<Longrightarrow> needs_forced_monotonic_fix 2 27 s \<and> needs_forced_monotonic_fix 2 36 s"
  by (simp add: needs_fix_default)

text \<open>
  A lack of memory ends the process: \<^verbatim>\<open>pthread_cond_init\<close> returns an error code when it cannot allocate the element, but the
  hash table exits when it cannot allocate its own blocks.
\<close>

lemma cond_init_exits_without_memory:
  assumes "ftpl_init_state s = FT_INIT_READY" "\<not> missing_real s ''pthread_cond_init_232''" "real_result c = 0" "getclock_result c = 0" "attr_clock c = CLOCK_MONOTONIC"
    and "malloc_result c = Some (a, g)" "rwlock_result c = 0" "\<not> table_malloc c TABLE_SIZE"
  shows "pthread_cond_init_232 c cond True empty_conds s = Inl uthash_fatal"
proof -
  have "HASH_ADD_PTR (table_malloc c) a (new_element g a cond empty_conds) = Some (Inl uthash_fatal)"
    using assms(8) by (simp add: HASH_ADD_PTR_def HASH_ADD_KEYPTR_def HASH_ADD_KEYPTR_BYHASHVALUE_def HASH_MAKE_TABLE_def new_element_def empty_conds_def)
  then show ?thesis using assms(1-7) by (simp add: pthread_cond_init_232_def check_missing_real_def no_fault_def Let_def)
qed

end
