(* ===== verification/Set_Time.thy ===== *)
theory Set_Time
  imports Pthread_Cond
begin

text \<open>
  Setting the time: \<^verbatim>\<open>clock_settime\<close>, \<^verbatim>\<open>settimeofday\<close> and \<^verbatim>\<open>adjtime\<close> of \<^verbatim>\<open>src/src/libfaketime.c\<close> (compiled with
  \<^verbatim>\<open>FAKE_SETTIME\<close>). The real clock is not touched: the difference to the requested time is written to the environment variable
  \<^verbatim>\<open>FAKETIME\<close> as an offset in the format \<^verbatim>\<open>"%+f"\<close>, from where the next look at the configuration takes it.
\<close>

section \<open>Printing an offset\<close>

text \<open>The digits of the fraction, and \<^verbatim>\<open>"%+f"\<close>: a sign, and six decimals rounded to the nearest, ties to even.\<close>

definition six_digits :: "nat \<Rightarrow> string" where
  "six_digits n = map (\<lambda>k. char_of (48 + n div 10 ^ k mod 10)) [5, 4, 3, 2, 1, 0]"

definition printf_plus_f :: "char \<Rightarrow> cfloat \<Rightarrow> string" where
  "printf_plus_f dp v =
    (case v of
       Fin x \<Rightarrow>
         (let m = nat (round_ne (\<bar>x\<bar> * 1000000))
          in (if x < 0 then CHR ''-'' else CHR ''+'') # show_nat (m div 1000000) @ dp # six_digits (m mod 1000000))
     | Infty p \<Rightarrow> if p then ''+inf'' else ''-inf''
     | NaN \<Rightarrow> ''+nan'')"

section \<open>\<^verbatim>\<open>clock_settime\<close>\<close>

abbreviation (input) EOVERFLOW :: int where "EOVERFLOW \<equiv> 75"

definition settime_offset :: "timespec \<Rightarrow> timespec \<Rightarrow> cfloat" where
  "settime_offset tp current_time =
    (let sec_diff = wrap_s64 (tv_sec tp - tv_sec current_time);
         nsec_diff = wrap_s64 (tv_nsec tp - tv_nsec current_time)
     in fl_add c_double (fl_of_int c_double sec_diff)
          (fl_div c_double (fl_of_int c_double nsec_diff) (fl_of_int c_double SEC_TO_nSEC)))"

text \<open>
  The update of \<^verbatim>\<open>FAKETIME_TIMESTAMP_FILE\<close>; failures of \<^verbatim>\<open>fopen\<close>, \<^verbatim>\<open>fprintf\<close> and \<^verbatim>\<open>fclose\<close> are reported to the standard error only. 8192 is
  \<^verbatim>\<open>BUFSIZ\<close>.
\<close>

definition update_timestamp_file :: "string \<Rightarrow> ft_state \<Rightarrow> ft_state" where
  "update_timestamp_file text s =
    (case getenv ''FAKETIME_TIMESTAMP_FILE'' s of
       Some path \<Rightarrow>
         if path \<noteq> [] \<and> getenv ''FAKETIME_UPDATE_TIMESTAMP_FILE'' s = Some ''1'' then
           (if length path \<ge> 8192 then s
            else case os_call s of (opened, s) \<Rightarrow>
              if opened = - 1 then s
              else (case os_call s of (written, s) \<Rightarrow>
                    snd (os_call (s\<lparr>config_files := (config_files s)(path \<mapsto> (if written = - 1 then [] else text @ [CHR 0x0A]))\<rparr>))))
         else s
     | None \<Rightarrow> s)"

text \<open>\<open>garbage\<close> is what the uninitialised \<^verbatim>\<open>current_time\<close> holds.\<close>

definition clock_settime :: "timespec \<Rightarrow> int \<Rightarrow> timespec option \<Rightarrow> ft_state \<Rightarrow> (int \<times> ft_state) exitable" where
  "clock_settime garbage clk_id tp s =
    (if clk_id \<noteq> CLOCK_REALTIME then Inr (- 1, s\<lparr>errno := EPERM\<rparr>)
     else case tp of None \<Rightarrow> Inr (- 1, s\<lparr>errno := EFAULT\<rparr>)
     | Some tp \<Rightarrow>
        exit_bind (clock_gettime clk_id (Some garbage) (s\<lparr>dont_fake := True\<rparr>)) (\<lambda>((_, current), s').
          let s' = s'\<lparr>dont_fake := dont_fake s\<rparr>;
              current_time = (case current of Some c \<Rightarrow> c | None \<Rightarrow> garbage);
              newenv_string = printf_plus_f (decimal_point s') (settime_offset tp current_time)
          in if length newenv_string \<ge> 256 then Inr (- 1, s'\<lparr>errno := EOVERFLOW\<rparr>)
             else let s' = s'\<lparr>parse_config_file := False\<rparr>
                  in case os_call s' of (r, s') \<Rightarrow>
                     if r = - 1 then Inr (- 1, s')
                     else Inr (0, update_timestamp_file newenv_string ((setenv ''FAKETIME'' newenv_string s')\<lparr>force_cache_expiration := 1\<rparr>))))"

definition ft_settimeofday :: "timespec \<Rightarrow> timeval option \<Rightarrow> ft_state \<Rightarrow> (int \<times> ft_state) exitable" where
  "ft_settimeofday garbage tv s =
    (case tv of None \<Rightarrow> Inr (- 1, s\<lparr>errno := EFAULT\<rparr>)
     | Some tv \<Rightarrow> exit_bind (clock_settime garbage CLOCK_REALTIME (Some \<lparr>tv_sec = tval_sec tv, tv_nsec = wrap_s64 (tv_usec tv * 1000)\<rparr>) s)
                   (\<lambda>(_, s). Inr (0, s)))"

text \<open>The result, \<^verbatim>\<open>*olddelta\<close>, and the state.\<close>

definition ft_adjtime :: "timespec \<Rightarrow> timeval option \<Rightarrow> timeval option \<Rightarrow> ft_state \<Rightarrow> ((int \<times> timeval option) \<times> ft_state) exitable" where
  "ft_adjtime garbage delta olddelta s =
    (let olddelta = map_option (\<lambda>_. \<lparr>tval_sec = 0, tv_usec = 0\<rparr>) olddelta
     in case delta of None \<Rightarrow> Inr ((0, olddelta), s)
        | Some d \<Rightarrow>
           exit_bind (clock_gettime CLOCK_REALTIME (Some garbage) s) (\<lambda>((_, tp), s).
             let tp = (case tp of Some t \<Rightarrow> t | None \<Rightarrow> garbage);
                 tp = \<lparr>tv_sec = wrap_s64 (tv_sec tp + tval_sec d), tv_nsec = wrap_s64 (tv_nsec tp + wrap_s64 (tv_usec d * 1000))\<rparr>
             in exit_bind (clock_settime garbage CLOCK_REALTIME (Some tp) s) (\<lambda>(_, s). Inr ((0, olddelta), s))))"

section \<open>Lemmas: printing and reading an offset\<close>





subsection \<open>Roundings of moderate doubles\<close>










section \<open>Lemmas: a request that becomes effective\<close>





section \<open>Properties\<close>



end
