(* ===== verification/Random_Pid.thy ===== *)
theory Random_Pid
  imports Time_Functions "HOL-Library.Word"
begin

unbundle bit_operations_syntax

text \<open>
  Random numbers and process ids of \<^verbatim>\<open>src/src/libfaketime.c\<close> (compiled with \<^verbatim>\<open>FAKE_RANDOM\<close> and \<^verbatim>\<open>FAKE_PID\<close>):
  the generator \<^verbatim>\<open>fakerandom_msws\<close> on 64-bit words, \<^verbatim>\<open>getrandom\<close> and \<^verbatim>\<open>getentropy\<close>, which take their bytes from it
  when \<^verbatim>\<open>FAKERANDOM_SEED\<close> is set, and \<^verbatim>\<open>getpid\<close>, which returns \<^verbatim>\<open>FAKETIME_FAKEPID\<close>. The real functions are arguments.
  A buffer is the list of its bytes, \<open>None\<close> the NULL pointer.
\<close>

section \<open>Numbers in any base\<close>

text \<open>
  The base that \<^verbatim>\<open>strtol\<close> and \<^verbatim>\<open>strtoull\<close> choose when they are asked for base 0, and what they take for
  the digits: hexadecimal after \<^verbatim>\<open>0x\<close>, octal after \<^verbatim>\<open>0\<close>, else decimal.
\<close>

definition auto_base :: "string \<Rightarrow> int \<times> string" where
  "auto_base t =
    (if str_prefix ''0x'' (map tolower (take 2 t)) \<and> drop 2 t \<noteq> [] \<and> isxdigit (hd (drop 2 t)) then (16, drop 2 t)
     else if t \<noteq> [] \<and> hd t = CHR ''0'' then (8, t)
     else (10, t))"

definition base_digit :: "int \<Rightarrow> char \<Rightarrow> bool" where
  "base_digit base c \<longleftrightarrow> isxdigit c \<and> xdigit_val c < base"

text \<open>\<^verbatim>\<open>strtol(s, &end, 0)\<close> and \<^verbatim>\<open>strtoull(s, &end, 0)\<close>: the value, the end pointer, and whether \<^verbatim>\<open>errno\<close> is \<^verbatim>\<open>ERANGE\<close>.\<close>

definition strtol_auto :: "string \<Rightarrow> int \<times> string \<times> bool" where
  "strtol_auto s =
    (let (neg, t) = split_sign (dropWhile isspace s); (base, u) = auto_base t;
         ds = takeWhile (base_digit base) u; r = dropWhile (base_digit base) u;
         n = (if neg then - digits_val base xdigit_val ds else digits_val base xdigit_val ds)
     in if ds = [] then (0, s, False)
        else if n > S64_MAX then (S64_MAX, r, True) else if n < S64_MIN then (S64_MIN, r, True) else (n, r, False))"

definition strtoull_auto :: "string \<Rightarrow> int \<times> string \<times> bool" where
  "strtoull_auto s =
    (let (neg, t) = split_sign (dropWhile isspace s); (base, u) = auto_base t;
         ds = takeWhile (base_digit base) u; r = dropWhile (base_digit base) u; n = digits_val base xdigit_val ds
     in if ds = [] then (0, s, False)
        else if n > 18446744073709551615 then (18446744073709551615, r, True)
        else (if neg then (- n) mod 18446744073709551616 else n, r, False))"

section \<open>The generator\<close>

definition fakerandom_msws :: "64 word \<Rightarrow> 64 word \<Rightarrow> 64 word \<Rightarrow> 8 word \<times> 64 word \<times> 64 word" where
  "fakerandom_msws x w s =
    (let x = x * x; w = w + s; x = x + w; x = drop_bit 32 x OR push_bit 32 x
     in (ucast (x AND 0xFF), x, w))"

text \<open>The loop that fills a buffer.\<close>

fun msws_bytes :: "nat \<Rightarrow> 64 word \<Rightarrow> 64 word \<Rightarrow> 64 word \<Rightarrow> 8 word list" where
  "msws_bytes 0 x w s = []"
| "msws_bytes (Suc n) x w s = (case fakerandom_msws x w s of (b, x, w) \<Rightarrow> b # msws_bytes n x w s)"

definition bypass_randomness :: "8 word list option \<Rightarrow> nat \<Rightarrow> ft_state \<Rightarrow> (int \<times> 8 word list option) \<times> ft_state" where
  "bypass_randomness buf buflen s =
    (case getenv ''FAKERANDOM_SEED'' s of
       None \<Rightarrow> ((0, buf), s)
     | Some seedstring \<Rightarrow>
        if buf = None \<and> buflen \<noteq> 0 then ((0, buf), s\<lparr>errno := EFAULT\<rparr>)
        else case strtoull_auto seedstring of (seed, end, erange) \<Rightarrow>
          if length seedstring = length end \<or> end \<noteq> [] \<or> erange then ((0, buf), s\<lparr>errno := EINVAL\<rparr>)
          else ((1, map_option (\<lambda>b. msws_bytes buflen 0 0 (word_of_int seed) @ drop buflen b) buf), s\<lparr>errno := 0\<rparr>))"

type_synonym real_random = "8 word list option \<Rightarrow> nat \<Rightarrow> int \<times> 8 word list option"

definition ft_getrandom :: "real_random \<Rightarrow> 8 word list option \<Rightarrow> nat \<Rightarrow> ft_state \<Rightarrow> ((int \<times> 8 word list option) \<times> ft_state) exitable" where
  "ft_getrandom real_getrandom buf buflen s =
    (case bypass_randomness buf buflen s of ((r, buf'), s) \<Rightarrow>
      if r \<noteq> 0 then Inr ((int buflen, buf'), s)
      else exit_bind (ftpl_ready s) (\<lambda>s.
        case check_missing_real ''getrandom'' s of (ok, s) \<Rightarrow>
        if \<not> ok then Inr ((- 1, buf), s) else Inr (real_getrandom buf buflen, s)))"

definition ft_getentropy :: "real_random \<Rightarrow> 8 word list option \<Rightarrow> nat \<Rightarrow> ft_state \<Rightarrow> ((int \<times> 8 word list option) \<times> ft_state) exitable" where
  "ft_getentropy real_getentropy buf buflen s =
    (case bypass_randomness buf buflen s of ((r, buf'), s) \<Rightarrow>
      if r \<noteq> 0 then Inr ((0, buf'), s)
      else exit_bind (ftpl_ready s) (\<lambda>s.
        case check_missing_real ''getentropy'' s of (ok, s) \<Rightarrow>
        if \<not> ok then Inr ((- 1, buf), s) else Inr (real_getentropy buf buflen, s)))"

section \<open>Process ids\<close>

definition ft_getpid :: "ft_state \<Rightarrow> (int \<times> ft_state) exitable" where
  "ft_getpid s =
    (case getenv ''FAKETIME_FAKEPID'' s of
       Some pidstring \<Rightarrow>
         (case strtol_auto pidstring of (p, end, erange) \<Rightarrow>
           if length pidstring = length end \<or> end \<noteq> [] \<or> erange \<or> p < 0 \<or> wrap_s32 p \<noteq> p
           then Inr (- 1, s\<lparr>errno := EINVAL\<rparr>) else Inr (wrap_s32 p, s\<lparr>errno := 0\<rparr>))
     | None \<Rightarrow>
        exit_bind (ftpl_ready s) (\<lambda>s.
          case check_missing_real ''getpid'' s of (ok, s) \<Rightarrow>
          if \<not> ok then Inr (- 1, s) else Inr (self_pid s, s)))"

section \<open>Lemmas: the generator\<close>

text \<open>The state of the generator after a number of bytes, and the bytes as a stream.\<close>

fun msws_state :: "nat \<Rightarrow> 64 word \<Rightarrow> 64 word \<times> 64 word" where
  "msws_state 0 s = (0, 0)"
| "msws_state (Suc n) s = snd (fakerandom_msws (fst (msws_state n s)) (snd (msws_state n s)) s)"

definition msws_stream :: "64 word \<Rightarrow> nat \<Rightarrow> 8 word" where
  "msws_stream s n = fst (fakerandom_msws (fst (msws_state n s)) (snd (msws_state n s)) s)"

lemma msws_bytes_from:
  "msws_bytes n (fst (msws_state k s)) (snd (msws_state k s)) s = map (msws_stream s) [k ..< k + n]"
proof (induction n arbitrary: k)
  case (Suc n)
  have "[k ..< k + Suc n] = k # [Suc k ..< Suc k + n]" by (simp add: upt_conv_Cons)
  moreover have "msws_bytes (Suc n) (fst (msws_state k s)) (snd (msws_state k s)) s =
      msws_stream s k # msws_bytes n (fst (msws_state (Suc k) s)) (snd (msws_state (Suc k) s)) s"
    by (simp add: msws_stream_def split: prod.split)
  ultimately show ?case using Suc [of "Suc k"] by simp
qed simp

lemma msws_bytes_stream: "msws_bytes n 0 0 s = map (msws_stream s) [0 ..< n]"
  using msws_bytes_from [of n 0 s] by simp

text \<open>The Weyl sequence in closed form, and that it does not repeat within 2^64 steps when the seed is odd.\<close>

lemma weyl_closed: "snd (msws_state n s) = of_nat n * s"
  by (induction n) (simp_all add: fakerandom_msws_def Let_def algebra_simps)

lemma odd_multiples_distinct:
  fixes s :: "64 word"
  assumes "odd s" "i < 18446744073709551616" "j < 18446744073709551616" "of_nat i * s = of_nat j * s"
  shows "i = j"
proof -
  have u: "uint (of_nat k * s) = int k * uint s mod 18446744073709551616" for k
    by (simp add: uint_word_ariths(3) unsigned_of_nat take_bit_eq_mod of_nat_mod mod_mult_left_eq)
  then have "int i * uint s mod 18446744073709551616 = int j * uint s mod 18446744073709551616"
    using arg_cong [OF assms(4), of uint] by simp
  then have "18446744073709551616 dvd (int i - int j) * uint s" by (simp add: mod_eq_dvd_iff left_diff_distrib)
  moreover have "coprime (18446744073709551616 :: int) (uint s)"
  proof -
    have "odd (uint s)" using assms(1) by transfer (simp add: even_take_bit_eq)
    then have "coprime ((2 :: int) ^ 64) (uint s)" by (intro coprime_power_left_iff [THEN iffD2]) simp
    then show ?thesis by simp
  qed
  ultimately have "18446744073709551616 dvd int i - int j" by (simp add: coprime_dvd_mult_left_iff)
  then have "int i - int j \<noteq> 0 \<Longrightarrow> \<bar>18446744073709551616\<bar> \<le> \<bar>int i - int j\<bar>" by (intro dvd_imp_le_int)
  then show ?thesis using assms(2,3) by linarith
qed

section \<open>Lemmas: reading numbers\<close>

lemma xdigit_isdigit: "isdigit c \<Longrightarrow> isxdigit c \<and> xdigit_val c = digit_val c \<and> 0 \<le> digit_val c \<and> digit_val c \<le> 9"
  by (simp add: isxdigit_def xdigit_val_def digit_val_def isdigit_def)

lemma digits_val_xdigit: "\<forall>c \<in> set ds. isdigit c \<Longrightarrow> digits_val b xdigit_val ds = digits_val b digit_val ds"
proof (induction ds rule: rev_induct)
  case (snoc c ds)
  then show ?case using xdigit_isdigit [of c] by (simp add: digits_val_snoc)
qed (simp add: digits_val_def)

text \<open>A number that \<^verbatim>\<open>printf\<close> wrote does not begin with a zero, unless it is one.\<close>

lemma show_nat_hd: "n \<noteq> 0 \<Longrightarrow> hd (show_nat n) \<noteq> CHR ''0''"
proof (induction n rule: show_nat.induct)
  case (1 n)
  show ?case
  proof (cases "n < 10")
    case True
    then have "digit_val (char_of (48 + n)) = int n" by simp
    moreover have "digit_val (CHR ''0'') = 0" by (simp add: digit_val_def char_code_def)
    ultimately have "char_of (48 + n) \<noteq> CHR ''0''" using "1.prems" by (metis of_nat_eq_0_iff)
    then show ?thesis using True by (subst show_nat.simps) simp
  next
    case False
    then have "hd (show_nat (n div 10)) \<noteq> CHR ''0''" using 1 by simp
    then show ?thesis using False show_nat_nonempty [of "n div 10"] by (subst show_nat.simps) simp
  qed
qed

lemma show_nat_0: "show_nat 0 = ''0''"
  by code_simp

lemma auto_base_show_nat: "auto_base (show_nat n) = (if n = 0 then 8 else 10, show_nat n)"
proof (cases "n = 0")
  case False
  have nx: "\<not> str_prefix ''0x'' (map tolower (take 2 (show_nat n)))"
  proof
    assume "str_prefix ''0x'' (map tolower (take 2 (show_nat n)))"
    then have "tolower (hd (show_nat n)) = CHR ''0''"
      using show_nat_nonempty [of n] by (cases "show_nat n") (auto simp: str_prefix_def)
    moreover have "isdigit (hd (show_nat n))" using show_nat_digits [of n] show_nat_nonempty [of n] by simp
    ultimately show False using show_nat_hd [OF False] by (simp add: tolower_def isdigit_def)
  qed
  then show ?thesis using show_nat_hd [OF False] False by (simp add: auto_base_def)
qed (simp add: show_nat_0 auto_base_def str_prefix_def)

lemma base_digits_show_nat:
  "takeWhile (base_digit (if n = 0 then 8 else 10)) (show_nat n) = show_nat n"
  "dropWhile (base_digit (if n = 0 then 8 else 10)) (show_nat n) = []"
proof -
  have "\<forall>c \<in> set (show_nat n). base_digit (if n = 0 then 8 else 10) c"
  proof (cases "n = 0")
    case False
    then show ?thesis using show_nat_digits [of n] xdigit_isdigit by (fastforce simp: base_digit_def)
  qed (simp add: show_nat_0 base_digit_def isxdigit_def xdigit_val_def digit_val_def isdigit_def char_code_def)
  then show "takeWhile (base_digit (if n = 0 then 8 else 10)) (show_nat n) = show_nat n"
    "dropWhile (base_digit (if n = 0 then 8 else 10)) (show_nat n) = []" by (simp_all add: takeWhile_eq_all_conv dropWhile_eq_Nil_conv)
qed

lemma auto_digits_show_nat: "digits_val (if n = 0 then 8 else 10) xdigit_val (show_nat n) = int n"
proof (cases "n = 0")
  case False
  then show ?thesis using digits_val_xdigit [OF show_nat_digits, of 10 n] digits_val_show_nat by simp
qed (simp add: show_nat_0 digits_val_def xdigit_val_def isdigit_def digit_val_def char_code_def)

lemma strtol_auto_show_nat: "int n \<le> S64_MAX \<Longrightarrow> strtol_auto (show_nat n) = (int n, [], False)"
  by (simp add: strtol_auto_def Let_def dropWhile_space_digits show_nat_digits split_sign_digits show_nat_nonempty auto_base_show_nat
      base_digits_show_nat auto_digits_show_nat del: if_split)

lemma strtoull_auto_show_nat: "int n \<le> 18446744073709551615 \<Longrightarrow> strtoull_auto (show_nat n) = (int n, [], False)"
  by (simp add: strtoull_auto_def Let_def dropWhile_space_digits show_nat_digits split_sign_digits show_nat_nonempty auto_base_show_nat
      base_digits_show_nat auto_digits_show_nat del: if_split)

section \<open>Properties\<close>

text \<open>
  Seeded random bytes are reproducible. With a seed in \<^verbatim>\<open>FAKERANDOM_SEED\<close>, any 64-bit number, every request of \<^verbatim>\<open>getrandom\<close>
  and \<^verbatim>\<open>getentropy\<close> succeeds and receives the beginning of one stream that depends on the seed only: a shorter
  request gets a prefix of what a longer one gets, bytes behind the requested ones are not
  touched, and the real source of randomness is not asked.
\<close>

lemma seeded_random_stream:
  assumes "getenv ''FAKERANDOM_SEED'' s = Some (show_nat seed)" "seed < 18446744073709551616" "buflen \<le> length buf"
  shows "ft_getrandom real_getrandom (Some buf) buflen s =
      Inr ((int buflen, Some (map (msws_stream (of_nat seed)) [0 ..< buflen] @ drop buflen buf)), s\<lparr>errno := 0\<rparr>) \<and>
    ft_getentropy real_getentropy (Some buf) buflen s =
      Inr ((0, Some (map (msws_stream (of_nat seed)) [0 ..< buflen] @ drop buflen buf)), s\<lparr>errno := 0\<rparr>)"
proof -
  have "strtoull_auto (show_nat seed) = (int seed, [], False)" using assms(2) by (intro strtoull_auto_show_nat) simp
  then have "bypass_randomness (Some buf) buflen s =
      ((1, Some (map (msws_stream (of_nat seed)) [0 ..< buflen] @ drop buflen buf)), s\<lparr>errno := 0\<rparr>)"
    using assms(1) show_nat_nonempty [of seed] by (simp add: bypass_randomness_def msws_bytes_stream)
  then show ?thesis by (simp add: ft_getrandom_def ft_getentropy_def)
qed

lemma seeded_random_stream_witness:
  "ft_getrandom (\<lambda>b n. (- 1, b)) (Some [1, 2, 3]) 2 ((static_state sample_os)\<lparr>environ := [(''FAKERANDOM_SEED'', show_nat 77)]\<rparr>) =
    Inr ((2, Some [msws_stream 77 0, msws_stream 77 1, 3]), (static_state sample_os)\<lparr>environ := [(''FAKERANDOM_SEED'', show_nat 77)], errno := 0\<rparr>)"
  using seeded_random_stream [of "(static_state sample_os)\<lparr>environ := [(''FAKERANDOM_SEED'', show_nat 77)]\<rparr>" 77 2 "[1, 2, 3]" "\<lambda>b n. (- 1, b)"]
  by (simp add: getenv_def upt_conv_Cons numeral_2_eq_2)

text \<open>
  Claim C40.
  The generator does not run into a short cycle: for an odd seed, its internal state is different
  after each of the first 2^64 bytes, because the Weyl sequence is n times the seed modulo
  2^64.
\<close>

theorem msws_long_period:
  assumes "odd seed" "i < 18446744073709551616" "j < 18446744073709551616" "i \<noteq> j"
  shows "msws_state i seed \<noteq> msws_state j seed"
  using odd_multiples_distinct [OF assms(1-3)] assms(4) by (metis weyl_closed)

theorem msws_long_period_witness: "msws_state 5 77 \<noteq> msws_state 6000000 77"
  by (rule msws_long_period) simp_all

lemma fakepid_given:
  assumes "getenv ''FAKETIME_FAKEPID'' s = Some (show_nat p)" "int p \<le> S64_MAX"
  shows "ft_getpid s = Inr (if pid_ok (int p) then (int p, s\<lparr>errno := 0\<rparr>) else (- 1, s\<lparr>errno := EINVAL\<rparr>))"
proof -
  have "wrap_s32 (int p) = int p \<longleftrightarrow> pid_ok (int p)"
  proof
    assume "wrap_s32 (int p) = int p"
    moreover have "wrap_s32 (int p) \<le> 2147483647" by (simp add: wrap_s32_def)
    ultimately show "pid_ok (int p)" by (simp add: pid_ok_def)
  qed (simp add: pid_ok_def wrap_s32_id in_s32_def)
  then show ?thesis
    using assms strtol_auto_show_nat [of p] show_nat_nonempty [of p] by (simp add: ft_getpid_def)
qed

text \<open>
  A faked process id: every process id p written in decimal to \<^verbatim>\<open>FAKETIME_FAKEPID\<close> is what \<^verbatim>\<open>getpid\<close> returns; a
  negative or a larger number is refused with -1 and \<^verbatim>\<open>EINVAL\<close>; and without the variable the real
  process id is returned.
\<close>

lemma getpid_fakes:
  assumes "ftpl_init_state t = FT_INIT_READY" "\<not> missing_real t ''getpid''" "getenv ''FAKETIME_FAKEPID'' t = None"
  shows "(getenv ''FAKETIME_FAKEPID'' s = Some (show_nat p) \<and> int p \<le> S64_MAX \<longrightarrow>
      ft_getpid s = Inr (if pid_ok (int p) then (int p, s\<lparr>errno := 0\<rparr>) else (- 1, s\<lparr>errno := EINVAL\<rparr>))) \<and>
    ft_getpid t = Inr (self_pid t, t)"
  using assms fakepid_given [of s p] by (simp add: ft_getpid_def check_missing_real_def)

lemma getpid_fakes_witness:
  "ft_getpid ((static_state sample_os)\<lparr>environ := [(''FAKETIME_FAKEPID'', show_nat 1234)]\<rparr>) =
    Inr (1234, (static_state sample_os)\<lparr>environ := [(''FAKETIME_FAKEPID'', show_nat 1234)], errno := 0\<rparr>)"
proof -
  have "ftpl_init_state sample_ready = FT_INIT_READY" "\<not> missing_real sample_ready ''getpid''" "getenv ''FAKETIME_FAKEPID'' sample_ready = None"
    by (simp_all add: sample_ready_props) (simp add: sample_ready_def sample_running_def getenv_def static_defs)
  from getpid_fakes [OF this, of "(static_state sample_os)\<lparr>environ := [(''FAKETIME_FAKEPID'', show_nat 1234)]\<rparr>" 1234] show ?thesis
    by (simp add: getenv_def pid_ok_def)
qed

end
