(* ===== verification/Syscall_Futex.thy ===== *)
theory Syscall_Futex
  imports Sleep_Functions Random_Pid
begin

unbundle bit_operations_syntax

text \<open>
  Raw system calls: \<^verbatim>\<open>syscall\<close> of \<^verbatim>\<open>src/src/libfaketime.c\<close> (compiled with \<^verbatim>\<open>INTERCEPT_SYSCALL\<close> and
  \<^verbatim>\<open>INTERCEPT_FUTEX\<close>), which redirects \<^verbatim>\<open>getrandom\<close> and \<^verbatim>\<open>clock_gettime\<close> to the functions of the library, and converts
  the timeouts of \<^verbatim>\<open>clock_nanosleep\<close> and \<^verbatim>\<open>futex\<close>.

  What the kernel answers to the \<^verbatim>\<open>futex\<close> calls of one request is a script: the list of the results of
  the calls that do not time out; a call on the empty script returns -1, as a call that times
  out does. Beside the result, the model returns the timeouts that were passed to the kernel. Local
  variables that the code does not initialise are arguments.
\<close>

section \<open>\<^verbatim>\<open>futex\<close>\<close>

abbreviation (input) FUTEX_WAIT :: int where "FUTEX_WAIT \<equiv> 0"
abbreviation (input) FUTEX_LOCK_PI :: int where "FUTEX_LOCK_PI \<equiv> 6"
abbreviation (input) FUTEX_WAIT_BITSET :: int where "FUTEX_WAIT_BITSET \<equiv> 9"
abbreviation (input) FUTEX_WAIT_REQUEUE_PI :: int where "FUTEX_WAIT_REQUEUE_PI \<equiv> 11"
abbreviation (input) FUTEX_LOCK_PI2 :: int where "FUTEX_LOCK_PI2 \<equiv> 13"
abbreviation (input) FUTEX_PRIVATE_FLAG :: int where "FUTEX_PRIVATE_FLAG \<equiv> 128"
abbreviation (input) FUTEX_CLOCK_REALTIME :: int where "FUTEX_CLOCK_REALTIME \<equiv> 256"
abbreviation (input) FUTEX_CMD_MASK :: int where "FUTEX_CMD_MASK \<equiv> NOT (FUTEX_PRIVATE_FLAG OR FUTEX_CLOCK_REALTIME)"

definition futex_cmd_has_timeout :: "int \<Rightarrow> bool" where
  "futex_cmd_has_timeout cmd \<longleftrightarrow>
     cmd \<in> {FUTEX_WAIT, FUTEX_LOCK_PI, FUTEX_LOCK_PI2, FUTEX_WAIT_BITSET, FUTEX_WAIT_REQUEUE_PI}"

text \<open>The result of the kernel, the script left, and the timeout that was passed.\<close>

type_synonym futex_reply = "int \<times> int list \<times> timespec option"

definition kernel_futex :: "timespec option \<Rightarrow> int list \<Rightarrow> futex_reply" where
  "kernel_futex timeout script = (case script of [] \<Rightarrow> (- 1, [], timeout) | r # rs \<Rightarrow> (r, rs, timeout))"

definition make_futex_syscall :: "int \<Rightarrow> timespec option \<Rightarrow> int list \<Rightarrow> futex_reply" where
  "make_futex_syscall futex_op timeout script =
    (if futex_cmd_has_timeout (futex_op AND FUTEX_CMD_MASK)
     then (case timeout of
             None \<Rightarrow> kernel_futex None script
           | Some t \<Rightarrow>
              let t = (if tv_sec t < 0 then t\<lparr>tv_sec := 0\<rparr> else t);
                  t = (if tv_nsec t < 0 then t\<lparr>tv_nsec := 0\<rparr> else t)
              in kernel_futex (Some t) script)
     else kernel_futex timeout script)"

lemma make_futex_shorter:
  "(r, y) = make_futex_syscall futex_op timeout script \<Longrightarrow> (script', passed) = y \<Longrightarrow> \<not> r \<noteq> 0 \<Longrightarrow> length script' < length script"
  by (auto simp: make_futex_syscall_def kernel_futex_def Let_def split: option.splits list.splits if_splits)

text \<open>\<^verbatim>\<open>DONT_FAKE_TIME((*real_clock_gettime)(clk, &t))\<close>, the result ignored.\<close>

definition real_now :: "int \<Rightarrow> timespec \<Rightarrow> ft_state \<Rightarrow> timespec \<times> ft_state" where
  "real_now clk old s = (case real_clock_gettime clk old s of ((_, t), s) \<Rightarrow> (t, s))"

text \<open>
  The loop of \<^verbatim>\<open>FUTEX_WAIT_BITSET\<close>: as long as the kernel returns 0 before the timeout has passed on the
  faked clock, it is asked to wait again. \<open>garbage\<close> is what \<^verbatim>\<open>fake_now\<close> and \<^verbatim>\<open>real_now\<close> hold.
\<close>

function futex_wait_loop ::
  "timespec \<Rightarrow> int \<Rightarrow> int \<Rightarrow> timespec \<Rightarrow> timespec \<Rightarrow> int list \<Rightarrow> ft_state \<Rightarrow> ((int \<times> timespec option list) \<times> ft_state) exitable" where
  "futex_wait_loop garbage clk_id futex_op timeout now_fake script s =
    (if timespeccmp now_fake timeout (\<ge>) then Inr ((0, []), s)
     else case real_now clk_id garbage s of (real_tp, s) \<Rightarrow>
       exit_bind (fake_clock_gettime clk_id garbage s) (\<lambda>((_, fake_now), s).
         let fake_time_left = timespecsub timeout fake_now;
             wait_time = (if user_rate_set s \<and> \<not> dont_fake s then timespecmul fake_time_left (inverse_rate s) else fake_time_left);
             real_timeout = timespecadd real_tp wait_time
         in case make_futex_syscall futex_op (Some real_timeout) script of (result, script', passed) \<Rightarrow>
            if result \<noteq> 0 then Inr ((result, [passed]), s)
            else exit_bind (fake_clock_gettime clk_id now_fake s) (\<lambda>((r, now_fake), s).
              if r \<noteq> 0 then Inr ((result, [passed]), s)
              else exit_bind (futex_wait_loop garbage clk_id futex_op timeout now_fake script' s)
                     (\<lambda>((result, log), s). Inr ((result, passed # log), s)))))"
  by pat_completeness auto
termination
  by (relation "measure (\<lambda>(garbage, clk_id, futex_op, timeout, now_fake, script, s). length script)",
      simp, simp only: in_measure case_prod_conv, erule (2) make_futex_shorter)

text \<open>
  The result, the timeouts passed to the kernel, and what the caller's \<^verbatim>\<open>timeout\<close> points to afterwards: where it is passed on
  itself, a negative part of it has been replaced by 0.
\<close>

definition handle_futex_syscall ::
  "timespec \<Rightarrow> int \<Rightarrow> timespec option \<Rightarrow> int list \<Rightarrow> ft_state \<Rightarrow> ((int \<times> timespec option list \<times> timespec option) \<times> ft_state) exitable" where
  "handle_futex_syscall garbage futex_op timeout script s =
    (let futex_fallback = (\<lambda>s. case make_futex_syscall futex_op timeout script of (result, _, passed) \<Rightarrow> Inr ((result, [passed], passed), s))
     in case timeout of
          None \<Rightarrow> futex_fallback s
        | Some T \<Rightarrow>
           let futex_cmd = futex_op AND FUTEX_CMD_MASK;
               clk_id = (if futex_op AND FUTEX_CLOCK_REALTIME \<noteq> 0 then CLOCK_REALTIME else CLOCK_MONOTONIC)
           in if futex_cmd = FUTEX_WAIT_BITSET then
                (case real_now clk_id garbage s of (real_tp, s) \<Rightarrow>
                 exit_bind (fake_clock_gettime clk_id real_tp s) (\<lambda>((r, fake_tp), s).
                   if r = - 1 then futex_fallback s
                   else let time_diff = timespecsub fake_tp real_tp; adjusted_timeout = timespecsub T time_diff
                        in case make_futex_syscall futex_op (Some adjusted_timeout) script of (result, script', passed) \<Rightarrow>
                           if result \<noteq> 0 then Inr ((result, [passed], timeout), s)
                           else exit_bind (fake_clock_gettime clk_id garbage s) (\<lambda>((r, now_fake), s).
                             if r \<noteq> 0 then Inr ((result, [passed], timeout), s)
                             else exit_bind (futex_wait_loop garbage clk_id futex_op T now_fake script' s)
                                    (\<lambda>((result, log), s). Inr ((result, passed # log, timeout), s)))))
              else if futex_cmd = FUTEX_WAIT then
                (let adjusted_timeout = (if scaled s then timespecmul T (inverse_rate s) else T)
                 in case make_futex_syscall futex_op (Some adjusted_timeout) script of (result, _, passed) \<Rightarrow> Inr ((result, [passed], timeout), s))
              else futex_fallback s)"

section \<open>\<^verbatim>\<open>syscall\<close>\<close>

text \<open>The calls the function looks at, all others, and what they give back (sleeps and futexes with the times passed on).\<close>

datatype syscall_request =
    Sys_getrandom "8 word list option" nat
  | Sys_clock_gettime int "timespec option"
  | Sys_clock_nanosleep int bool "timespec option" "timespec option"
  | Sys_futex int "timespec option"
  | Sys_other int "int list"

datatype syscall_reply =
    Rep_random int "8 word list option"
  | Rep_time int "timespec option"
  | Rep_sleep int "timespec option" "timespec option"
  | Rep_futex int "timespec option list" "timespec option"
  | Rep_long int

text \<open>The real system calls.\<close>

record kernel =
  k_getrandom :: real_random
  k_clock_gettime :: "int \<Rightarrow> timespec option \<Rightarrow> int \<times> timespec option"
  k_clock_nanosleep :: "int \<Rightarrow> bool \<Rightarrow> timespec option \<Rightarrow> timespec option \<Rightarrow> int \<times> timespec option"
  k_futex :: "int list"
  k_other :: "int \<Rightarrow> int list \<Rightarrow> int"

definition fakes_raw :: "ft_state \<Rightarrow> bool" where
  "fakes_raw s \<longleftrightarrow> getenv ''FAKETIME'' s \<noteq> None \<or> getenv ''FAKETIME_TIMESTAMP_FILE'' s \<noteq> None"

definition raw_clock_nanosleep ::
  "kernel \<Rightarrow> int \<Rightarrow> bool \<Rightarrow> timespec option \<Rightarrow> timespec option \<Rightarrow> ft_state \<Rightarrow> syscall_reply \<times> ft_state" where
  "raw_clock_nanosleep K clk_id abstime req rem s =
    (case req of
       None \<Rightarrow> (case k_clock_nanosleep K clk_id abstime None rem of (rc, rem) \<Rightarrow> (Rep_sleep rc rem None, s))
     | Some req \<Rightarrow>
        (case (if abstime then absolute_deadline clk_id req s
               else (if scaled s \<and> (clk_id = CLOCK_REALTIME \<or> clk_id = CLOCK_MONOTONIC)
                     then timespecmul req (inverse_rate s) else req, s)) of (real_req, s) \<Rightarrow>
         case k_clock_nanosleep K clk_id abstime (Some real_req) rem of (rc, rem) \<Rightarrow>
           if rc \<noteq> 0 then (Rep_sleep rc rem (Some real_req), s)
           else (Rep_sleep rc (scale_rem rem s) (Some real_req), s)))"

text \<open>The call with unchanged arguments.\<close>

definition real_syscall :: "kernel \<Rightarrow> syscall_request \<Rightarrow> syscall_reply" where
  "real_syscall K req =
    (case req of
       Sys_getrandom buf buflen \<Rightarrow> (case k_getrandom K buf buflen of (r, b) \<Rightarrow> Rep_random r b)
     | Sys_clock_gettime clk tp \<Rightarrow> (case k_clock_gettime K clk tp of (r, t) \<Rightarrow> Rep_time r t)
     | Sys_clock_nanosleep clk abstime rq rem \<Rightarrow> (case k_clock_nanosleep K clk abstime rq rem of (r, t) \<Rightarrow> Rep_sleep r t rq)
     | Sys_futex op t \<Rightarrow> (case kernel_futex t (k_futex K) of (r, _, p) \<Rightarrow> Rep_futex r [p] t)
     | Sys_other n args \<Rightarrow> Rep_long (k_other K n args))"

definition ft_syscall :: "timespec \<Rightarrow> kernel \<Rightarrow> syscall_request \<Rightarrow> ft_state \<Rightarrow> (syscall_reply \<times> ft_state) exitable" where
  "ft_syscall garbage K req s =
    (case check_missing_real ''syscall'' s of (ok, s) \<Rightarrow>
      if \<not> ok then Inr (Rep_long (- 1), s)
      else let pass = exit_bind (ftpl_ready s) (\<lambda>s. Inr (real_syscall K req, s))
           in case req of
                Sys_getrandom buf buflen \<Rightarrow>
                  if getenv ''FAKERANDOM_SEED'' s \<noteq> None
                  then exit_bind (ft_getrandom (k_getrandom K) buf buflen s) (\<lambda>((r, b), s). Inr (Rep_random r b, s)) else pass
              | Sys_clock_gettime clk tp \<Rightarrow>
                  if fakes_raw s then exit_bind (clock_gettime clk tp s) (\<lambda>((r, t), s). Inr (Rep_time r t, s)) else pass
              | Sys_clock_nanosleep clk abstime rq rem \<Rightarrow>
                  if fakes_raw s then Inr (raw_clock_nanosleep K clk abstime rq rem s) else pass
              | Sys_futex op t \<Rightarrow>
                  exit_bind (handle_futex_syscall garbage op t (k_futex K) s) (\<lambda>((r, log, t), s). Inr (Rep_futex r log t, s))
              | Sys_other n args \<Rightarrow> pass)"

section \<open>Lemmas\<close>

declare futex_wait_loop.simps [simp del]

text \<open>The clock that a futex operation refers to.\<close>

definition futex_clock :: "int \<Rightarrow> int" where
  "futex_clock op = (if op AND FUTEX_CLOCK_REALTIME \<noteq> 0 then CLOCK_REALTIME else CLOCK_MONOTONIC)"

text \<open>A state in which the faked clock runs without a rate, for a timeout within reach.\<close>

definition runs_plain :: "int \<Rightarrow> timespec \<Rightarrow> ft_state \<Rightarrow> bool" where
  "runs_plain clk T s \<longleftrightarrow> clock_runs s \<and> \<not> user_rate_set s \<and>
     modest_deadline clk T s \<and> (\<exists>now. clk_read s (clk_count s) clk = Some now \<and> modest now) \<and> 0 \<le> tv_sec (real_deadline clk T s)"

definition passed_raw_nanosleep :: "timespec \<Rightarrow> kernel \<Rightarrow> int \<Rightarrow> timespec option \<Rightarrow> timespec \<Rightarrow> ft_state \<Rightarrow> timespec option" where
  "passed_raw_nanosleep garbage K clk rem T s =
    (case ft_syscall garbage K (Sys_clock_nanosleep clk True (Some T) rem) s of Inr (Rep_sleep _ _ p, _) \<Rightarrow> p | _ \<Rightarrow> None)"

text \<open>The states in which \<^verbatim>\<open>syscall\<close> converts a raw \<^verbatim>\<open>clock_nanosleep\<close>.\<close>

definition converts_raw :: "ft_state \<Rightarrow> bool" where
  "converts_raw s \<longleftrightarrow> \<not> missing_real s ''syscall'' \<and>
     (getenv ''FAKETIME'' s \<noteq> None \<or> getenv ''FAKETIME_TIMESTAMP_FILE'' s \<noteq> None)"

lemma raw_nanosleep_passes:
  assumes "converts_raw s" "clk = CLOCK_REALTIME \<or> clk = CLOCK_MONOTONIC \<and> get_fake_monotonic_setting (fake_monotonic_clock s) s \<noteq> 0"
  shows "\<exists>rc rem' s'. ft_syscall garbage K (Sys_clock_nanosleep clk True (Some T) rem) s = Inr (Rep_sleep rc rem' (Some (real_deadline clk T s)), s')"
proof -
  have "fst (absolute_deadline clk T s) = real_deadline clk T s"
    using assms(2) by (elim disjE conjE) (simp_all add: absolute_deadline_def real_deadline_def start_of_clock_def inverse_rate_def Let_def)
  then obtain s1 where d: "absolute_deadline clk T s = (real_deadline clk T s, s1)" by (metis prod.collapse)
  have "fakes_raw s" "\<not> missing_real s ''syscall''" using assms(1) by (simp_all add: converts_raw_def fakes_raw_def)
  then show ?thesis by (simp add: ft_syscall_def check_missing_real_def raw_clock_nanosleep_def d split_def Let_def)
qed

interpretation raw_rt: faked_deadline CLOCK_REALTIME "\<lambda>_. converts_raw" "passed_raw_nanosleep garbage K CLOCK_REALTIME rem"
proof
  fix T s assume "converts_raw s"
  then obtain rc rem' s' where "ft_syscall garbage K (Sys_clock_nanosleep CLOCK_REALTIME True (Some T) rem) s =
      Inr (Rep_sleep rc rem' (Some (real_deadline CLOCK_REALTIME T s)), s')" using raw_nanosleep_passes by blast
  then show "passed_raw_nanosleep garbage K CLOCK_REALTIME rem T s = Some (real_deadline CLOCK_REALTIME T s)" by (simp add: passed_raw_nanosleep_def)
qed

interpretation raw_mono: faked_deadline CLOCK_MONOTONIC "\<lambda>_ s. converts_raw s \<and> get_fake_monotonic_setting (fake_monotonic_clock s) s \<noteq> 0"
  "passed_raw_nanosleep garbage K CLOCK_MONOTONIC rem"
proof
  fix T s assume "converts_raw s \<and> get_fake_monotonic_setting (fake_monotonic_clock s) s \<noteq> 0"
  then obtain rc rem' s' where "ft_syscall garbage K (Sys_clock_nanosleep CLOCK_MONOTONIC True (Some T) rem) s =
      Inr (Rep_sleep rc rem' (Some (real_deadline CLOCK_MONOTONIC T s)), s')" using raw_nanosleep_passes by blast
  then show "passed_raw_nanosleep garbage K CLOCK_MONOTONIC rem T s = Some (real_deadline CLOCK_MONOTONIC T s)" by (simp add: passed_raw_nanosleep_def)
qed

text \<open>
  Shifting a timeout by the difference of the clocks at the moment gives the same as converting it from the
  faked base time to the start.
\<close>

lemma shifted_deadline:
  assumes "modest_deadline clk T s" "\<not> user_rate_set s" "modest now"
  shows "timespecsub T (timespecsub (running_time clk s now) now) = real_deadline clk T s"
proof (rule ts_total_inj)
  let ?b = "user_faked_time_timespec s" and ?st = "start_of_clock clk (ftpl_starttime s)" and ?f = "running_time clk s now"
  have m: "modest T" "modest ?b" "modest ?st" using assms(1) by (simp_all add: modest_deadline_def)
  note b = m [THEN modest_bounds] modest_bounds [OF assms(3)]
  have n: "ts_normal T" "ts_normal ?b" "ts_normal ?st" "ts_normal now" using m assms(3) by (simp_all add: modest_def)
  have f: "ts_total ?f = ts_total ?b + (ts_total now - ts_total ?st)" by (rule running_time_modest [OF assms(3) m(3,2) assms(2)])
  have fn: "ts_normal ?f" using n by (intro running_time_normal) simp_all
  have e: "ts_total ?f - ts_total now = ts_total ?b - ts_total ?st" using f by simp
  have c: "clamp_total SEC_TO_nSEC (ts_total ?b - ts_total ?st) = ts_total ?b - ts_total ?st"
    by (rule clamp_modest) (use b in \<open>simp add: SEC_TO_nSEC_def\<close>)
  have d: "ts_total (timespecsub ?f now) = ts_total ?b - ts_total ?st" "ts_normal (timespecsub ?f now)"
    using timespecsub_total [OF fn n(4)] by (simp_all only: e c)
  show "ts_normal (timespecsub T (timespecsub ?f now))" using timespecsub_total(1) [OF n(1) d(2)] .
  have "ts_normal (timespecsub T ?b)" using timespecsub_total(1) [OF n(1,2)] .
  then show "ts_normal (real_deadline clk T s)" using assms(2) timespecadd_total(1) [OF n(3)] by (simp add: real_deadline_def)
  have "ts_total (timespecsub T (timespecsub ?f now)) = ts_total T - (ts_total ?b - ts_total ?st)"
    using timespecsub_total(2) [OF n(1) d(2)] clamp_modest [of "ts_total T - (ts_total ?b - ts_total ?st)"] b
    unfolding d(1) by (simp add: SEC_TO_nSEC_def)
  then show "ts_total (timespecsub T (timespecsub ?f now)) = ts_total (real_deadline clk T s)"
    using real_deadline_total [OF assms(1,2)] by simp
qed

text \<open>Whatever the uninitialised variables hold, and however often the kernel returns 0, the waits end.\<close>

lemma clock_runs_reads:
  assumes "clock_runs s"
  shows "\<exists>r t s'. fake_clock_gettime clk tp s = Inr ((r, t), s') \<and> clock_runs s'"
proof -
  obtain r s' where "fake_clock_gettime clk tp s = Inr (r, s')" "clock_frame s s'"
    using fake_clock_keeps_frame [of s clk tp] assms by (auto simp: clock_runs_def)
  then show ?thesis using clock_runs_frame assms by (metis surj_pair)
qed

lemma clock_runs_real_now:
  assumes "clock_runs s" "real_now clk old s = (t, s')"
  shows "clock_runs s'"
proof -
  obtain r u e where "real_clock_gettime clk old s = ((r, u), s\<lparr>clk_count := Suc (clk_count s), errno := e\<rparr>)" by (rule real_clock_gettime_cases)
  then show ?thesis using assms by (auto simp: real_now_def clock_runs_def steady_def lock_works_def getenv_def)
qed

lemma futex_loop_returns: "clock_runs s \<Longrightarrow> \<exists>r s'. futex_wait_loop garbage clk op T now_fake script s = Inr (r, s')"
proof (induction "length script" arbitrary: now_fake script s rule: less_induct)
  case less
  show ?case
  proof (cases "timespeccmp now_fake T (\<ge>)")
    case True
    then show ?thesis by (simp add: futex_wait_loop.simps)
  next
    case False
    obtain t s1 where s1: "real_now clk garbage s = (t, s1)" by force
    obtain r fake_now s2 where s2: "fake_clock_gettime clk garbage s1 = Inr ((r, fake_now), s2)" "clock_runs s2"
      using clock_runs_reads [OF clock_runs_real_now [OF less.prems s1]] by blast
    obtain q now' s3 where s3: "fake_clock_gettime clk now_fake s2 = Inr ((q, now'), s3)" "clock_runs s3" using clock_runs_reads [OF s2(2)] by blast
    define w where "w = timespecadd t (if user_rate_set s2 \<and> \<not> dont_fake s2 then timespecmul (timespecsub T fake_now) (inverse_rate s2) else timespecsub T fake_now)"
    obtain res script' p where k: "make_futex_syscall op (Some w) script = (res, script', p)" by (metis surj_pair)
    have eq: "futex_wait_loop garbage clk op T now_fake script s =
        (if res \<noteq> 0 then Inr ((res, [p]), s2) else if q \<noteq> 0 then Inr ((res, [p]), s3)
         else exit_bind (futex_wait_loop garbage clk op T now' script' s3) (\<lambda>((result, log), s). Inr ((result, p # log), s)))"
      using False by (subst futex_wait_loop.simps) (simp add: s1 s2(1) s3(1) Let_def k flip: w_def)
    show ?thesis
    proof (cases "res = 0")
      case True
      then have "length script' < length script" using make_futex_shorter [OF k [symmetric] refl] by simp
      from less.hyps [OF this s3(2), of now'] show ?thesis unfolding eq by auto
    qed (simp add: eq)
  qed
qed

text \<open>What a \<^verbatim>\<open>futex\<close> wait hands to the kernel first, and what follows.\<close>

lemma futex_first_deadline:
  assumes op: "op AND FUTEX_CMD_MASK = FUTEX_WAIT_BITSET" and pre: "runs_plain (futex_clock op) T s"
  shows "\<exists>u. clock_runs u \<and> handle_futex_syscall garbage op (Some T) script s =
    (let d = Some (real_deadline (futex_clock op) T s)
     in case script of
          [] \<Rightarrow> Inr ((- 1, [d], Some T), u)
        | r # rs \<Rightarrow>
           if r \<noteq> 0 then Inr ((r, [d], Some T), u)
           else exit_bind (fake_clock_gettime (futex_clock op) garbage u) (\<lambda>((r, now_fake), s).
             if r \<noteq> 0 then Inr ((0, [d], Some T), s)
             else exit_bind (futex_wait_loop garbage (futex_clock op) op T now_fake rs s) (\<lambda>((result, log), s). Inr ((result, d # log, Some T), s))))"
proof -
  let ?c = "futex_clock op" and ?s = "s\<lparr>clk_count := Suc (clk_count s)\<rparr>"
  obtain now where now: "clk_read s (clk_count s) ?c = Some now" "modest now" and m: "modest_deadline ?c T s"
    and st: "clock_runs s" "\<not> user_rate_set s" "0 \<le> tv_sec (real_deadline ?c T s)"
    using pre by (auto simp: runs_plain_def)
  have c: "?c \<noteq> CLOCK_PROCESS_CPUTIME_ID" "?c \<noteq> CLOCK_THREAD_CPUTIME_ID" by (simp_all add: futex_clock_def)
  have s': "clock_runs ?s" "modest_deadline ?c T ?s" "real_deadline ?c T ?s = real_deadline ?c T s" "running_time ?c ?s = running_time ?c s"
    using st m by (simp_all add: clock_runs_def steady_def lock_works_def getenv_def modest_deadline_def real_deadline_def inverse_rate_def running_time_def [abs_def])
  have n: "ts_normal now" using now(2) by (simp add: modest_def)
  obtain u where fc: "fake_clock_gettime ?c now ?s = Inr ((0, running_time ?c ?s now), u)"
    using clock_runs_reading [OF s'(1,2) clock_frame_refl n c] by auto
  then have cu: "clock_runs u" using clock_runs_reads [OF s'(1), of ?c now] by auto
  have rd: "timespecsub T (timespecsub (running_time ?c ?s now) now) = real_deadline ?c T s"
    using shifted_deadline [OF s'(2) _ now(2)] st(2) s'(3) by simp
  have "ts_normal (real_deadline ?c T s)"
    using m st(2) timespecadd_total(1) timespecsub_total(1) by (simp add: real_deadline_def modest_deadline_def modest_def)
  then have "0 \<le> tv_nsec (real_deadline ?c T s)" by (simp add: normal_def)
  with st(3) op have k: "make_futex_syscall op (Some (real_deadline ?c T s)) script = kernel_futex (Some (real_deadline ?c T s)) script"
    by (simp add: make_futex_syscall_def)
  have rn: "real_now ?c garbage s = (now, ?s)" using now(1) by (simp add: real_now_def real_clock_gettime_def)
  show ?thesis
    using op fc k cu
    by (intro exI [of _ u]) (simp add: handle_futex_syscall_def Let_def rn rd kernel_futex_def split: list.split flip: futex_clock_def)
qed

lemma futex_starts:
  assumes "\<not> missing_real s ''syscall''" "op AND FUTEX_CMD_MASK = FUTEX_WAIT_BITSET" "runs_plain (futex_clock op) T s"
  shows "k_futex K = [] \<or> hd (k_futex K) \<noteq> 0 \<Longrightarrow> \<exists>u. ft_syscall garbage K (Sys_futex op (Some T)) s =
      Inr (Rep_futex (case k_futex K of [] \<Rightarrow> - 1 | r # rs \<Rightarrow> r) [Some (real_deadline (futex_clock op) T s)] (Some T), u)"
    and "\<exists>r log u. ft_syscall garbage K (Sys_futex op (Some T)) s =
      Inr (Rep_futex r (Some (real_deadline (futex_clock op) T s) # log) (Some T), u)"
proof -
  let ?c = "futex_clock op"
  let ?d = "Some (real_deadline ?c T s)"
  obtain v where v: "clock_runs v" and h: "handle_futex_syscall garbage op (Some T) (k_futex K) s =
      (let d = ?d
       in case k_futex K of
            [] \<Rightarrow> Inr ((- 1, [d], Some T), v)
          | r # rs \<Rightarrow>
             if r \<noteq> 0 then Inr ((r, [d], Some T), v)
             else exit_bind (fake_clock_gettime ?c garbage v) (\<lambda>((r, now_fake), s).
               if r \<noteq> 0 then Inr ((0, [d], Some T), s)
               else exit_bind (futex_wait_loop garbage ?c op T now_fake rs s) (\<lambda>((result, log), s). Inr ((result, d # log, Some T), s))))"
    using futex_first_deadline [OF assms(2,3), of garbage "k_futex K"] by blast
  note f = ft_syscall_def check_missing_real_def
  show "\<exists>u. ft_syscall garbage K (Sys_futex op (Some T)) s = Inr (Rep_futex (case k_futex K of [] \<Rightarrow> - 1 | r # rs \<Rightarrow> r) [?d] (Some T), u)"
    if "k_futex K = [] \<or> hd (k_futex K) \<noteq> 0"
    using that assms(1) h by (cases "k_futex K") (simp_all add: f)
  obtain q now' v' where v': "fake_clock_gettime ?c garbage v = Inr ((q, now'), v')" "clock_runs v'" using clock_runs_reads [OF v] by blast
  have "\<exists>r log u. handle_futex_syscall garbage op (Some T) (k_futex K) s = Inr ((r, ?d # log, Some T), u)"
  proof (cases "k_futex K")
    case (Cons r rs)
    obtain x u where "futex_wait_loop garbage ?c op T now' rs v' = Inr (x, u)" using futex_loop_returns [OF v'(2)] by blast
    then show ?thesis using h v'(1) by (cases x) (simp add: Cons Let_def)
  qed (use h in simp)
  then show "\<exists>r log u. ft_syscall garbage K (Sys_futex op (Some T)) s = Inr (Rep_futex r (?d # log) (Some T), u)"
    using assms(1) by (auto simp: f)
qed

text \<open>
  The deadline of an operation that is neither \<^verbatim>\<open>FUTEX_WAIT\<close> nor \<^verbatim>\<open>FUTEX_WAIT_BITSET\<close>, such as that of \<^verbatim>\<open>FUTEX_LOCK_PI\<close>, is
  handed on without a conversion.
\<close>

lemma futex_others_unchanged:
  assumes "\<not> missing_real s ''syscall''" "op AND FUTEX_CMD_MASK \<notin> {FUTEX_WAIT, FUTEX_WAIT_BITSET}" "0 \<le> tv_sec T" "0 \<le> tv_nsec T"
  shows "ft_syscall garbage K (Sys_futex op (Some T)) s = Inr (Rep_futex (fst (kernel_futex (Some T) (k_futex K))) [Some T] (Some T), s)"
  using assms by (simp add: ft_syscall_def check_missing_real_def handle_futex_syscall_def Let_def make_futex_syscall_def kernel_futex_def split: list.split)

text \<open>
  A wait of \<^verbatim>\<open>FUTEX_WAIT_BITSET\<close> that another thread ends in time (the kernel returns 0) is started again as long as
  the timeout has not passed on the faked clock: what the caller receives is the outcome of the last
  wait, here an error, and not that it was woken.
\<close>

lemma futex_wakeup_swallowed:
  assumes op: "op AND FUTEX_CMD_MASK = FUTEX_WAIT_BITSET" and r: "r \<noteq> 0"
    and c: "real_now (futex_clock op) garbage s = (real1, s1)" "fake_clock_gettime (futex_clock op) real1 s1 = Inr ((0, fake1), s2)"
      "fake_clock_gettime (futex_clock op) garbage s2 = Inr ((0, fake2), s3)" "\<not> timespeccmp fake2 T (\<ge>)"
      "real_now (futex_clock op) garbage s3 = (real3, s4)" "fake_clock_gettime (futex_clock op) garbage s4 = Inr ((0, fake3), s5)"
  shows "\<exists>p q. handle_futex_syscall garbage op (Some T) [0, r] s = Inr ((r, [Some p, Some q], Some T), s5)"
proof -
  have k: "\<exists>p. make_futex_syscall op (Some t) (k # rs) = (k, rs, Some p)" for t k rs
    by (simp add: make_futex_syscall_def kernel_futex_def Let_def)
  obtain p where p: "make_futex_syscall op (Some (timespecsub T (timespecsub fake1 real1))) [0, r] = (0, [r], Some p)" using k by blast
  let ?w = "if user_rate_set s5 \<and> \<not> dont_fake s5 then timespecmul (timespecsub T fake3) (inverse_rate s5) else timespecsub T fake3"
  obtain q where q: "make_futex_syscall op (Some (timespecadd real3 ?w)) [r] = (r, [], Some q)" using k by blast
  have "futex_wait_loop garbage (futex_clock op) op T fake2 [r] s3 = Inr ((r, [Some q]), s5)"
    using c(4-6) q r by (subst futex_wait_loop.simps) (simp add: Let_def)
  then show ?thesis
    using op c(1-3) p by (simp add: handle_futex_syscall_def Let_def flip: futex_clock_def)
qed

section \<open>Properties\<close>

text \<open>
  Claim C39.
  Raw system calls wait on the faked clock, while it runs without a rate: the absolute deadline that \<^verbatim>\<open>syscall\<close> hands to the kernel for
  \<^verbatim>\<open>clock_nanosleep\<close> on the real-time or monotonic clock, and the first one it hands on for a \<^verbatim>\<open>FUTEX_WAIT_BITSET\<close> on that clock (private
  or not), are the same time, and the real clock reaches it exactly when what \<^verbatim>\<open>fake_clock_gettime\<close> makes of its time reaches the requested one;
  for the \<^verbatim>\<open>futex\<close> because shifting by the current difference of the clocks is the same as converting from the start of the program. The
  caller's timeout is left as it was. If the kernel ends this wait with a timeout or an error, the call returns that at once; if it ends it
  with 0, the call still returns, but the further deadlines depend on uninitialised variables, and nothing is claimed of them.
\<close>

theorem raw_waits_expire:
  assumes "\<not> missing_real s ''syscall''" "\<not> user_rate_set s" "steady s" "lock_works s" "ft_mode s = FT_START_AT" "\<not> user_per_tick_inc_set s"
    and "op AND FUTEX_CMD_MASK = FUTEX_WAIT_BITSET" "clk = (if op AND FUTEX_CLOCK_REALTIME \<noteq> 0 then CLOCK_REALTIME else CLOCK_MONOTONIC)"
    and "get_fake_monotonic_setting (fake_monotonic_clock s) s \<noteq> 0"
    and "modest_deadline clk T s" "clk_read s (clk_count s) clk = Some now" "modest now" "0 \<le> tv_sec (real_deadline clk T s)"
  shows "\<exists>d. expires_when clk T d s \<and>
    (\<exists>rc rem' s'. ft_syscall garbage K (Sys_clock_nanosleep clk True (Some T) rem) s = Inr (Rep_sleep rc rem' (Some d), s')) \<and>
    (\<exists>r log s'. ft_syscall garbage K (Sys_futex op (Some T)) s = Inr (Rep_futex r (Some d # log) (Some T), s')) \<and>
    (k_futex K = [] \<or> hd (k_futex K) \<noteq> 0 \<longrightarrow>
      (\<exists>s'. ft_syscall garbage K (Sys_futex op (Some T)) s = Inr (Rep_futex (case k_futex K of [] \<Rightarrow> - 1 | r # rs \<Rightarrow> r) [Some d] (Some T), s')))"
proof -
  have clk: "clk = futex_clock op" using assms(8) by (simp add: futex_clock_def)
  have r: "clock_runs s" using assms(3-6) by (simp add: clock_runs_def)
  then have p: "runs_plain clk T s" using assms(2,10-13) by (simp add: runs_plain_def)
  have "converts_raw s" using assms(1,3) by (auto simp: converts_raw_def steady_def)
  with assms(8,9) have n: "\<exists>rc rem' s'. ft_syscall garbage K (Sys_clock_nanosleep clk True (Some T) rem) s = Inr (Rep_sleep rc rem' (Some (real_deadline clk T s)), s')"
    by (intro raw_nanosleep_passes) simp_all
  have "expires_when clk T (real_deadline clk T s) s" using real_deadline_expires [OF r assms(10,2)] assms(8) by simp
  then show ?thesis
    using n futex_starts [OF assms(1,7) p [unfolded clk], folded clk] by blast
qed

lemma sample_runs_plain:
  assumes "clk = CLOCK_REALTIME \<or> clk = CLOCK_MONOTONIC"
  shows "runs_plain clk \<lparr>tv_sec = 2000, tv_nsec = 0\<rparr> sample_ready"
proof -
  note p = sample_ready_props(1-7) [of 0]
  have z: "sample_ready\<lparr>clk_count := 0\<rparr> = sample_ready" by (simp add: sample_ready_def sample_running_def static_defs)
  have "tv_sec (real_deadline clk \<lparr>tv_sec = 2000, tv_nsec = 0\<rparr> sample_ready) \<ge> 0"
    using assms p unfolding z by (auto simp: real_deadline_def start_of_clock_def sample_start_def timespecsub_def timespecadd_def
        timersub2_def timeradd2_def SEC_TO_nSEC_def wrap_s64_def pair_ts_def)
  then show ?thesis
    using assms p unfolding z
    by (auto simp: runs_plain_def clock_runs_def modest_deadline_def modest_def normal_def in_s64_def start_of_clock_def sample_start_def SEC_TO_nSEC_def
        sample_ready_props)
qed

theorem raw_waits_expire_witness:
  "\<exists>d s'. expires_when CLOCK_REALTIME \<lparr>tv_sec = 2000, tv_nsec = 0\<rparr> d sample_ready \<and>
     ft_syscall unset_time \<lparr>k_getrandom = \<lambda>b n. (0, b), k_clock_gettime = \<lambda>c t. (0, t), k_clock_nanosleep = \<lambda>c a q r. (0, r), k_futex = [], k_other = \<lambda>n a. 0\<rparr>
       (Sys_futex (9 OR 128 OR 256) (Some \<lparr>tv_sec = 2000, tv_nsec = 0\<rparr>)) sample_ready = Inr (Rep_futex (- 1) [Some d] (Some \<lparr>tv_sec = 2000, tv_nsec = 0\<rparr>), s')"
proof -
  let ?T = "\<lparr>tv_sec = 2000, tv_nsec = 0\<rparr>" and ?op = "9 OR 128 OR 256 :: int"
  let ?K = "\<lparr>k_getrandom = \<lambda>b n. (0, b), k_clock_gettime = \<lambda>c t. (0, t), k_clock_nanosleep = \<lambda>c a q r. (0, r), k_futex = [], k_other = \<lambda>n a. 0\<rparr>"
  have g: "get_fake_monotonic_setting (fake_monotonic_clock sample_ready) sample_ready \<noteq> 0"
    by (simp add: get_fake_monotonic_setting_def sample_ready_props) (simp add: sample_ready_def sample_running_def static_defs getenv_def)
  have c: "\<not> missing_real sample_ready ''syscall''" "\<not> user_rate_set sample_ready" "steady sample_ready" "lock_works sample_ready"
    "ft_mode sample_ready = FT_START_AT" "\<not> user_per_tick_inc_set sample_ready"
    by (simp_all add: sample_ready_def sample_running_def static_defs steady_def lock_works_def getenv_def)
  have o: "?op AND FUTEX_CMD_MASK = FUTEX_WAIT_BITSET" "CLOCK_REALTIME = (if ?op AND FUTEX_CLOCK_REALTIME \<noteq> 0 then CLOCK_REALTIME else CLOCK_MONOTONIC)"
    by simp_all
  obtain now where r: "modest_deadline CLOCK_REALTIME ?T sample_ready" "clk_read sample_ready (clk_count sample_ready) CLOCK_REALTIME = Some now"
    "modest now" "0 \<le> tv_sec (real_deadline CLOCK_REALTIME ?T sample_ready)"
    using sample_runs_plain [of CLOCK_REALTIME] by (auto simp: runs_plain_def)
  show ?thesis using raw_waits_expire [OF c o g r, of unset_time ?K None] by auto
qed

end
