(* ===== verification/Library_Runs.thy ===== *)
theory Library_Runs
  imports Set_Time Syscall_Futex File_Times
begin

text \<open>
  Runs of a program with the library: the calls a program makes, as data, their effect on the state
  of the library, and the states that a program reaches by any sequence of calls, between which the
  time advances, other processes work on the shared memory and the program changes its environment. The
  invariant of the configuration holds in all of them.
\<close>

section \<open>Calls\<close>

text \<open>
  The arguments of each call, with what the real function does where there is one. \<open>Call_stat\<close> is any function of
  the \<^verbatim>\<open>stat\<close> family: the name of the real pointer, whether its structure is the 64-bit one, and the outcome.
\<close>

datatype api_call =
    Call_time "int option"
  | Call_ftime "timeb option"
  | Call_gettimeofday "timeval option"
  | Call_clock_gettime int "timespec option"
  | Call_timespec_get "timespec option" int
  | Call_clock_settime timespec int "timespec option"
  | Call_settimeofday timespec "timeval option"
  | Call_adjtime timespec "timeval option" "timeval option"
  | Call_nanosleep real_sleep "timespec option" "timespec option"
  | Call_clock_nanosleep real_sleep int bool "timespec option" "timespec option"
  | Call_usleep "passed_sleep \<Rightarrow> int" int
  | Call_sleep timespec real_sleep "int \<Rightarrow> int" int
  | Call_alarm "int \<Rightarrow> int" int
  | Call_ppoll "timespec option \<Rightarrow> int" "timespec option"
  | Call_poll "int \<Rightarrow> int" int
  | Call_epoll_wait "int \<Rightarrow> int" int
  | Call_epoll_pwait "int \<Rightarrow> int" int
  | Call_select "timeval option \<Rightarrow> int \<times> timeval option" "timeval option"
  | Call_pselect "timespec option \<Rightarrow> int" "timespec option"
  | Call_sem_timedwait "timespec \<Rightarrow> int" "timespec option"
  | Call_sem_clockwait "int \<Rightarrow> timespec option \<Rightarrow> int" int "timespec option"
  | Call_timer_settime real_settime bool "itimerspec option" "itimerspec option"
  | Call_timer_gettime real_gettime "itimerspec option"
  | Call_timerfd_settime bool "string option" "timerfd_clock_entry list" real_settime int bool "itimerspec option" "itimerspec option"
  | Call_timerfd_gettime real_gettime "itimerspec option"
  | Call_cond_timedwait timedwait_calls monotonic_conds "64 word" "timespec option"
  | Call_getrandom real_random "8 word list option" nat
  | Call_getentropy real_random "8 word list option" nat
  | Call_getpid
  | Call_syscall timespec kernel syscall_request
  | Call_stat string bool "int \<times> stat_buf option"
  | Call_statx "int \<times> statx_buf option"
  | Call_utime "utimbuf option"
  | Call_utimes "(timeval \<times> timeval) option"
  | Call_utimensat "(timespec \<times> timespec) option"
  | Call_futimens "(timespec \<times> timespec) option"

definition effect :: "(ft_state \<Rightarrow> ('r \<times> ft_state) exitable) \<Rightarrow> ft_state \<Rightarrow> ft_state exitable" where
  "effect op s = exit_bind (op s) (\<lambda>(r, s). Inr s)"

fun api_effect :: "api_call \<Rightarrow> ft_state \<Rightarrow> ft_state exitable" where
  "api_effect (Call_time p) = effect (ft_time p)"
| "api_effect (Call_ftime b) = effect (ft_ftime b)"
| "api_effect (Call_gettimeofday tv) = effect (ft_gettimeofday tv)"
| "api_effect (Call_clock_gettime clk tp) = effect (clock_gettime clk tp)"
| "api_effect (Call_timespec_get ts base) = effect (timespec_get ts base)"
| "api_effect (Call_clock_settime g clk tp) = effect (clock_settime g clk tp)"
| "api_effect (Call_settimeofday g tv) = effect (ft_settimeofday g tv)"
| "api_effect (Call_adjtime g d old) = effect (ft_adjtime g d old)"
| "api_effect (Call_nanosleep f req rem) = effect (ft_nanosleep f req rem)"
| "api_effect (Call_clock_nanosleep f clk a req rem) = effect (ft_clock_nanosleep f clk a req rem)"
| "api_effect (Call_usleep f n) = effect (ft_usleep f n)"
| "api_effect (Call_sleep x f g n) = effect (ft_sleep x f g n)"
| "api_effect (Call_alarm f n) = effect (ft_alarm f n)"
| "api_effect (Call_ppoll f t) = effect (ft_ppoll f t)"
| "api_effect (Call_poll f t) = effect (ft_poll f t)"
| "api_effect (Call_epoll_wait f t) = effect (ft_epoll_wait f t)"
| "api_effect (Call_epoll_pwait f t) = effect (ft_epoll_pwait f t)"
| "api_effect (Call_select f t) = effect (ft_select f t)"
| "api_effect (Call_pselect f t) = effect (ft_pselect f t)"
| "api_effect (Call_sem_timedwait f t) = effect (ft_sem_timedwait f t)"
| "api_effect (Call_sem_clockwait f clk t) = effect (ft_sem_clockwait f clk t)"
| "api_effect (Call_timer_settime f a n old) = effect (timer_settime_233 f a n old)"
| "api_effect (Call_timer_gettime f c) = effect (timer_gettime_233 f c)"
| "api_effect (Call_timerfd_settime ok i es f fd a n old) = effect (timerfd_settime ok i es f fd a n old)"
| "api_effect (Call_timerfd_gettime f c) = effect (timerfd_gettime f c)"
| "api_effect (Call_cond_timedwait c conds cond t) = effect (pthread_cond_timedwait_232 c conds cond t)"
| "api_effect (Call_getrandom f b n) = effect (ft_getrandom f b n)"
| "api_effect (Call_getentropy f b n) = effect (ft_getentropy f b n)"
| "api_effect Call_getpid = effect ft_getpid"
| "api_effect (Call_syscall g K req) = effect (ft_syscall g K req)"
| "api_effect (Call_stat name is64 outcome) = effect (stat_handler name (if is64 then fake_stat64buf else fake_statbuf) outcome)"
| "api_effect (Call_statx outcome) = effect (ft_statx outcome)"
| "api_effect (Call_utime tms) = effect (ft_utime tms)"
| "api_effect (Call_utimes tms) = effect (ft_utimes tms)"
| "api_effect (Call_utimensat tms) = effect (ft_utimensat tms)"
| "api_effect (Call_futimens tms) = effect (ft_futimens tms)"

section \<open>Runs\<close>

text \<open>
  A step is a call that returns, or a change from outside: the clocks, the shared memory (by other
  processes), the environment, the configuration files and what the coming system calls will return.
\<close>

inductive lib_step :: "ft_state \<Rightarrow> ft_state \<Rightarrow> bool" where
  call: "api_effect c s = Inr s' \<Longrightarrow> lib_step s s'"
| outside: "lib_step s (s\<lparr>clk_count := n, shm := sh, environ := env, config_files := files, mtimes := times',
     lock_script := ls, unlock_script := us, call_script := cs, errno := e\<rparr>)"

inductive reachable :: "os_state \<Rightarrow> ft_state \<Rightarrow> bool" for os where
  start: "reachable os (static_state os)"
| step: "reachable os s \<Longrightarrow> lib_step s s' \<Longrightarrow> reachable os s'"

inductive_cases lib_stepE: "lib_step s s'"

section \<open>Lemmas: every call keeps the invariant\<close>

text \<open>The contract of a call, and how it passes to its effect.\<close>

locale keeps_invariant =
  fixes op :: "ft_state \<Rightarrow> ('r \<times> ft_state) exitable"
  assumes keeps: "ft_inv s \<Longrightarrow> returns (op s) (\<lambda>(r, s'). ft_inv s')"
begin

lemma effect_keeps: "ft_inv s \<Longrightarrow> effect op s = Inr s' \<Longrightarrow> ft_inv s'"
  using keeps [of s] by (auto simp: effect_def exit_bind_eq_Inr)

end

lemma after_ready: "ft_inv s \<Longrightarrow> (\<And>s. ft_inv s \<Longrightarrow> returns (f s) Q) \<Longrightarrow> returns (exit_bind (ftpl_ready s) f) Q"
  using ftpl_ready_inv by (rule returns_bind)

lemma check_missing_real_cases: "check_missing_real n s = (\<not> missing_real s n, if missing_real s n then s\<lparr>errno := ENOSYS\<rparr> else s)"
  by (simp add: check_missing_real_def)

lemma absolute_deadline_inv: "ft_inv (snd (absolute_deadline clk T s)) = ft_inv s"
  by (simp add: absolute_deadline_def Let_def)

interpretation time_call: keeps_invariant "ft_time p" by unfold_locales (rule ft_time_inv)
interpretation ftime_call: keeps_invariant "ft_ftime b" by unfold_locales (rule ft_ftime_inv)
interpretation gettimeofday_call: keeps_invariant "ft_gettimeofday tv" by unfold_locales (rule ft_gettimeofday_inv)
interpretation clock_gettime_call: keeps_invariant "clock_gettime clk tp" by unfold_locales (rule clock_gettime_inv)
interpretation timespec_get_call: keeps_invariant "timespec_get ts base" by unfold_locales (rule timespec_get_inv)

interpretation nanosleep_call: keeps_invariant "ft_nanosleep f req rem"
  by unfold_locales (auto simp: ft_nanosleep_def Let_def intro!: after_ready split: option.split prod.split)

interpretation clock_nanosleep_call: keeps_invariant "ft_clock_nanosleep f clk a req rem"
  using absolute_deadline_inv
  by unfold_locales (auto simp: ft_clock_nanosleep_def Let_def split_def intro!: after_ready split: option.split)

interpretation usleep_call: keeps_invariant "ft_usleep f n"
  by unfold_locales (auto simp: ft_usleep_def Let_def intro!: after_ready)

interpretation sleep_call: keeps_invariant "ft_sleep x f g n"
  by unfold_locales (auto simp: ft_sleep_def Let_def intro!: after_ready split: prod.split)

interpretation alarm_call: keeps_invariant "ft_alarm f n"
  by unfold_locales (auto simp: ft_alarm_def Let_def intro!: after_ready)

interpretation ppoll_call: keeps_invariant "ft_ppoll f t"
  by unfold_locales (auto simp: ft_ppoll_def Let_def intro!: after_ready)

interpretation ms_wait: keeps_invariant "milliseconds_wait fn f t"
  by unfold_locales (auto simp: milliseconds_wait_def Let_def intro!: after_ready)

interpretation select_call: keeps_invariant "ft_select f t"
  by unfold_locales (auto simp: ft_select_def Let_def intro!: after_ready split: prod.split)

interpretation pselect_call: keeps_invariant "ft_pselect f t"
  by unfold_locales (auto simp: ft_pselect_def Let_def intro!: after_ready)

interpretation sem_timedwait_call: keeps_invariant "ft_sem_timedwait f t"
  by unfold_locales (auto simp: ft_sem_timedwait_def check_missing_real_cases Let_def intro!: after_ready split: option.split)

lemma real_clock_gettime_inv [simp]: "ft_inv (snd (real_clock_gettime clk old s)) = ft_inv s"
  by (simp add: real_clock_gettime_def split: option.split)

lemma update_timestamp_file_inv: "ft_inv (update_timestamp_file t s) = ft_inv s"
proof -
  have "ft_inv (s\<lparr>config_files := c\<rparr>) = ft_inv s" for s c by (simp add: ft_inv_def config_ok_def replay_ok_def)
  then show ?thesis by (simp add: update_timestamp_file_def split_def Let_def split: option.split)
qed

interpretation clock_settime_call: keeps_invariant "clock_settime g clk tp"
proof
  fix s assume "ft_inv s"
  then have "returns (clock_gettime c (Some x) (s\<lparr>dont_fake := True\<rparr>)) (\<lambda>(r, s'). ft_inv s')" for c x by (intro clock_gettime_inv) simp
  then show "returns (clock_settime g clk tp s) (\<lambda>(r, s'). ft_inv s')"
    using \<open>ft_inv s\<close> update_timestamp_file_inv
    by (auto simp: clock_settime_def Let_def split_def intro!: returns_bind split: option.split)
qed

interpretation settimeofday_call: keeps_invariant "ft_settimeofday g tv"
  by unfold_locales (auto simp: ft_settimeofday_def intro!: returns_bind [OF clock_settime_call.keeps] split: option.split)

interpretation adjtime_call: keeps_invariant "ft_adjtime g d old"
  by unfold_locales
    (auto simp: ft_adjtime_def Let_def split_def intro!: returns_bind [OF clock_gettime_inv] returns_bind [OF clock_settime_call.keeps] split: option.split)

lemma sem_clockwait_diff_inv: "ft_inv s \<Longrightarrow> returns (sem_clockwait_diff clk T s) (\<lambda>(d, s'). ft_inv s')"
  by (auto simp: sem_clockwait_diff_def split_def intro!: returns_bind [OF fake_clock_gettime_inv])

interpretation sem_clockwait_call: keeps_invariant "ft_sem_clockwait f clk t"
  by unfold_locales
    (auto simp: ft_sem_clockwait_def check_missing_real_cases Let_def split_def
      intro!: after_ready returns_bind [OF sem_clockwait_diff_inv] split: option.split)

lemma ft_inv_base_time [simp]: "ft_inv (s\<lparr>user_faked_time_timespec := t\<rparr>) = ft_inv s"
  by (simp add: ft_inv_def config_ok_def replay_ok_def)

lemma timer_new_real_inv: "ft_inv (snd (timer_new_real a clk n s)) = ft_inv s"
  by (simp add: timer_new_real_def timer_absolute_def Let_def split_def split: option.split)

lemma timer_old_value_inv: "ft_inv s \<Longrightarrow> returns (timer_old_value ov r s) (\<lambda>(x, s'). ft_inv s')"
  by (auto simp: timer_old_value_def split_def intro!: returns_bind [where P = "\<lambda>(x, s'). ft_inv s'"] fake_clock_gettime_inv)

interpretation timer_settime_common_call: keeps_invariant "timer_settime_common f a n old mode clk"
  using timer_new_real_inv
  by unfold_locales
    (auto simp: timer_settime_common_def Let_def split_def intro!: after_ready returns_bind [OF timer_old_value_inv] split: option.split)

interpretation timer_gettime_common_call: keeps_invariant "timer_gettime_common f c mode"
  by unfold_locales (auto simp: timer_gettime_common_def split_def intro!: after_ready)

interpretation timer_settime_call: keeps_invariant "timer_settime_233 f a n old"
  by unfold_locales (auto simp: timer_settime_233_def timer_settime_common_call.keeps intro!: after_ready)

interpretation timer_gettime_call: keeps_invariant "timer_gettime_233 f c"
  by unfold_locales (auto simp: timer_gettime_233_def timer_gettime_common_call.keeps intro!: after_ready)

interpretation timerfd_settime_call: keeps_invariant "timerfd_settime ok i es f fd a n old"
  by unfold_locales (auto simp: timerfd_settime_def timer_settime_common_call.keeps intro!: after_ready)

interpretation timerfd_gettime_call: keeps_invariant "timerfd_gettime f c"
  by unfold_locales (auto simp: timerfd_gettime_def timer_gettime_common_call.keeps intro!: after_ready)

lemma cond_difference_inv: "ft_inv s \<Longrightarrow> returns (cond_difference clk T r f s) (\<lambda>(d, s'). ft_inv s')"
  by (auto simp: cond_difference_def Let_def split_def intro!: exit_any split: option.split)

lemma cond_deadline_inv: "ft_inv (snd (cond_deadline a b clk r f d s)) = ft_inv s"
  by (simp add: cond_deadline_def split_def)

lemma cond_deadline_invD: "cond_deadline a b clk r f d s = (x, s') \<Longrightarrow> ft_inv s' = ft_inv s"
  using cond_deadline_inv [of a b clk r f d s] by simp

interpretation cond_timedwait_call: keeps_invariant "pthread_cond_timedwait_232 c conds cond t"
proof
  fix s assume "ft_inv s"
  then show "returns (pthread_cond_timedwait_232 c conds cond t s) (\<lambda>(r, s'). ft_inv s')"
    unfolding pthread_cond_timedwait_232_def pthread_cond_timedwait_common_def
  proof (rule after_ready)
    fix s assume s: "ft_inv s"
    have wait: "returns (exit_bind (fake_clock_gettime clk r u) (\<lambda>((_, faketime), s).
          exit_bind (cond_difference clk T r faketime s) (\<lambda>(d, s).
            case d of Inl err \<Rightarrow> Inr ((err, None), s)
            | Inr (realtime, tdiff_actual) \<Rightarrow>
               (case cond_deadline (fst (glibc_version c)) (snd (glibc_version c)) clk realtime faketime tdiff_actual s of
                  (Inl err, s) \<Rightarrow> Inr ((err, None), s)
                | (Inr tp, s) \<Rightarrow> Inr ((real_timedwait c FT_COMPAT_GLIBC_2_3_2 (Some tp), Some (Some tp)), s))))) (\<lambda>(r, s'). ft_inv s')"
      if "ft_inv u" for clk r u T
      using that by (intro returns_bind [OF fake_clock_gettime_inv [where h = False]]; clarsimp)
        (rule returns_bind [OF cond_difference_inv], assumption, auto split: sum.split prod.split dest: cond_deadline_invD)
    show "returns (case t of None \<Rightarrow> Inr ((real_timedwait c FT_COMPAT_GLIBC_2_3_2 None, Some None), s)
        | Some abstime \<Rightarrow>
            if rdlock_result c \<noteq> 0 then Inr ((rdlock_result c, None), s)
            else exit_bind (no_fault (HASH_FIND_PTR conds cond)) (\<lambda>e.
              if rdunlock_result c \<noteq> 0 then Inr ((rdunlock_result c, None), s)
              else let clk_id = (if e \<noteq> NULL then CLOCK_MONOTONIC else CLOCK_REALTIME)
              in case real_clock_gettime clk_id \<lparr>tv_sec = 0, tv_nsec = 0\<rparr> s of ((result, realtime), s) \<Rightarrow>
                 if result = - 1 then Inr ((EINVAL, None), s)
                 else exit_bind (fake_clock_gettime clk_id realtime s) (\<lambda>((_, faketime), s).
                   exit_bind (cond_difference clk_id abstime realtime faketime s) (\<lambda>(d, s).
                     case d of
                       Inl err \<Rightarrow> Inr ((err, None), s)
                     | Inr (realtime, tdiff_actual) \<Rightarrow>
                        (case cond_deadline (fst (glibc_version c)) (snd (glibc_version c)) clk_id realtime faketime tdiff_actual s of
                           (Inl err, s) \<Rightarrow> Inr ((err, None), s)
                         | (Inr tp, s) \<Rightarrow> Inr ((real_timedwait c FT_COMPAT_GLIBC_2_3_2 (Some tp), Some (Some tp)), s))))))
        (\<lambda>(r, s'). ft_inv s')"
      using s wait by (cases "HASH_FIND_PTR conds cond") (auto simp: Let_def no_fault_def split: option.split prod.split dest: real_clock_inv)
  qed
qed

lemma bypass_inv: "ft_inv (snd (bypass_randomness b n s)) = ft_inv s"
  by (simp add: bypass_randomness_def split_def split: option.split)

interpretation getrandom_call: keeps_invariant "ft_getrandom f b n"
  using bypass_inv by unfold_locales (auto simp: ft_getrandom_def check_missing_real_cases split_def intro!: after_ready)

interpretation getentropy_call: keeps_invariant "ft_getentropy f b n"
  using bypass_inv by unfold_locales (auto simp: ft_getentropy_def check_missing_real_cases split_def intro!: after_ready)

interpretation getpid_call: keeps_invariant ft_getpid
  by unfold_locales (auto simp: ft_getpid_def check_missing_real_cases split_def intro!: after_ready split: option.split)

lemma real_now_inv: "real_now clk old s = (t, s') \<Longrightarrow> ft_inv s' = ft_inv s"
  by (auto simp: real_now_def split: prod.splits dest: real_clock_inv)

lemma futex_wait_loop_inv: "ft_inv s \<Longrightarrow> returns (futex_wait_loop g clk op T now script s) (\<lambda>(r, s'). ft_inv s')"
proof (induction "length script" arbitrary: now script s rule: less_induct)
  case less
  obtain rt s1 where rn: "real_now clk g s = (rt, s1)" by fastforce
  have s1: "ft_inv s1" using real_now_inv [OF rn] less.prems by simp
  have again: "returns (exit_bind (fake_clock_gettime clk now u) (\<lambda>((r, now_fake), s).
        if r \<noteq> 0 then Inr ((x, [p]), s)
        else exit_bind (futex_wait_loop g clk op T now_fake script' s) (\<lambda>((result, log), s). Inr ((result, p # log), s))))
      (\<lambda>(r, s'). ft_inv s')"
    if "ft_inv u" "length script' < length script" for u script' x and p :: "timespec option"
    using that by (auto intro!: returns_bind [OF fake_clock_gettime_inv] returns_bind [OF less.hyps])
  have wait: "returns (case make_futex_syscall op t script of (result, script', passed) \<Rightarrow>
        if result \<noteq> 0 then Inr ((result, [passed]), u)
        else exit_bind (fake_clock_gettime clk now u) (\<lambda>((r, now_fake), s).
          if r \<noteq> 0 then Inr ((result, [passed]), s)
          else exit_bind (futex_wait_loop g clk op T now_fake script' s) (\<lambda>((result, log), s). Inr ((result, passed # log), s))))
      (\<lambda>(r, s'). ft_inv s')" if "ft_inv u" for t u
  proof (cases "make_futex_syscall op t script")
    case (fields result script' passed)
    then show ?thesis using again [OF that, of script' result passed] make_futex_shorter [OF fields [symmetric] refl] that by auto
  qed
  show ?case unfolding futex_wait_loop.simps [of g clk op T now script s] rn prod.case Let_def
    using less.prems wait by (auto intro!: returns_bind [OF fake_clock_gettime_inv [OF s1]])
qed

interpretation futex_call: keeps_invariant "handle_futex_syscall g op t script"
proof
  fix s assume s: "ft_inv s"
  have first: "returns (exit_bind (fake_clock_gettime clk r u) (\<lambda>((r', fake_tp), s).
        if r' = - 1 then (case make_futex_syscall op t script of (result, _, passed) \<Rightarrow> Inr ((result, [passed], passed), s))
        else case make_futex_syscall op (Some (timespecsub T (timespecsub fake_tp r))) script of (result, script', passed) \<Rightarrow>
          if result \<noteq> 0 then Inr ((result, [passed], t), s)
          else exit_bind (fake_clock_gettime clk g s) (\<lambda>((r, now_fake), s).
            if r \<noteq> 0 then Inr ((result, [passed], t), s)
            else exit_bind (futex_wait_loop g clk op T now_fake script' s) (\<lambda>((result, log), s). Inr ((result, passed # log, t), s)))))
      (\<lambda>(r, s'). ft_inv s')" if "ft_inv u" for clk r u T
    using that
    by (auto intro!: returns_bind [OF fake_clock_gettime_inv] returns_bind [OF futex_wait_loop_inv] split: prod.split)
  show "returns (handle_futex_syscall g op t script s) (\<lambda>(r, s'). ft_inv s')"
    unfolding handle_futex_syscall_def Let_def
    using s first real_now_inv by (auto split: option.split prod.split)
qed

interpretation syscall_call: keeps_invariant "ft_syscall g K req"
proof
  fix s assume s: "ft_inv s"
  have sl: "ft_inv (snd (raw_clock_nanosleep K clk a rq rem s)) = ft_inv s" for clk a rq rem
    using absolute_deadline_inv [of clk _ s] by (simp add: raw_clock_nanosleep_def split_def split: option.split)
  have "returns (exit_bind (ftpl_ready s) (\<lambda>s. Inr (real_syscall K req, s))) (\<lambda>(r, s'). ft_inv s')"
    using s by (auto intro!: after_ready)
  then show "returns (ft_syscall g K req s) (\<lambda>(r, s'). ft_inv s')"
    using s sl
    by (cases req) (auto simp: ft_syscall_def check_missing_real_cases Let_def split_def
        intro!: returns_bind [OF getrandom_call.keeps] returns_bind [OF clock_gettime_inv] returns_bind [OF futex_call.keeps])
qed

subsection \<open>Times of files\<close>

text \<open>The clock is read under the lock, which is given back at the end.\<close>

lemma lock_for_stat_inv: "ft_inv s \<Longrightarrow> returns (lock_for_stat s) (inv_upto (shared_sem_initialized s))"
proof (cases "shared_sem_initialized s")
  case True
  assume "ft_inv s"
  then have "inv_upto True ((locked s)\<lparr>user_per_tick_inc_set_backup := user_per_tick_inc_set s, user_per_tick_inc_set := False\<rparr>)"
    using True by (auto simp: inv_upto_def lock_state_def config_ok_def replay_ok_def locked_def)
  moreover have "user_per_tick_inc_set (locked s) = user_per_tick_inc_set s" by (simp add: locked_def)
  ultimately show ?thesis using True by (simp add: stat_lock.run_closed stat_locked_def)
next
  case False
  assume "ft_inv s"
  then show ?thesis using False
    by (subst lock_for_stat.simps) (auto simp: stat_locked_def inv_upto_def lock_state_def config_ok_def replay_ok_def)
qed

lemma unlock_for_stat_inv: "inv_upto h s \<Longrightarrow> returns (unlock_for_stat s) ft_inv"
proof -
  let ?s = "s\<lparr>user_per_tick_inc_set := user_per_tick_inc_set_backup s\<rparr>"
  assume inv: "inv_upto h s"
  then have c: "config_ok ?s" by (auto simp: inv_upto_def config_ok_def replay_ok_def)
  moreover have "\<not> shared_sem_initialized s \<Longrightarrow> \<not> sem_held s" using inv by (auto simp: inv_upto_def lock_state_def split: if_splits)
  ultimately show ?thesis using unlock_inv [OF c, of False]
    by (auto simp: unlock_for_stat_def Let_def inv_upto_def lock_state_def split: prod.split)
qed

lemma fake_file_time_inv: "inv_upto h s \<Longrightarrow> returns (fake_file_time t s) (\<lambda>(t, s'). inv_upto h s')"
  by (auto simp: fake_file_time_def intro!: returns_bind [OF fake_clock_gettime_inv])

lemma fake_if_inv: "inv_upto h s \<Longrightarrow> returns (fake_if m n t s) (\<lambda>(t, s'). inv_upto h s')"
  by (auto simp: fake_if_def fake_statx_timestamp_def intro!: returns_bind [OF fake_file_time_inv])

lemma fake_statbuf_inv:
  "ft_inv s \<Longrightarrow> returns (fake_statbuf b s) (\<lambda>(b, s'). ft_inv s')"
  "ft_inv s \<Longrightarrow> returns (fake_stat64buf b s) (\<lambda>(b, s'). ft_inv s')"
  "ft_inv s \<Longrightarrow> returns (fake_statxbuf b' s) (\<lambda>(b, s'). ft_inv s')"
  unfolding fake_statbuf_def fake_stat64buf_def fake_statxbuf_def
  by (rule returns_bind [OF lock_for_stat_inv], assumption,
      auto intro!: returns_bind [OF fake_file_time_inv] returns_bind [OF fake_if_inv] returns_bind [OF unlock_for_stat_inv])+

lemma stat_handler_inv:
  assumes "\<And>b s. ft_inv s \<Longrightarrow> returns (fake b s) (\<lambda>(b, s'). ft_inv s')" "ft_inv s"
  shows "returns (stat_handler name fake outcome s) (\<lambda>(r, s'). ft_inv s')"
  unfolding stat_handler_def using assms
  by (auto simp: check_missing_real_cases split: prod.split option.split intro!: after_ready returns_bind [where P = "\<lambda>(b, s'). ft_inv s'"])

interpretation stat_call: keeps_invariant "stat_handler name (if is64 then fake_stat64buf else fake_statbuf) outcome"
  by unfold_locales (rule stat_handler_inv, simp_all add: fake_statbuf_inv)

interpretation statx_call: keeps_invariant "ft_statx outcome"
  by unfold_locales (simp add: ft_statx_def stat_handler_inv fake_statbuf_inv)

lemma real_set_inv [simp]: "(case real_set t s of (r, s') \<Rightarrow> ft_inv s') = ft_inv s"
  by (simp add: real_set_def split_def)

lemma fake_current_realtime_inv: "ft_inv s \<Longrightarrow> returns (fake_current_realtime s) (\<lambda>(r, s'). ft_inv s')"
  by (auto simp: fake_current_realtime_def split: prod.split dest: real_clock_inv intro!: fake_clock_gettime_inv)

lemma fake_current_timeval_inv: "ft_inv s \<Longrightarrow> returns (fake_current_timeval s) (\<lambda>(r, s'). ft_inv s')"
  by (auto simp: fake_current_timeval_def intro!: returns_bind [OF fake_current_realtime_inv])

interpretation utime_call: keeps_invariant "ft_utime tms"
  by unfold_locales (auto simp: ft_utime_def check_missing_real_cases split: option.split
      intro!: after_ready returns_bind [OF fake_current_realtime_inv])

interpretation utimes_call: keeps_invariant "ft_utimes tms"
  by unfold_locales (auto simp: ft_utimes_def check_missing_real_cases Let_def split: option.split
      intro!: after_ready returns_bind [OF fake_current_timeval_inv])

lemma fake_one_timespec_inv: "ft_inv s \<Longrightarrow> returns (fake_one_timespec now t s) (\<lambda>(now, r, s'). ft_inv s')"
  by (auto simp: fake_one_timespec_def split: option.split intro!: returns_bind [OF fake_current_realtime_inv])

lemma fake_two_timespec_inv: "ft_inv s \<Longrightarrow> returns (fake_two_timespec tms s) (\<lambda>(r, s'). ft_inv s')"
  by (auto simp: fake_two_timespec_def split: option.split prod.split intro!: returns_bind [OF fake_one_timespec_inv])

interpretation utimensat_call: keeps_invariant "set_two_timespec fn tms"
  by unfold_locales (auto simp: set_two_timespec_def check_missing_real_cases split: option.split
      intro!: after_ready returns_bind [OF fake_two_timespec_inv])

subsection \<open>All calls\<close>

lemmas effects_keep = time_call.effect_keeps ftime_call.effect_keeps gettimeofday_call.effect_keeps clock_gettime_call.effect_keeps
  timespec_get_call.effect_keeps clock_settime_call.effect_keeps settimeofday_call.effect_keeps adjtime_call.effect_keeps
  nanosleep_call.effect_keeps clock_nanosleep_call.effect_keeps usleep_call.effect_keeps sleep_call.effect_keeps alarm_call.effect_keeps
  ppoll_call.effect_keeps ms_wait.effect_keeps select_call.effect_keeps pselect_call.effect_keeps sem_timedwait_call.effect_keeps
  sem_clockwait_call.effect_keeps timer_settime_call.effect_keeps timer_gettime_call.effect_keeps timerfd_settime_call.effect_keeps
  timerfd_gettime_call.effect_keeps cond_timedwait_call.effect_keeps getrandom_call.effect_keeps getentropy_call.effect_keeps
  getpid_call.effect_keeps syscall_call.effect_keeps stat_call.effect_keeps statx_call.effect_keeps utime_call.effect_keeps
  utimes_call.effect_keeps utimensat_call.effect_keeps

lemma api_effect_inv: "ft_inv s \<Longrightarrow> api_effect c s = Inr s' \<Longrightarrow> ft_inv s'"
  by (cases c) (auto simp: ft_poll_def ft_epoll_wait_def ft_epoll_pwait_def ft_utimensat_def ft_futimens_def intro: effects_keep)

lemma lib_step_inv: "lib_step s s' \<Longrightarrow> ft_inv s \<Longrightarrow> ft_inv s'"
  by (auto elim!: lib_stepE intro: api_effect_inv) (auto simp: ft_inv_def config_ok_def replay_ok_def)

lemma reachable_inv: "reachable os s \<Longrightarrow> \<not> sem_held os \<Longrightarrow> ft_inv s"
proof (induction rule: reachable.induct)
  case start
  then show ?case by (simp add: ft_inv_def config_ok_def replay_ok_def static_state_def)
next
  case (step s s')
  then show ?case by (blast intro: lib_step_inv)
qed

section \<open>Lemmas: nanoseconds\<close>

text \<open>The range of the nanoseconds of a \<^verbatim>\<open>struct timespec\<close>.\<close>

definition nsec_ok :: "timespec \<Rightarrow> bool" where
  "nsec_ok t \<longleftrightarrow> 0 \<le> tv_nsec t \<and> tv_nsec t < 1000000000"

lemma nsec_ok_normalize: "nsec_ok (normalize_timespec_value t)"
proof (cases "0 \<le> tv_nsec t \<and> tv_nsec t < SEC_TO_nSEC")
  case True
  then show ?thesis by (simp add: normalize_timespec_value_def nsec_ok_def SEC_TO_nSEC_def)
next
  case False
  note f = floor_from_trunc [of SEC_TO_nSEC "tv_nsec t", OF nsec.U_gt0]
  from False have "tv_nsec (normalize_timespec_value t) = tv_nsec t mod SEC_TO_nSEC"
    unfolding normalize_timespec_value_def f [symmetric] by (auto simp: Let_def)
  then show ?thesis by (simp add: nsec_ok_def SEC_TO_nSEC_def)
qed

lemma finish_time_nsec: "returns (finish_time clk t0 t s) (\<lambda>((r, t), s'). nsec_ok t)"
  by (auto simp: finish_time_def Let_def nsec_ok_normalize intro!: exit_any)

lemma mode_phase_nsec: "nsec_ok tp \<Longrightarrow> returns (mode_phase clk t0 tp s) (\<lambda>((r, t), s'). nsec_ok t)"
  using finish_time_nsec by (auto simp: mode_phase_def intro!: exit_any split: ft_mode_t.split)

lemma saved_nsec: "saved_timestamp_valid r \<Longrightarrow> nsec_ok (timespec_from_saved r)"
proof -
  assume "saved_timestamp_valid r"
  then have v: "be64_decode (snd r) mod 18446744073709551616 < 1000000000" by (simp add: saved_timestamp_valid_def SEC_TO_nSEC_def)
  have "wrap_s64 (be64_decode (snd r)) = wrap_s64 (be64_decode (snd r) mod 18446744073709551616)" by (simp add: wrap_s64_mod)
  also have "\<dots> = be64_decode (snd r) mod 18446744073709551616"
    by (rule wrap_s64_id) (use v pos_mod_sign [of 18446744073709551616 "be64_decode (snd r)"] in \<open>simp add: in_s64_def\<close>)
  finally show ?thesis using v by (simp add: nsec_ok_def timespec_from_saved_def)
qed

lemma load_time_nsec:
  assumes "config_ok s" "infile_set s" "nsec_ok tp"
  shows "returns (load_time tp s) (\<lambda>((b, t), s'). nsec_ok t)"
proof (cases "shared_sem_initialized s")
  case True
  have st: "stss s \<noteq> []" "infile_size s div 16 = int (length (stss s))" "list_all saved_timestamp_valid (stss s)"
    using assms(1,2) by (auto simp: config_ok_def replay_ok_def)
  have "nsec_ok (timespec_from_saved (stss s ! nat i))" if "\<not> i \<ge> infile_size s div 16" for i
  proof -
    have "nat i < length (stss s)" using that st(1,2) by (cases "0 \<le> i") auto
    then show ?thesis using st(3) by (intro saved_nsec) (simp add: list_all_length)
  qed
  then show ?thesis
    using load_lock.run_closed [of s tp] True assms(2,3) by (auto simp: load_time_locked_def Let_def split_def locked_def)
next
  case False
  then show ?thesis using assms(3) by (subst load_time.simps) simp
qed

lemma fake_clock_nsec:
  assumes "ft_inv s" "nsec_ok tp"
  shows "returns (fake_clock_gettime clk tp s) (\<lambda>((r, t), s'). nsec_ok t)"
proof -
  obtain a s1 where l: "limits_phase clk tp (count_call s) = (a, s1)" by fastforce
  have s1: "ft_inv s1" using limits_phase_inv [of False clk tp s] assms(1) l by simp
  obtain r cur s2 where c: "real_clock_gettime CLOCK_REALTIME \<lparr>tv_sec = 0, tv_nsec = 0\<rparr> s1 = ((r, cur), s2)" by (metis prod.collapse)
  have s2: "ft_inv (expire_cache cur s2)" using real_clock_inv [OF c] s1 expire_cache_inv by simp
  have load: "returns (exit_bind (if infile_set u then load_time tp u else Inr ((False, tp), u)) (\<lambda>((loaded, tp'), s).
      if loaded then Inr ((0, tp'), s) else mode_phase clk tp tp' s)) (\<lambda>((r, t), s'). nsec_ok t)" if "ft_inv u" for u
    using that assms(2) load_time_nsec [of u tp] mode_phase_nsec
    by (intro returns_bind [where P = "\<lambda>((b, t), s'). nsec_ok t"]) (auto simp: ft_inv_def)
  have m: "nsec_ok (timespecmul tp (user_rate s))" using timespecmul_normal [of tp "user_rate s"] by (simp add: normal_def nsec_ok_def SEC_TO_nSEC_def)
  have "returns (exit_bind (refresh_config cur (expire_cache cur s2)) (\<lambda>s.
      exit_bind (if infile_set s then load_time tp s else Inr ((False, tp), s)) (\<lambda>((loaded, tp'), s).
        if loaded then Inr ((0, tp'), s) else mode_phase clk tp tp' s))) (\<lambda>((r, t), s'). nsec_ok t)"
    by (rule returns_bind [OF refresh_config_inv [OF s2] load])
  then show ?thesis using assms(2) m by (simp add: fake_clock_gettime_def l c)
qed

section \<open>Properties\<close>

text \<open>
  Claim C3.
  In every state a program reaches, by any sequence of calls of the time, sleep, wait, timer, file
  timestamp, random and system call functions of the library, with the clocks advancing, other processes using the
  shared memory and the program changing its environment between them, the configuration is sound: the clock
  rate is a positive finite number (1 when none is asked for), the increment per call is a
  normalised time, a replayed file of timestamps is mapped with its size and valid, and the lock on the shared
  memory is not held.
\<close>

theorem reachable_states_sound:
  assumes "reachable os s" "\<not> sem_held os"
  shows "(if user_rate_set s then (\<exists>r > 0. user_rate s = Fin r) else user_rate s = Fin 1) \<and>
    (user_per_tick_inc_set s \<longrightarrow> ts_normal (user_per_tick_inc s)) \<and>
    (infile_set s \<longrightarrow> stss s \<noteq> [] \<and> infile_size s = 16 * int (length (stss s)) \<and> list_all saved_timestamp_valid (stss s)) \<and>
    \<not> sem_held s"
  using reachable_inv [OF assms] by (simp add: ft_inv_def config_ok_def replay_ok_def)

theorem reachable_states_sound_witness:
  "\<not> sem_held ((static_state sample_os)\<lparr>clk_count := 5\<rparr>) \<and> reachable sample_os ((static_state sample_os)\<lparr>clk_count := 5\<rparr>)"
proof -
  let ?s = "static_state sample_os"
  have "lib_step ?s (?s\<lparr>clk_count := 5\<rparr>)"
    using lib_step.outside [where s = ?s and n = 5 and sh = "shm ?s" and env = "environ ?s" and files = "config_files ?s" and times' = "mtimes ?s" and
        ls = "lock_script ?s" and us = "unlock_script ?s" and cs = "call_script ?s" and e = "errno ?s"]
    by simp
  then have r: "reachable sample_os (?s\<lparr>clk_count := 5\<rparr>)" by (rule reachable.step [OF reachable.start])
  have "\<not> sem_held sample_os" by (simp add: sample_os_def)
  from reachable_states_sound [OF r this] r show ?thesis by blast
qed

end
