(* ===== verification/Shm_Cleanup.thy ===== *)
theory Shm_Cleanup
  imports Random_Pid
begin

text \<open>
  Removing the shared objects at the end of a process: \<^verbatim>\<open>ft_shm_destroy\<close> and the destructor \<^verbatim>\<open>ft_cleanup\<close> of
  \<^verbatim>\<open>src/src/libfaketime.c\<close>. The owner of a pair is found by \<^verbatim>\<open>getpid\<close>, and that is the intercepted
  function of the theory \<^verbatim>\<open>Random_Pid\<close>, while the pair was named after the real process id.
\<close>

section \<open>Removal\<close>

text \<open>\<^verbatim>\<open>sscanf(sem_name, "/faketime_sem_%d", ...)\<close> on a name that \<^verbatim>\<open>parse_shared_objects\<close> accepted; the number is
  read as by \<^verbatim>\<open>strtol\<close> and stored in an \<^verbatim>\<open>int\<close>.\<close>

definition sem_owner :: "string \<Rightarrow> int option" where
  "sem_owner sem_name =
    (let ds = takeWhile isdigit (drop (length ''/faketime_sem_'') sem_name)
     in if str_prefix ''/faketime_sem_'' sem_name \<and> ds \<noteq> [] then Some (wrap_s32 (min S64_MAX (digits_val 10 digit_val ds))) else None)"

definition ft_shm_destroy :: "ft_state \<Rightarrow> ft_state exitable" where
  "ft_shm_destroy s =
    (case getenv ''FAKETIME_SHARED'' s of
       None \<Rightarrow> Inr s
     | Some env \<Rightarrow>
        (case parse_shared_objects env of
           None \<Rightarrow> Inl (Exit 1 (''libfaketime: In ft_shm_destroy(), error parsing semaphore name and shared memory id from string: '' @ env))
         | Some (sem_name, shm_name) \<Rightarrow>
            (case ft_sem_open sem_name s of (t, s) \<Rightarrow>
               case t of None \<Rightarrow> Inr s
               | Some sem \<Rightarrow>
                  (case sem_owner sem_name of
                     None \<Rightarrow> Inl (Exit 1 (''libfaketime: failed to parse semaphore owner pid from sem_name '' @ sem_name))
                   | Some owner \<Rightarrow>
                      exit_bind (ft_getpid s) (\<lambda>(pid, s).
                      let s = (if pid = owner
                               then unsetenv ''FAKETIME_SHARED'' (snd (shm_unlink shm_name (snd (ft_sem_unlink sem s))))
                               else s)
                      in Inr (snd (ft_sem_close s)))))))"

text \<open>
  \<^verbatim>\<open>ft_cleanup\<close>; the destruction of the lock for condition variables is one more call that may
  fail and then ends the process.
\<close>

definition ft_cleanup :: "ft_state \<Rightarrow> ft_state exitable" where
  "ft_cleanup s =
    (let s = (if ft_shared_mapped s then (snd (os_call s))\<lparr>ft_shared_mapped := False\<rparr> else s);
         s = (if stss s \<noteq> [] then (snd (os_call s))\<lparr>stss := [], infile_size := 0, infile_set := False\<rparr> else s);
         s = (if shared_sem_initialized s then (snd (ft_sem_close s))\<lparr>shared_sem_initialized := False\<rparr> else s);
         s = (if outfile s \<noteq> - 1 then (snd (os_call s))\<lparr>outfile := - 1\<rparr> else s);
         (r, s) = os_call s
     in if r \<noteq> 0 then Inl (Exit (- 1) ''libfaketime: In ft_cleanup(), monotonic_conds_lock destroy failed'')
        else if shmCreator s then exit_bind (ft_shm_destroy s) (\<lambda>s. Inr (s\<lparr>shmCreator := False\<rparr>))
        else Inr s)"

section \<open>Lemmas\<close>

lemma sem_owner_of: "pid_ok p \<Longrightarrow> sem_owner (sem_name_of p) = Some p"
proof -
  assume p: "pid_ok p"
  have t: "takeWhile isdigit (show_int p) = show_int p" using show_int_word [OF p] by (simp add: takeWhile_eq_all_conv)
  have d: "drop (length ''/faketime_sem_'') (sem_name_of p) = show_int p" by (simp add: sem_name_of_def)
  have q: "str_prefix ''/faketime_sem_'' (sem_name_of p)" unfolding sem_name_of_def str_prefix_def by simp
  have v: "digits_val 10 digit_val (show_int p) = p"
    using p digits_val_show_nat [of "nat p"] by (simp add: show_int_nonneg pid_ok_def)
  have w: "wrap_s32 (min S64_MAX p) = p" using p by (simp add: pid_ok_def wrap_s32_def)
  show ?thesis unfolding sem_owner_def Let_def d t v w using q show_int_word [OF p] by simp
qed

text \<open>What the cleanup does first, when no call fails: everything the process holds is given back.\<close>

definition detached :: "ft_state \<Rightarrow> ft_state" where
  "detached s =
    (let s = (if ft_shared_mapped s then s\<lparr>ft_shared_mapped := False\<rparr> else s);
         s = (if stss s \<noteq> [] then s\<lparr>stss := [], infile_size := 0, infile_set := False\<rparr> else s);
         s = (if shared_sem_initialized s then s\<lparr>shared_sem_initialized := False\<rparr> else s)
     in if outfile s \<noteq> - 1 then s\<lparr>outfile := - 1\<rparr> else s)"

lemma detached_simps [simp]:
  "environ (detached s) = environ s" "lock_files (detached s) = lock_files s" "shm_objs (detached s) = shm_objs s"
  "call_script (detached s) = call_script s" "unlink_script (detached s) = unlink_script s" "missing_real (detached s) = missing_real s"
  "self_pid (detached s) = self_pid s" "ftpl_init_state (detached s) = ftpl_init_state s" "shmCreator (detached s) = shmCreator s"
  by (simp_all add: detached_def Let_def)

lemma getenv_detached [simp]: "getenv n (detached s) = getenv n s"
  by (simp add: getenv_def)

lemma ft_cleanup_calls_work:
  "call_script s = [] \<Longrightarrow> ft_cleanup s =
    (if shmCreator s then exit_bind (ft_shm_destroy (detached s)) (\<lambda>s. Inr (s\<lparr>shmCreator := False\<rparr>)) else Inr (detached s))"
  unfolding ft_cleanup_def detached_def
  by (cases "ft_shared_mapped s"; cases "stss s = []"; cases "shared_sem_initialized s"; cases "outfile s = - 1")
    (simp_all add: ft_sem_close_def)

lemma can_attach_detached [simp]: "can_attach p c (detached s) = can_attach p c s"
  by (simp add: can_attach_def)

text \<open>The creator of a pair, and what \<^verbatim>\<open>getpid\<close> tells it.\<close>

lemma destroy_by_pid:
  assumes "can_attach p c s" "ft_getpid s = Inr (q, s')" "call_script s' = []"
  shows "ft_shm_destroy s =
    Inr (if q = p then unsetenv ''FAKETIME_SHARED'' (snd (shm_unlink (shm_name_of p) (snd (ft_sem_unlink (sem_name_of p) s')))) else s')"
proof -
  have p: "pid_ok p" "getenv ''FAKETIME_SHARED'' s = Some (shared_env_of p)" using assms(1) by (simp_all add: can_attach_def)
  have "call_script (unsetenv ''FAKETIME_SHARED'' (snd (shm_unlink (shm_name_of p) (snd (ft_sem_unlink (sem_name_of p) s'))))) = []"
    using assms(3) sem_path_of [OF p(1)]
    by (simp add: unsetenv_def shm_unlink_def ft_sem_unlink_def os_unlink_def split: list.split)
  with p assms show ?thesis
    by (simp add: ft_shm_destroy_def parse_env ft_sem_open_attach [OF assms(1)] sem_owner_of ft_sem_close_def Let_def)
qed

lemma unlink_pair:
  assumes "pid_ok p" "unlink_script s = []" "lock_path_of p \<in> set (lock_files s)" "map_of (shm_objs s) (shm_name_of p) = Some v"
  shows "snd (shm_unlink (shm_name_of p) (snd (ft_sem_unlink (sem_name_of p) s))) =
    s\<lparr>lock_files := filter (\<lambda>q. q \<noteq> lock_path_of p) (lock_files s), shm_objs := AList.delete (shm_name_of p) (shm_objs s)\<rparr>"
  using assms by (simp add: ft_sem_unlink_def sem_path_of shm_unlink_def os_unlink_def)

text \<open>A process that still has the pair it created, and no call of which fails.\<close>

definition creator :: "ft_state \<Rightarrow> bool" where
  "creator s \<longleftrightarrow> shmCreator s \<and> (\<exists>c. can_attach (self_pid s) c s) \<and> unlink_script s = [] \<and>
     ftpl_init_state s = FT_INIT_READY \<and> \<not> missing_real s ''getpid''"

lemma creator_cleanup:
  assumes "creator s" "getenv ''FAKETIME_FAKEPID'' s = None"
  shows "\<exists>s'. ft_cleanup s = Inr s' \<and> \<not> shmCreator s' \<and> getenv ''FAKETIME_SHARED'' s' = None \<and>
    lock_files s' = filter (\<lambda>q. q \<noteq> lock_path_of (self_pid s)) (lock_files s) \<and>
    shm_objs s' = AList.delete (shm_name_of (self_pid s)) (shm_objs s)"
proof -
  obtain c where c: "can_attach (self_pid s) c s" using assms(1) by (auto simp: creator_def)
  let ?p = "self_pid s" and ?s = "detached s"
  have s: "pid_ok ?p" "lock_path_of ?p \<in> set (lock_files s)" "map_of (shm_objs s) (shm_name_of ?p) = Some (sizeof_ft_shared_s, c)" "call_script s = []"
    using c by (simp_all add: can_attach_def)
  have "ft_getpid ?s = Inr (?p, ?s)"
    using getpid_fakes [of ?s ?s] assms by (simp add: creator_def)
  from destroy_by_pid [OF _ this, of ?p c] c s
  have "ft_shm_destroy ?s = Inr (unsetenv ''FAKETIME_SHARED'' (snd (shm_unlink (shm_name_of ?p) (snd (ft_sem_unlink (sem_name_of ?p) ?s)))))"
    by simp
  then show ?thesis
    using assms(1) s unlink_pair [of ?p ?s]
    by (simp add: ft_cleanup_calls_work creator_def) (simp add: getenv_def unsetenv_def delete_conv)
qed

text \<open>When the process is told another process id, the test for the owner fails.\<close>

lemma creator_cleanup_fakepid:
  assumes "creator s" "getenv ''FAKETIME_FAKEPID'' s = Some (show_nat q)" "int q \<le> S64_MAX" "int q \<noteq> self_pid s"
  shows "\<exists>s'. ft_cleanup s = Inr s' \<and> \<not> shmCreator s' \<and> environ s' = environ s \<and> lock_files s' = lock_files s \<and> shm_objs s' = shm_objs s"
proof -
  obtain c where c: "can_attach (self_pid s) c s" using assms(1) by (auto simp: creator_def)
  let ?s = "detached s"
  have p: "0 \<le> self_pid s" "call_script s = []" using c by (simp_all add: can_attach_def pid_ok_def)
  have g: "ft_getpid ?s = Inr (if pid_ok (int q) then (int q, ?s\<lparr>errno := 0\<rparr>) else (- 1, ?s\<lparr>errno := EINVAL\<rparr>))"
    by (rule fakepid_given) (use assms(2,3) in simp_all)
  obtain r e where r: "ft_getpid ?s = Inr (r, ?s\<lparr>errno := e\<rparr>)" "r \<noteq> self_pid s"
  proof (cases "pid_ok (int q)")
    case True
    then show thesis using that [of "int q" 0] g assms(4) by simp
  next
    case False
    then show thesis using that [of "- 1" EINVAL] g p(1) by simp
  qed
  from destroy_by_pid [OF _ r(1), of "self_pid s" c] c r(2) p(2)
  have "ft_shm_destroy ?s = Inr (?s\<lparr>errno := e\<rparr>)" by simp
  then show ?thesis using assms(1) p by (simp add: ft_cleanup_calls_work creator_def)
qed

section \<open>Properties\<close>

lemma creator_lifecycle:
  assumes "fresh_process s" "unlink_script s = []" "getenv ''FAKETIME_FAKEPID'' s = None"
  shows "\<exists>s1 s2. ft_shm_really_init s = Inr s1 \<and> getenv ''FAKETIME_SHARED'' s1 = Some (shared_env_of (self_pid s)) \<and>
      shm s1 = new_shared \<and> ft_shared_mapped s1 \<and> shmCreator s1 \<and>
      lock_files s1 = lock_path_of (self_pid s) # lock_files s \<and>
      ft_cleanup (s1\<lparr>ftpl_init_state := FT_INIT_READY\<rparr>) = Inr s2 \<and> getenv ''FAKETIME_SHARED'' s2 = None \<and>
      lock_files s2 = lock_files s \<and> map_of (shm_objs s2) = map_of (shm_objs s)"
proof -
  let ?a = "attached new_shared (created s)" and ?p = "self_pid s"
  let ?r = "?a\<lparr>ftpl_init_state := FT_INIT_READY\<rparr>"
  have a: "shm ?a = new_shared" "ft_shared_mapped ?a" "shmCreator ?a" "lock_files ?a = lock_path_of ?p # lock_files s"
    "shm_objs ?a = AList.update (shm_name_of ?p) (sizeof_ft_shared_s, new_shared) (AList.update (shm_name_of ?p) (0, new_shared) (shm_objs s))"
    "getenv ''FAKETIME_SHARED'' ?a = getenv ''FAKETIME_SHARED'' (created s)" "self_pid ?a = ?p"
    by (simp_all add: attached_def created_def setenv_def getenv_def)
  have n: "lock_path_of ?p \<notin> set (lock_files s)" "map_of (shm_objs s) (shm_name_of ?p) = None"
    using assms(1) by (simp_all add: fresh_process_def)
  have "can_attach ?p new_shared ?r"
    using created_can_attach [OF assms(1)] by (simp add: can_attach_def attached_def getenv_def)
  then have "creator ?r"
    using assms by (auto simp: creator_def attached_def created_def setenv_def fresh_process_def)
  moreover have "getenv ''FAKETIME_FAKEPID'' ?r = None"
    using assms(3) by (simp add: getenv_def attached_def created_def setenv_def update_conv)
  ultimately obtain s2 where "ft_cleanup ?r = Inr s2" "getenv ''FAKETIME_SHARED'' s2 = None"
      "lock_files s2 = filter (\<lambda>q. q \<noteq> lock_path_of ?p) (lock_files ?a)" "shm_objs s2 = AList.delete (shm_name_of ?p) (shm_objs ?a)"
    using creator_cleanup [of ?r] a(7) by auto
  moreover have "filter (\<lambda>q. q \<noteq> lock_path_of ?p) (lock_files s) = lock_files s" using n(1) by (auto intro!: filter_True)
  moreover have "map_of (AList.delete (shm_name_of ?p) (shm_objs ?a)) = map_of (shm_objs s)"
    using n(2) by (auto simp: a(5) delete_conv update_conv fun_eq_iff)
  ultimately show ?thesis
    using ft_shm_really_init_fresh [OF assms(1)] a getenv_created(1) [of s] by auto
qed

lemma heir_lifecycle:
  assumes t: "can_attach p c t" "\<not> shmCreator t"
  shows "\<exists>t1 t2. ft_shm_really_init t = Inr t1 \<and> shm t1 = c \<and> ft_shared_mapped t1 \<and> shared_sem_initialized t1 \<and>
        lock_files t1 = lock_files t \<and> shm_objs t1 = shm_objs t \<and> environ t1 = environ t \<and>
        ft_cleanup t1 = Inr t2 \<and> lock_files t2 = lock_files t \<and> shm_objs t2 = shm_objs t \<and> environ t2 = environ t"
proof -
  have "call_script t = []" using t(1) by (simp add: can_attach_def)
  then have "ft_cleanup (attached c t) = Inr (detached (attached c t))"
    using t(2) by (simp add: ft_cleanup_calls_work attached_def)
  with ft_shm_really_init_attached [OF t(1)] show ?thesis by (simp add: attached_def)
qed

text \<open>
  Claim C22.
  Life cycle of the shared objects. A process that inherits no shared objects creates the pair
  named after its process id, publishes both names in \<^verbatim>\<open>FAKETIME_SHARED\<close> and attaches to a fresh,
  valid shared memory; when it ends, whatever it did in between, its cleanup removes exactly these objects and the variable.
  Processes that inherit the variable attach to the same contents, change
  nothing else, and their own cleanup leaves the objects in place. The removal needs \<^verbatim>\<open>FAKETIME_FAKEPID\<close> to be unset:
  \<^verbatim>\<open>ft_shm_destroy\<close> asks the intercepted \<^verbatim>\<open>getpid\<close>, so that with another process id in this variable the
  creator leaves its pair and the variable behind. The calls of the cleanup succeed.
\<close>

theorem shm_lifecycle:
  assumes "fresh_process s" "unlink_script s = []" "getenv ''FAKETIME_FAKEPID'' s = None"
    and "creator u" "creator w" "getenv ''FAKETIME_FAKEPID'' u = None"
    and "getenv ''FAKETIME_FAKEPID'' w = Some (show_nat q)" "int q \<le> S64_MAX" "int q \<noteq> self_pid w"
    and "can_attach p c t" "\<not> shmCreator t"
  shows "(\<exists>s1 s2. ft_shm_really_init s = Inr s1 \<and> getenv ''FAKETIME_SHARED'' s1 = Some (shared_env_of (self_pid s)) \<and>
      shm s1 = new_shared \<and> ft_shared_mapped s1 \<and> shmCreator s1 \<and>
      lock_files s1 = lock_path_of (self_pid s) # lock_files s \<and>
      ft_cleanup (s1\<lparr>ftpl_init_state := FT_INIT_READY\<rparr>) = Inr s2 \<and> getenv ''FAKETIME_SHARED'' s2 = None \<and>
      lock_files s2 = lock_files s \<and> map_of (shm_objs s2) = map_of (shm_objs s)) \<and>
    (\<exists>u'. ft_cleanup u = Inr u' \<and> getenv ''FAKETIME_SHARED'' u' = None \<and>
      lock_files u' = filter (\<lambda>f. f \<noteq> lock_path_of (self_pid u)) (lock_files u) \<and>
      shm_objs u' = AList.delete (shm_name_of (self_pid u)) (shm_objs u)) \<and>
    (\<exists>w'. ft_cleanup w = Inr w' \<and> environ w' = environ w \<and> lock_files w' = lock_files w \<and> shm_objs w' = shm_objs w) \<and>
    (\<exists>t1 t2. ft_shm_really_init t = Inr t1 \<and> shm t1 = c \<and> ft_shared_mapped t1 \<and> shared_sem_initialized t1 \<and>
        lock_files t1 = lock_files t \<and> shm_objs t1 = shm_objs t \<and> environ t1 = environ t \<and>
        ft_cleanup t1 = Inr t2 \<and> lock_files t2 = lock_files t \<and> shm_objs t2 = shm_objs t \<and> environ t2 = environ t)"
  using creator_lifecycle [OF assms(1-3)] creator_cleanup [OF assms(4,6)] creator_cleanup_fakepid [OF assms(5,7-9)]
    heir_lifecycle [OF assms(10,11)] by blast

text \<open>A creator, one that is told another process id, and a child.\<close>

definition sample_creator :: "(string \<times> string) list \<Rightarrow> ft_state" where
  "sample_creator env = (created (sample_parent\<lparr>environ := env\<rparr>))\<lparr>ftpl_init_state := FT_INIT_READY\<rparr>"

lemma sample_creator_props:
  assumes "map_of env ''FAKETIME_SHARED'' = None" "map_of env ''FAKETIME_FLSHM'' = None"
  shows "creator (sample_creator env)" "getenv ''FAKETIME_FAKEPID'' (sample_creator env) = map_of env ''FAKETIME_FAKEPID''"
    "self_pid (sample_creator env) = 42"
proof -
  have "fresh_process (sample_parent\<lparr>environ := env\<rparr>)"
    using sample_parent_fresh assms by (simp add: fresh_process_def getenv_def)
  from created_can_attach [OF this] have "can_attach 42 new_shared (sample_creator env)"
    by (simp add: sample_creator_def can_attach_def getenv_def) (simp add: sample_parent_def static_defs)
  then show "creator (sample_creator env)"
    by (auto simp: creator_def) (auto simp: sample_creator_def created_def setenv_def sample_parent_def static_defs)
  show "getenv ''FAKETIME_FAKEPID'' (sample_creator env) = map_of env ''FAKETIME_FAKEPID''" "self_pid (sample_creator env) = 42"
    by (simp_all add: sample_creator_def created_def setenv_def getenv_def update_conv sample_parent_def static_defs)
qed

theorem shm_lifecycle_witness:
  "(\<exists>s1 s2. ft_shm_really_init sample_parent = Inr s1 \<and> ft_shared_mapped s1 \<and>
      ft_cleanup (s1\<lparr>ftpl_init_state := FT_INIT_READY\<rparr>) = Inr s2 \<and> lock_files s2 = []) \<and>
   (\<exists>w'. ft_cleanup (sample_creator [(''FAKETIME_FAKEPID'', show_nat 1234)]) = Inr w' \<and>
      lock_files w' = lock_files (sample_creator [(''FAKETIME_FAKEPID'', show_nat 1234)])) \<and>
   (\<exists>t1. ft_shm_really_init sample_child = Inr t1 \<and> shm t1 = new_shared)"
proof -
  have f: "unlink_script sample_parent = []" "getenv ''FAKETIME_FAKEPID'' sample_parent = None" "lock_files sample_parent = []"
    "\<not> shmCreator sample_child"
    by (simp_all add: sample_parent_def sample_child_def created_def setenv_def static_defs getenv_def)
  note c = sample_creator_props [of "[]"] sample_creator_props [of "[(''FAKETIME_FAKEPID'', show_nat 1234)]"]
  show ?thesis
    using shm_lifecycle [of sample_parent "sample_creator []" "sample_creator [(''FAKETIME_FAKEPID'', show_nat 1234)]" 1234,
        OF sample_parent_fresh f(1,2) _ _ _ _ _ _ sample_child_attach f(4)] f(3) c by (simp del: show_nat.simps) metis
qed

end
