(* ===== verification/Wrapper.thy ===== *)
theory Wrapper
  imports Shm_Lifecycle
begin

text \<open>
  The command \<^verbatim>\<open>faketime\<close> of \<^verbatim>\<open>src/src/faketime.c\<close>: its switches, the conversion of a timestamp by
  the \<^verbatim>\<open>date\<close> program, the creation of the shared objects, the environment the command is run in, and
  the removal of the objects afterwards.

  The process works on the same surroundings as the library (of the state only the fields of
  \<^typ>\<open>os_state\<close> matter here). An \<^verbatim>\<open>exit()\<close> keeps the state, so that what a failing run leaves behind can be
  stated. The programs it runs are not part of the repository: they are given by a record, with
  what their pipes yield, how they end, and how often waiting for them is interrupted. The outcome
  of a system call is taken from \<open>call_script\<close>, that of one that removes an object from \<open>unlink_script\<close>; a call whose result
  the code ignores does not appear, and neither does output to the terminal, apart from the diagnostic of an exit.
\<close>

section \<open>Ending the process\<close>

definition set_env_or_exit :: "string \<Rightarrow> string \<Rightarrow> ft_state \<Rightarrow> ft_state stoppable" where
  "set_env_or_exit name v s = stop_bind (checked_call ''faketime: setenv'' id s) (\<lambda>s. Inr (setenv name v s))"

section \<open>Other programs\<close>

datatype wait_status = Exited int | Signaled int | Other_Status

text \<open>What one \<^verbatim>\<open>read\<close> of one byte yields; the end of a list of them is the end of the file.\<close>

datatype read_event = Byte char | Read_Error int

record child_run =
  cr_output :: "read_event list"
  cr_status :: wait_status

type_synonym objects = "string list \<times> (string \<times> int \<times> ft_shared_s) list"

text \<open>
  \<open>found\<close> says which programs \<^verbatim>\<open>execlp\<close> and \<^verbatim>\<open>execvp\<close> can start; \<open>date_program\<close> and \<open>command\<close> what they do
  with their arguments in an environment, the latter also to the lock files and shared memory
  objects of the system; \<open>date_calls\<close> are the outcomes of the system calls of the child that
  becomes the \<^verbatim>\<open>date\<close> program; \<open>date_waits\<close> and \<open>command_waits\<close> those of \<^verbatim>\<open>waitpid\<close>.
\<close>

record programs =
  found :: "string \<Rightarrow> bool"
  date_program :: "string list \<Rightarrow> (string \<times> string) list \<Rightarrow> child_run"
  date_calls :: "int list"
  date_waits :: "int list"
  command :: "string list \<Rightarrow> (string \<times> string) list \<Rightarrow> objects \<Rightarrow> child_run \<times> objects"
  command_waits :: "int list"

definition failed_child :: child_run where
  "failed_child = \<lparr>cr_output = [], cr_status = Exited EXIT_FAILURE\<rparr>"

text \<open>Whether the child was waited for.\<close>

fun wait_for_child :: "int list \<Rightarrow> bool" where
  "wait_for_child [] = True"
| "wait_for_child (e # es) = (if e = 0 then True else if e = EINTR then wait_for_child es else False)"

text \<open>\<open>None\<close> is \<^verbatim>\<open>_exit(EXIT_FAILURE)\<close>.\<close>

definition clear_date_helper_preload :: "ft_state \<Rightarrow> ft_state option" where
  "clear_date_helper_preload s =
    (case os_call s of (r, s) \<Rightarrow> if r = - 1 then None
     else let s = unsetenv ''LD_PRELOAD'' s
     in case os_call s of (r, s) \<Rightarrow> if r = - 1 then None
     else let s = unsetenv ''DYLD_INSERT_LIBRARIES'' s
     in case os_call s of (r, s) \<Rightarrow> if r = - 1 then None
     else Some (unsetenv ''DYLD_FORCE_FLAT_NAMESPACE'' s))"

section \<open>Reading what the \<^verbatim>\<open>date\<close> program prints\<close>

definition parse_date_seconds :: "string \<Rightarrow> int option" where
  "parse_date_seconds v =
    (case strtol v of (result, end, erange) \<Rightarrow>
      if length v = length end \<or> erange then None
      else if dropWhile isspace end = [] then Some result else None)"

fun matches_shape :: "string \<Rightarrow> string \<Rightarrow> bool" where
  "matches_shape [] v = (v = [])"
| "matches_shape (x # xs) [] = False"
| "matches_shape (x # xs) (c # cs) =
    (if (if x = CHR ''N'' then \<not> isdigit c else c \<noteq> x) then False else matches_shape xs cs)"

definition looks_like_absolute_timestamp :: "string \<Rightarrow> bool" where
  "looks_like_absolute_timestamp v = matches_shape ''NNNN-NN-NN NN:NN:NN'' v"

text \<open>The loop over \<^verbatim>\<open>read\<close>: the bytes that fit into the buffer, whether there were more; \<open>None\<close> on an error.\<close>

abbreviation (input) DATE_BUFSIZE :: nat where "DATE_BUFSIZE \<equiv> 256"

fun read_date_output :: "read_event list \<Rightarrow> string \<Rightarrow> bool \<Rightarrow> (string \<times> bool) option" where
  "read_date_output [] buf output_overflow = Some (buf, output_overflow)"
| "read_date_output (Read_Error e # es) buf output_overflow =
    (if e = EINTR then read_date_output es buf output_overflow else None)"
| "read_date_output (Byte byte # es) buf output_overflow =
    (if length buf < DATE_BUFSIZE - 1 then read_date_output es (buf @ [byte]) output_overflow
     else read_date_output es buf True)"

text \<open>A buffer read as a string ends at its first NUL; \<open>trim_end\<close> is the loop that removes white space.\<close>

definition c_string :: "string \<Rightarrow> string" where
  "c_string buf = takeWhile (\<lambda>c. c \<noteq> CHR 0x00) buf"

definition trim_end :: "string \<Rightarrow> string" where
  "trim_end buf = rev (dropWhile isspace (rev buf))"

text \<open>\<^verbatim>\<open>time(NULL)\<close>.\<close>

definition time_now :: "ft_state \<Rightarrow> int \<times> ft_state" where
  "time_now s = (case real_clock_gettime CLOCK_REALTIME \<lparr>tv_sec = - 1, tv_nsec = 0\<rparr> s of ((_, t), s) \<Rightarrow> (tv_sec t, s))"

section \<open>The switches\<close>

record wrapper_opts =
  use_mt :: bool
  use_direct :: bool
  freeze_clock :: bool
  fake_pid :: "string option"
  date_cmd :: string

definition default_opts :: wrapper_opts where
  "default_opts = \<lparr>use_mt = False, use_direct = False, freeze_clock = False, fake_pid = None, date_cmd = ''date''\<rparr>"

text \<open>The loop over the switches; what is left of the arguments is returned.\<close>

fun parse_switches :: "wrapper_opts \<Rightarrow> string list \<Rightarrow> ft_state \<Rightarrow> (wrapper_opts \<times> string list \<times> ft_state) stoppable" where
  "parse_switches opts [] s = Inr (opts, [], s)"
| "parse_switches opts (a # args) s =
    (if a = ''-m'' then parse_switches (opts\<lparr>use_mt := True\<rparr>) args s
     else if a = ''-p'' then
       (case args of [] \<Rightarrow> Inl (Stopped EXIT_FAILURE ''faketime: -p requires a further argument'' s)
        | pid_val # args \<Rightarrow> parse_switches (opts\<lparr>fake_pid := Some pid_val\<rparr>) args s)
     else if a = ''-f'' then parse_switches (opts\<lparr>use_direct := True\<rparr>) args s
     else if a = ''--freeze'' then parse_switches (opts\<lparr>freeze_clock := True\<rparr>) args s
     else if a = ''--exclude-monotonic'' then
       (case set_env_or_exit ''FAKETIME_DONT_FAKE_MONOTONIC'' ''1'' s of
          Inl e \<Rightarrow> Inl e | Inr s \<Rightarrow> parse_switches opts args s)
     else if a = ''--disable-shm'' then
       (case set_env_or_exit ''FAKETIME_DISABLE_SHM'' ''1'' s of
          Inl e \<Rightarrow> Inl e | Inr s \<Rightarrow> parse_switches opts args s)
     else if a = ''--date-prog'' then
       (case args of [] \<Rightarrow> Inl (Stopped EXIT_FAILURE ''faketime: --date-prog requires a further argument'' s)
        | prog # args \<Rightarrow> parse_switches (opts\<lparr>date_cmd := prog\<rparr>) args s)
     else if a = ''-v'' \<or> a = ''--version'' then Inl (Stopped 0 ''version'' s)
     else if a = ''-h'' \<or> a = ''-?'' \<or> a = ''--help'' then Inl (Stopped 0 ''usage'' s)
     else Inr (opts, a # args, s))"

section \<open>The request\<close>

text \<open>The child that becomes the \<^verbatim>\<open>date\<close> program.\<close>

definition date_child :: "programs \<Rightarrow> wrapper_opts \<Rightarrow> string \<Rightarrow> ft_state \<Rightarrow> child_run" where
  "date_child P opts timestamp s =
    (let date_format = (if freeze_clock opts then ''+%Y-%m-%d %H:%M:%S'' else ''+%s'')
     in case os_call (s\<lparr>call_script := date_calls P\<rparr>) of (r, c) \<Rightarrow>
        if r = - 1 then failed_child
        else (case clear_date_helper_preload c of
                None \<Rightarrow> failed_child
              | Some c \<Rightarrow> if found P (date_cmd opts)
                  then date_program P [date_cmd opts, ''-d'', timestamp, date_format] (environ c)
                  else failed_child))"

definition request_freeze :: "string \<Rightarrow> ft_state \<Rightarrow> ft_state stoppable" where
  "request_freeze buf s =
    (let buf = trim_end (c_string buf)
     in if \<not> looks_like_absolute_timestamp buf
        then Inl (Stopped EXIT_FAILURE ''faketime: date program returned an unexpected timestamp'' s)
        else set_env_or_exit ''FAKETIME'' buf s)"

definition request_offset :: "string \<Rightarrow> ft_state \<Rightarrow> ft_state stoppable" where
  "request_offset buf s =
    (case parse_date_seconds (c_string buf) of
       None \<Rightarrow> Inl (Stopped EXIT_FAILURE ''faketime: date program returned an invalid timestamp'' s)
     | Some date_seconds \<Rightarrow>
        (case time_now s of (now, s) \<Rightarrow>
         let offset = date_seconds - now
         in if offset < S64_MIN \<or> offset > S64_MAX
            then Inl (Stopped EXIT_FAILURE ''faketime: date timestamp is outside the supported range'' s)
            else let buf = (if offset \<ge> 0 then ''+'' else []) @ show_int offset
                 in if length buf \<ge> DATE_BUFSIZE
                    then Inl (Stopped EXIT_FAILURE ''faketime: generated FAKETIME value is too long'' s)
                    else set_env_or_exit ''FAKETIME'' buf s))"

definition request_from_date :: "programs \<Rightarrow> wrapper_opts \<Rightarrow> string \<Rightarrow> ft_state \<Rightarrow> ft_state stoppable" where
  "request_from_date P opts timestamp s =
    stop_bind (checked_call ''faketime: pipe'' id s) (\<lambda>s.
    stop_bind (checked_call ''faketime: fork'' id s) (\<lambda>s.
      let child = date_child P opts timestamp s
      in case read_date_output (cr_output child) [] False of
           None \<Rightarrow> Inl (Stopped EXIT_FAILURE ''faketime: read'' s)
         | Some (buf, output_overflow) \<Rightarrow>
            if output_overflow \<or> \<not> wait_for_child (date_waits P) \<or> cr_status child \<noteq> Exited 0
            then Inl (Stopped EXIT_FAILURE ''Error: Timestamp to fake not recognized, please re-try with a different timestamp.'' s)
            else if freeze_clock opts then request_freeze buf s
            else request_offset buf s))"

definition set_request :: "programs \<Rightarrow> wrapper_opts \<Rightarrow> string \<Rightarrow> ft_state \<Rightarrow> ft_state stoppable" where
  "set_request P opts timestamp s =
    stop_bind (if \<not> use_direct opts then request_from_date P opts timestamp s
               else set_env_or_exit ''FAKETIME'' timestamp s) (\<lambda>s.
    stop_bind (case fake_pid opts of Some pid_val \<Rightarrow> set_env_or_exit ''FAKETIME_FAKEPID'' pid_val s | None \<Rightarrow> Inr s)
      (checked_call ''faketime: pipe'' id))"

section \<open>The shared objects\<close>

text \<open>A removal that fails is reported, and the object stays. The result is what is reported, and the state.\<close>

definition cleanup_shobjs :: "string \<Rightarrow> string \<Rightarrow> ft_state \<Rightarrow> string list \<times> ft_state" where
  "cleanup_shobjs wrapper_sem shm_name s =
    (case ft_sem_unlink wrapper_sem s of (r, s) \<Rightarrow>
     case shm_unlink shm_name s of (r', s) \<Rightarrow>
       ((if r = - 1 then [''faketime: ft_sem_unlink''] else []) @ (if r' = - 1 then [''faketime: shm_unlink''] else []), s))"

abbreviation (input) PATH_BUFSIZE :: nat where "PATH_BUFSIZE \<equiv> 4096"

text \<open>The contents of a new object of the right size, before it is filled.\<close>

definition zero_shared :: ft_shared_s where
  "zero_shared = (let z = \<lparr>sh_sec = 0, sh_nsec = 0\<rparr> in \<lparr>magic = 0, version = 0, shm_size = 0, ticks = 0, file_idx = 0,
     start_time_real = z, start_time_mon = z, start_time_mon_raw = z, start_time_boot = z\<rparr>)"

definition fill_shared :: "string \<Rightarrow> string \<Rightarrow> ft_state \<Rightarrow> ft_state stoppable" where
  "fill_shared wrapper_sem shm_name s =
    (let cleanup = (\<lambda>s. snd (cleanup_shobjs wrapper_sem shm_name s))
     in stop_bind (checked_call ''faketime: ftruncate'' cleanup s) (\<lambda>s.
        let s = s\<lparr>shm_objs := AList.update shm_name (sizeof_ft_shared_s, zero_shared) (shm_objs s)\<rparr>
        in stop_bind (checked_call ''faketime: mmap'' cleanup s) (\<lambda>s.
        stop_bind (checked_call ''faketime: close'' cleanup s) (\<lambda>s.
        case ft_sem_lock s of (r, s) \<Rightarrow>
        if r = - 1 then Inl (Stopped EXIT_FAILURE ''faketime: ft_sem_lock'' (cleanup s))
        else let s = s\<lparr>shm_objs := AList.update shm_name (sizeof_ft_shared_s, new_shared) (shm_objs s)\<rparr>
        in stop_bind (checked_call ''faketime: munmap'' cleanup s) (\<lambda>s.
        case ft_sem_unlock s of (r, s) \<Rightarrow>
        if r = - 1 then Inl (Stopped EXIT_FAILURE ''faketime: ft_sem_unlock'' (cleanup s))
        else Inr s)))))"

text \<open>The result carries the semaphore and the name of the shared memory, for the cleaning up.\<close>

definition create_shared :: "ft_state \<Rightarrow> ((string \<times> string) \<times> ft_state) stoppable" where
  "create_shared s =
    (let sem_name = ''/faketime_sem_'' @ show_int (self_pid s);
         shm_name = ''/faketime_shm_'' @ show_int (self_pid s)
     in if length sem_name \<ge> PATH_BUFSIZE then Inl (Stopped EXIT_FAILURE ''faketime: failed to format semaphore name'' s)
        else if length shm_name \<ge> PATH_BUFSIZE then Inl (Stopped EXIT_FAILURE ''faketime: failed to format shared-state names'' s)
        else case ft_sem_create sem_name s of (sem, s) \<Rightarrow>
          (case sem of
             None \<Rightarrow> Inl (Stopped EXIT_FAILURE ''faketime: ft_sem_create'' s)
           | Some wrapper_sem \<Rightarrow>
              if map_of (shm_objs s) shm_name \<noteq> None
              then Inl (Stopped EXIT_FAILURE ''faketime: shm_open'' (snd (ft_sem_unlink wrapper_sem (s\<lparr>errno := 17\<rparr>))))
              else stop_bind (checked_call ''faketime: shm_open'' (\<lambda>s. snd (ft_sem_unlink wrapper_sem s)) s) (\<lambda>s.
                stop_bind (fill_shared wrapper_sem shm_name (s\<lparr>shm_objs := AList.update shm_name (0, zero_shared) (shm_objs s)\<rparr>)) (\<lambda>s.
                if length sem_name + length shm_name + 1 \<ge> PATH_BUFSIZE * 2 + 1
                then Inl (Stopped EXIT_FAILURE ''faketime: failed to format shared-state configuration'' (snd (cleanup_shobjs wrapper_sem shm_name s)))
                else stop_bind (set_env_or_exit ''FAKETIME_SHARED'' (sem_name @ '' '' @ shm_name) s) (\<lambda>s.
                  Inr ((wrapper_sem, shm_name), snd (ft_sem_close s)))))))"

section \<open>Running the command\<close>

text \<open>The default build options \<^verbatim>\<open>PREFIX\<close> and \<^verbatim>\<open>LIBDIRNAME\<close>.\<close>

definition ftpl_path :: "bool \<Rightarrow> string" where
  "ftpl_path mt = ''/usr/local'' @ ''/lib/faketime'' @ (if mt then ''/libfaketimeMT.so.1'' else ''/libfaketime.so.1'')"

definition set_preload :: "wrapper_opts \<Rightarrow> ft_state \<Rightarrow> ft_state stoppable" where
  "set_preload opts s =
    stop_bind (checked_call ''faketime: malloc'' id s) (\<lambda>s.
      set_env_or_exit ''LD_PRELOAD'' ((case getenv ''LD_PRELOAD'' s of Some l \<Rightarrow> l @ '':'' | None \<Rightarrow> []) @ ftpl_path (use_mt opts)) s)"

text \<open>Reading from the pipe that every descendant of the command holds open: whether it did not fail.\<close>

fun keepalive_read :: "read_event list \<Rightarrow> bool" where
  "keepalive_read [] = True"
| "keepalive_read (Byte b # es) = True"
| "keepalive_read (Read_Error e # es) = (if e = EINTR then keepalive_read es else False)"

definition run_command :: "programs \<Rightarrow> string \<Rightarrow> string \<Rightarrow> string list \<Rightarrow> ft_state \<Rightarrow> wrapper_exit" where
  "run_command P wrapper_sem shm_name argv s =
    (let cleanup = (\<lambda>s. snd (cleanup_shobjs wrapper_sem shm_name s))
     in case checked_call ''faketime: fork'' cleanup s of
          Inl e \<Rightarrow> e
        | Inr s \<Rightarrow>
           let (child, objs) = (if found P (hd argv) then command P argv (environ s) (lock_files s, shm_objs s)
                                else (failed_child, (lock_files s, shm_objs s)));
               s = s\<lparr>lock_files := fst objs, shm_objs := snd objs\<rparr>
           in if \<not> wait_for_child (command_waits P) then Stopped EXIT_FAILURE ''faketime: waitpid'' (cleanup s)
              else if \<not> keepalive_read (cr_output child) then Stopped EXIT_FAILURE ''faketime: read'' (cleanup s)
              else (case cr_status child of
                      Signaled sig \<Rightarrow> Stopped EXIT_FAILURE ''Caught'' (cleanup s)
                    | Exited status \<Rightarrow> Stopped status [] (cleanup s)
                    | Other_Status \<Rightarrow> Stopped EXIT_FAILURE [] (cleanup s)))"

text \<open>Everything before the command is run: the switches that were given, the objects, the command line.\<close>

definition wrapper_setup :: "programs \<Rightarrow> string list \<Rightarrow> ft_state \<Rightarrow> ((string \<times> string) \<times> string list \<times> ft_state) stoppable" where
  "wrapper_setup P args s =
    stop_bind (parse_switches default_opts args s) (\<lambda>(opts, args, s).
      case args of
        timestamp # cmd # cmd_args \<Rightarrow>
          if use_direct opts \<and> freeze_clock opts
          then Inl (Stopped EXIT_FAILURE ''faketime: --freeze cannot be combined with -f'' s)
          else stop_bind (set_request P opts timestamp s) (\<lambda>s.
               stop_bind (create_shared s) (\<lambda>(objs, s).
               stop_bind (set_preload opts s) (\<lambda>s. Inr (objs, cmd # cmd_args, s))))
      | _ \<Rightarrow> Inl (Stopped EXIT_FAILURE ''usage'' s))"

definition wrapper_main :: "programs \<Rightarrow> string list \<Rightarrow> ft_state \<Rightarrow> wrapper_exit" where
  "wrapper_main P args s =
    (case wrapper_setup P args s of
       Inl e \<Rightarrow> e
     | Inr ((wrapper_sem, shm_name), argv, s) \<Rightarrow> run_command P wrapper_sem shm_name argv s)"

section \<open>Lemmas\<close>

lemma stop_bind_Inl [simp]: "stop_bind (Inl e) f = Inl e"
  and stop_bind_Inr [simp]: "stop_bind (Inr x) f = f x"
  by (simp_all add: stop_bind_def)

lemma stop_bind_eq_Inr: "stop_bind m f = Inr y \<longleftrightarrow> (\<exists>x. m = Inr x \<and> f x = Inr y)"
  by (cases m) simp_all

subsection \<open>Every way to end\<close>

text \<open>\<open>E\<close> holds when the computation ends the process, \<open>Q\<close> when it returns.\<close>

definition ends :: "(wrapper_exit \<Rightarrow> bool) \<Rightarrow> ('a \<Rightarrow> bool) \<Rightarrow> 'a stoppable \<Rightarrow> bool" where
  "ends E Q m = (case m of Inl e \<Rightarrow> E e | Inr x \<Rightarrow> Q x)"

lemma ends_Inl [simp]: "ends E Q (Inl e) = E e"
  and ends_Inr [simp]: "ends E Q (Inr x) = Q x"
  by (simp_all add: ends_def)

lemma ends_bind: "ends E P m \<Longrightarrow> (\<And>x. P x \<Longrightarrow> ends E Q (f x)) \<Longrightarrow> ends E Q (stop_bind m f)"
  by (cases m) simp_all

lemma ends_mono: "ends E P m \<Longrightarrow> (\<And>e. E e \<Longrightarrow> E' e) \<Longrightarrow> (\<And>x. P x \<Longrightarrow> Q x) \<Longrightarrow> ends E' Q m"
  by (cases m) simp_all

subsection \<open>The objects of the system\<close>

definition objects_of :: "ft_state \<Rightarrow> objects" where
  "objects_of s = (lock_files s, shm_objs s)"

definition same_objects :: "ft_state \<Rightarrow> ft_state \<Rightarrow> bool" where
  "same_objects s t \<longleftrightarrow> objects_of t = objects_of s \<and> self_pid t = self_pid s \<and> unlink_script t = unlink_script s"

lemma same_objects_refl [simp]: "same_objects s s"
  by (simp add: same_objects_def)

lemma same_objects_trans: "same_objects s t \<Longrightarrow> same_objects t u \<Longrightarrow> same_objects s u"
  by (simp add: same_objects_def)

lemma same_objects_os_call: "same_objects s (snd (os_call s))"
  by (auto simp: os_call_def same_objects_def objects_of_def split: list.split)

lemma same_objects_setenv: "same_objects s t \<Longrightarrow> same_objects s (setenv n v t)"
  by (simp add: setenv_def same_objects_def objects_of_def)

lemma checked_call_ends:
  "(\<And>t. same_objects s t \<Longrightarrow> E (Stopped EXIT_FAILURE d (c t))) \<Longrightarrow> ends E (same_objects s) (checked_call d c s)"
  using same_objects_os_call [of s] by (auto simp: checked_call_def split: prod.split)

text \<open>
  The two diagnostics after which objects may stay behind: the code ends the process from
  \<^verbatim>\<open>set_env_or_exit\<close>, or when \<^verbatim>\<open>malloc\<close> fails, without \<^verbatim>\<open>cleanup_shobjs\<close>.
\<close>

definition leaky :: "string \<Rightarrow> bool" where
  "leaky d \<longleftrightarrow> d = ''faketime: setenv'' \<or> d = ''faketime: malloc''"

text \<open>
  Objects that are left where nothing should be: those that were there, and of the own pair only what could not be
  removed. The first removal is that of the lock file, the second that of the shared memory.
\<close>

definition unlink_fails :: "nat \<Rightarrow> ft_state \<Rightarrow> bool" where
  "unlink_fails i s \<longleftrightarrow> i < length (unlink_script s) \<and> unlink_script s ! i \<noteq> 0"

definition undone :: "ft_state \<Rightarrow> objects \<Rightarrow> bool" where
  "undone s objs \<longleftrightarrow> (\<exists>k m v. (k \<longrightarrow> unlink_fails 0 s) \<and> (m \<longrightarrow> unlink_fails 1 s) \<and>
     fst objs = (if k then [lock_path_of (self_pid s)] else []) @ lock_files s \<and>
     snd objs = shm_objs s @ (if m then [(shm_name_of (self_pid s), v)] else []))"

lemma undone_refl [simp]: "undone s (objects_of s)"
  unfolding undone_def objects_of_def by (intro exI [of _ False]) simp

lemma undone_all: "\<not> unlink_fails 0 s \<Longrightarrow> \<not> unlink_fails 1 s \<Longrightarrow> undone s objs \<longleftrightarrow> objs = objects_of s"
  by (auto simp: undone_def objects_of_def prod_eq_iff)

lemma undone_same: "same_objects s t \<Longrightarrow> undone t = undone s"
  by (simp add: undone_def [abs_def] same_objects_def objects_of_def unlink_fails_def)

definition stops_clean :: "ft_state \<Rightarrow> wrapper_exit \<Rightarrow> bool" where
  "stops_clean s e \<longleftrightarrow> leaky (stop_diag e) \<or> undone s (objects_of (stop_state e))"

lemma stops_clean_same: "same_objects s t \<Longrightarrow> stops_clean s (Stopped n d t)"
  using undone_refl [of s] by (simp add: stops_clean_def same_objects_def)

lemma stops_clean_trans: "same_objects s t \<Longrightarrow> stops_clean t e \<Longrightarrow> stops_clean s e"
  using undone_same by (simp add: stops_clean_def)

lemma set_env_ends: "ends (stops_clean s) (same_objects s) (set_env_or_exit n v s)"
  unfolding set_env_or_exit_def
  by (rule ends_bind [OF checked_call_ends]) (simp_all add: stops_clean_same same_objects_setenv)

text \<open>A step that touches no object, after steps that did not either.\<close>

lemma ends_after:
  assumes "same_objects s t" "ends (stops_clean t) (same_objects t) m"
  shows "ends (stops_clean s) (same_objects s) m"
  using assms(2) by (rule ends_mono) (blast intro: stops_clean_trans same_objects_trans assms(1))+

lemma same_call: "same_objects s t \<Longrightarrow> ends (stops_clean s) (same_objects s) (checked_call d id t)"
  by (erule ends_after) (rule checked_call_ends, simp add: stops_clean_same)

lemma same_set_env: "same_objects s t \<Longrightarrow> ends (stops_clean s) (same_objects s) (set_env_or_exit n v t)"
  by (erule ends_after) (rule set_env_ends)

lemma parse_switches_ends: "ends (stops_clean s) (\<lambda>(opts, args, t). same_objects s t) (parse_switches opts args s)"
proof (induction opts args s rule: parse_switches.induct)
  case (2 opts a args s)
  have env: "ends (stops_clean s) (\<lambda>(opts, args, t). same_objects s t)
      (case set_env_or_exit n ''1'' s of Inl e \<Rightarrow> Inl e | Inr t \<Rightarrow> parse_switches opts args t)"
    if "\<And>t. set_env_or_exit n ''1'' s = Inr t \<Longrightarrow> ends (stops_clean t) (\<lambda>(opts, args, u). same_objects t u) (parse_switches opts args t)" for n
  proof (cases "set_env_or_exit n ''1'' s")
    case (Inr t)
    then have "same_objects s t" using set_env_ends [of s n "''1''"] by simp
    then have "ends (stops_clean s) (\<lambda>(opts, args, t). same_objects s t) (parse_switches opts args t)"
      by (intro ends_mono [OF that [OF Inr]]) (auto intro: stops_clean_trans same_objects_trans)
    then show ?thesis by (simp add: Inr)
  qed (use set_env_ends [of s n "''1''"] in simp)
  show ?case
    using 2 env [of "''FAKETIME_DONT_FAKE_MONOTONIC''"] env [of "''FAKETIME_DISABLE_SHM''"]
    by (simp add: stops_clean_same split: list.split)
qed simp

lemma same_time_now: "same_objects s (snd (time_now s))"
  by (simp add: time_now_def real_clock_gettime_def same_objects_def objects_of_def split: option.split)

lemma request_ends: "ends (stops_clean s) (same_objects s) (request_from_date P opts timestamp s)"
proof -
  have "ends (stops_clean t) (same_objects t) (request_freeze buf t)" for buf t
    using set_env_ends by (simp add: request_freeze_def Let_def stops_clean_same)
  moreover have "ends (stops_clean t) (same_objects t) (request_offset buf t)" for buf t
    using same_time_now [of t] same_set_env [of t "snd (time_now t)"]
    by (simp add: request_offset_def Let_def split_def stops_clean_same split: option.split)
  ultimately have r: "ends (stops_clean s) (same_objects s) (request_freeze buf t)" "ends (stops_clean s) (same_objects s) (request_offset buf t)"
    if "same_objects s t" for buf t using ends_after [OF that] by simp_all
  show ?thesis unfolding request_from_date_def
    by (rule ends_bind [OF same_call], simp, rule ends_bind [OF same_call], assumption)
      (simp add: Let_def stops_clean_same r split: option.split prod.split)
qed

lemma set_request_ends: "ends (stops_clean s) (same_objects s) (set_request P opts timestamp s)"
  unfolding set_request_def
proof (rule ends_bind [where P = "same_objects s"])
  show "ends (stops_clean s) (same_objects s)
      (if \<not> use_direct opts then request_from_date P opts timestamp s else set_env_or_exit ''FAKETIME'' timestamp s)"
    by (simp add: request_ends set_env_ends)
  fix t assume "same_objects s t"
  then show "ends (stops_clean s) (same_objects s)
      (stop_bind (case fake_pid opts of Some pid_val \<Rightarrow> set_env_or_exit ''FAKETIME_FAKEPID'' pid_val t | None \<Rightarrow> Inr t)
        (checked_call ''faketime: pipe'' id))"
    by (intro ends_bind [OF _ same_call]) (auto simp: same_set_env split: option.split)
qed

subsection \<open>The pair of objects of a process\<close>

definition with_pair :: "int \<Rightarrow> int \<times> ft_shared_s \<Rightarrow> objects \<Rightarrow> objects" where
  "with_pair p v objs = (lock_path_of p # fst objs, snd objs @ [(shm_name_of p, v)])"

definition without_pair :: "int \<Rightarrow> objects \<Rightarrow> objects" where
  "without_pair p objs = (filter (\<lambda>q. q \<noteq> lock_path_of p) (fst objs), AList.delete (shm_name_of p) (snd objs))"

text \<open>Both removals, with the outcomes that the system has for them.\<close>

definition after_unlinks :: "ft_state \<Rightarrow> objects \<Rightarrow> objects" where
  "after_unlinks s objs =
    (if unlink_fails 0 s then fst objs else fst (without_pair (self_pid s) objs),
     if unlink_fails 1 s then snd objs else snd (without_pair (self_pid s) objs))"

lemma after_unlinks_works: "unlink_script s = [] \<Longrightarrow> after_unlinks s objs = without_pair (self_pid s) objs"
  by (simp add: after_unlinks_def unlink_fails_def)

definition no_pair :: "int \<Rightarrow> objects \<Rightarrow> bool" where
  "no_pair p objs \<longleftrightarrow> lock_path_of p \<notin> set (fst objs) \<and> map_of (snd objs) (shm_name_of p) = None"

lemma alist_update_absent: "map_of al k = None \<Longrightarrow> AList.update k v al = al @ [(k, v)]"
  by (induction al) (auto split: if_splits)

lemma alist_update_last: "map_of al k = None \<Longrightarrow> AList.update k v (al @ [(k, w)]) = al @ [(k, v)]"
  by (induction al) (auto split: if_splits)

lemma without_with_pair: "no_pair p objs \<Longrightarrow> without_pair p (with_pair p v objs) = objs"
proof -
  assume n: "no_pair p objs"
  then have "filter (\<lambda>q. q \<noteq> lock_path_of p) (fst objs) = fst objs" by (auto simp: no_pair_def intro!: filter_True)
  moreover have "AList.delete (shm_name_of p) (snd objs @ [(shm_name_of p, v)]) = snd objs"
    using n by (auto simp: no_pair_def map_of_eq_None_iff AList.delete_eq image_iff intro!: filter_True)
  ultimately show ?thesis by (simp add: without_pair_def with_pair_def)
qed

lemma after_unlinks_pair: "no_pair (self_pid s) (objects_of s) \<Longrightarrow> undone s (after_unlinks s (with_pair (self_pid s) v (objects_of s)))"
  unfolding undone_def
  by (intro exI [of _ "unlink_fails 0 s"] exI [of _ "unlink_fails 1 s"] exI [of _ v])
    (simp add: after_unlinks_def without_with_pair, simp add: with_pair_def objects_of_def)

lemma os_unlink_result:
  "fst (os_unlink s) = - 1 \<longleftrightarrow> unlink_fails 0 s" "unlink_fails i (snd (os_unlink s)) \<longleftrightarrow> unlink_fails (Suc i) s"
  "lock_files (snd (os_unlink s)) = lock_files s" "shm_objs (snd (os_unlink s)) = shm_objs s" "self_pid (snd (os_unlink s)) = self_pid s"
  by (auto simp: os_unlink_def unlink_fails_def split: list.split)

lemma unlink_fails_indep [simp]:
  "unlink_fails i (s\<lparr>lock_files := l\<rparr>) = unlink_fails i s" "unlink_fails i (s\<lparr>shm_objs := m\<rparr>) = unlink_fails i s"
  "unlink_fails i (s\<lparr>errno := e\<rparr>) = unlink_fails i s"
  by (simp_all add: unlink_fails_def)

lemma sem_unlink_result:
  assumes "pid_ok p"
  shows "lock_files (snd (ft_sem_unlink (sem_name_of p) t)) = (if unlink_fails 0 t then lock_files t else filter (\<lambda>q. q \<noteq> lock_path_of p) (lock_files t))"
    "shm_objs (snd (ft_sem_unlink (sem_name_of p) t)) = shm_objs t"
    "unlink_fails i (snd (ft_sem_unlink (sem_name_of p) t)) = unlink_fails (Suc i) t"
proof -
  have "filter (\<lambda>q. q \<noteq> lock_path_of p) (lock_files t) = lock_files t" if "lock_path_of p \<notin> set (lock_files t)"
    using that by (auto intro!: filter_True)
  then show "lock_files (snd (ft_sem_unlink (sem_name_of p) t)) = (if unlink_fails 0 t then lock_files t else filter (\<lambda>q. q \<noteq> lock_path_of p) (lock_files t))"
    using os_unlink_result by (simp add: ft_sem_unlink_def sem_path_of [OF assms] split_def)
  show "shm_objs (snd (ft_sem_unlink (sem_name_of p) t)) = shm_objs t"
    "unlink_fails i (snd (ft_sem_unlink (sem_name_of p) t)) = unlink_fails (Suc i) t"
    using os_unlink_result by (simp_all add: ft_sem_unlink_def sem_path_of [OF assms] split_def)
qed

lemma shm_unlink_result:
  "lock_files (snd (shm_unlink n t)) = lock_files t"
  "shm_objs (snd (shm_unlink n t)) = (if unlink_fails 0 t then shm_objs t else AList.delete n (shm_objs t))"
proof -
  have "AList.delete n (shm_objs t) = shm_objs t" if "map_of (shm_objs t) n = None"
    using that by (auto simp: map_of_eq_None_iff AList.delete_eq image_iff intro!: filter_True)
  then show "shm_objs (snd (shm_unlink n t)) = (if unlink_fails 0 t then shm_objs t else AList.delete n (shm_objs t))"
    using os_unlink_result by (cases "map_of (shm_objs t) n") (simp_all add: shm_unlink_def split_def)
  show "lock_files (snd (shm_unlink n t)) = lock_files t"
    using os_unlink_result by (simp add: shm_unlink_def split_def)
qed

lemma cleanup_objects:
  assumes "pid_ok (self_pid s)" "unlink_script t = unlink_script s"
  shows "objects_of (snd (cleanup_shobjs (sem_name_of (self_pid s)) (shm_name_of (self_pid s)) t)) = after_unlinks s (objects_of t)"
proof -
  have "unlink_fails i t = unlink_fails i s" for i using assms(2) by (simp add: unlink_fails_def)
  then show ?thesis
    using sem_unlink_result [OF assms(1)] shm_unlink_result
    by (simp add: cleanup_shobjs_def split_def objects_of_def after_unlinks_def without_pair_def)
qed

text \<open>The state of a process while it fills its pair.\<close>

definition has_pair :: "ft_state \<Rightarrow> int \<times> ft_shared_s \<Rightarrow> ft_state \<Rightarrow> bool" where
  "has_pair s v t \<longleftrightarrow> self_pid t = self_pid s \<and> unlink_script t = unlink_script s \<and> objects_of t = with_pair (self_pid s) v (objects_of s)"

lemma has_pair_same: "has_pair s v t \<Longrightarrow> same_objects t u \<Longrightarrow> has_pair s v u"
  by (simp add: has_pair_def same_objects_def)

lemma has_pair_store:
  assumes "no_pair (self_pid s) (objects_of s)" "has_pair s v t"
  shows "has_pair s w (t\<lparr>shm_objs := AList.update (shm_name_of (self_pid s)) w (shm_objs t)\<rparr>)"
  using assms by (simp add: has_pair_def objects_of_def with_pair_def no_pair_def alist_update_last)

lemma pair_cleanup_clean:
  assumes "pid_ok (self_pid s)" "no_pair (self_pid s) (objects_of s)" "has_pair s v t"
  shows "stops_clean s (Stopped n d (snd (cleanup_shobjs (sem_name_of (self_pid s)) (shm_name_of (self_pid s)) t)))"
  using assms by (simp add: stops_clean_def cleanup_objects has_pair_def after_unlinks_pair)

lemma pair_call:
  assumes "pid_ok (self_pid s)" "no_pair (self_pid s) (objects_of s)" "has_pair s v t"
  shows "ends (stops_clean s) (has_pair s v)
    (checked_call d (\<lambda>s'. snd (cleanup_shobjs (sem_name_of (self_pid s)) (shm_name_of (self_pid s)) s')) t)"
proof (rule ends_mono [OF checked_call_ends [where E = "stops_clean s"]])
  fix u assume "same_objects t u"
  with assms show "stops_clean s (Stopped 1 d (snd (cleanup_shobjs (sem_name_of (self_pid s)) (shm_name_of (self_pid s)) u)))"
    by (blast intro: pair_cleanup_clean has_pair_same)
qed (use assms(3) has_pair_same in blast)+

lemma same_objects_sem: "same_objects t (snd (ft_sem_lock t))" "same_objects t (snd (ft_sem_unlock t))"
  by (simp_all add: ft_sem_lock_def ft_sem_unlock_def same_objects_def objects_of_def split: list.split)

lemma fill_shared_ends:
  assumes s: "pid_ok (self_pid s)" "no_pair (self_pid s) (objects_of s)" and t: "has_pair s v t"
  shows "ends (stops_clean s) (has_pair s (sizeof_ft_shared_s, new_shared))
    (fill_shared (sem_name_of (self_pid s)) (shm_name_of (self_pid s)) t)"
proof -
  note c = pair_cleanup_clean [OF s] and store = has_pair_store [OF s(2)] and call = pair_call [OF s]
  let ?c = "\<lambda>s'. snd (cleanup_shobjs (sem_name_of (self_pid s)) (shm_name_of (self_pid s)) s')"
  have unlock: "ends (stops_clean s) (has_pair s v)
      (case ft_sem_unlock t of (r, u) \<Rightarrow> if r = - 1 then Inl (Stopped 1 ''faketime: ft_sem_unlock'' (?c u)) else Inr u)"
    if "has_pair s v t" for v t
    using has_pair_same [OF that same_objects_sem(2)] c by (simp add: split_def)
  have lock: "ends (stops_clean s) (has_pair s w)
      (case ft_sem_lock t of (r, u) \<Rightarrow> if r = - 1 then Inl (Stopped 1 ''faketime: ft_sem_lock'' (?c u)) else f u)"
    if "has_pair s v t" "\<And>u. has_pair s v u \<Longrightarrow> ends (stops_clean s) (has_pair s w) (f u)" for v w t f
    using has_pair_same [OF that(1) same_objects_sem(1)] c that(2) by (simp add: split_def)
  show ?thesis unfolding fill_shared_def Let_def
    by (rule ends_bind [OF call [OF t]], rule ends_bind [OF call [OF store]], assumption, rule ends_bind [OF call], assumption,
        rule lock, assumption, rule ends_bind [OF call [OF store]], assumption, erule unlock)
qed

lemma leaky_set_env: "ends (stops_clean s) (same_objects t) (set_env_or_exit n v t)"
  unfolding set_env_or_exit_def
  by (rule ends_bind [OF checked_call_ends]) (simp_all add: stops_clean_def leaky_def same_objects_setenv)

text \<open>The lock file alone is removed when the shared memory cannot be created.\<close>

lemma lock_undone:
  assumes "pid_ok (self_pid s)" "lock_path_of (self_pid s) \<notin> set (lock_files s)"
    and "lock_files u = lock_path_of (self_pid s) # lock_files s" "shm_objs u = shm_objs s" "unlink_script u = unlink_script s"
  shows "undone s (objects_of (snd (ft_sem_unlink (sem_name_of (self_pid s)) u)))"
proof -
  have "filter (\<lambda>q. q \<noteq> lock_path_of (self_pid s)) (lock_files s) = lock_files s" using assms(2) by (auto intro!: filter_True)
  moreover have "unlink_fails 0 u = unlink_fails 0 s" using assms(5) by (simp add: unlink_fails_def)
  ultimately show ?thesis
    unfolding undone_def using assms(3,4)
    by (intro exI [of _ "unlink_fails 0 s"] exI [of _ False]) (simp add: objects_of_def sem_unlink_result [OF assms(1)])
qed

lemma create_shared_unfold:
  assumes "pid_ok (self_pid s)"
  shows "create_shared s = (case ft_sem_create (sem_name_of (self_pid s)) s of (sem, t) \<Rightarrow>
    (case sem of None \<Rightarrow> Inl (Stopped EXIT_FAILURE ''faketime: ft_sem_create'' t)
     | Some sem \<Rightarrow>
        if map_of (shm_objs t) (shm_name_of (self_pid s)) \<noteq> None
        then Inl (Stopped EXIT_FAILURE ''faketime: shm_open'' (snd (ft_sem_unlink sem (t\<lparr>errno := 17\<rparr>))))
        else stop_bind (checked_call ''faketime: shm_open'' (\<lambda>u. snd (ft_sem_unlink sem u)) t) (\<lambda>u.
          stop_bind (fill_shared sem (shm_name_of (self_pid s)) (u\<lparr>shm_objs := AList.update (shm_name_of (self_pid s)) (0, zero_shared) (shm_objs u)\<rparr>)) (\<lambda>u.
          stop_bind (set_env_or_exit ''FAKETIME_SHARED'' (shared_env_of (self_pid s)) u) (\<lambda>u. Inr ((sem, shm_name_of (self_pid s)), snd (ft_sem_close u)))))))"
proof -
  have l: "\<not> length (sem_name_of (self_pid s)) \<ge> PATH_BUFSIZE" "\<not> length (shm_name_of (self_pid s)) \<ge> PATH_BUFSIZE"
    "\<not> length (sem_name_of (self_pid s)) + length (shm_name_of (self_pid s)) + 1 \<ge> PATH_BUFSIZE * 2 + 1"
    using pid_length [OF assms] by (simp_all add: sem_name_of_def shm_name_of_def)
  show ?thesis
    unfolding create_shared_def Let_def sem_name_of_def [symmetric] shm_name_of_def [symmetric] shared_env_of_def
    by (simp only: l if_False)
qed

lemma create_shared_ends:
  assumes p: "pid_ok (self_pid s)"
  shows "ends (stops_clean s)
    (\<lambda>(objs, t). objs = (sem_name_of (self_pid s), shm_name_of (self_pid s)) \<and> no_pair (self_pid s) (objects_of s) \<and>
       has_pair s (sizeof_ft_shared_s, new_shared) t) (create_shared s)"
proof (cases "ft_sem_create (sem_name_of (self_pid s)) s")
  case (Pair sem t)
  let ?p = "self_pid s"
  have l: "length (sem_name_of ?p) < 256" "length (shm_name_of ?p) < 256"
    using pid_length [OF p] by (simp_all add: sem_name_of_def shm_name_of_def)
  note e = create_shared_unfold [OF p]
  show ?thesis
  proof (cases sem)
    case None
    then have "same_objects s t"
      using Pair same_objects_os_call [of s] p
      by (auto simp: ft_sem_create_def sem_path_of same_objects_def objects_of_def split: if_splits prod.splits)
    then show ?thesis using Pair None by (simp add: e stops_clean_same)
  next
    case (Some sm)
    have sm: "sm = sem_name_of ?p" and n: "lock_path_of ?p \<notin> set (lock_files s)"
      and t: "self_pid t = ?p" "lock_files t = lock_path_of ?p # lock_files s" "shm_objs t = shm_objs s" "unlink_script t = unlink_script s"
      using Pair Some same_objects_os_call [of s] p l
      by (auto simp: ft_sem_create_def sem_path_of same_objects_def objects_of_def split: if_splits prod.splits)
    have un: "undone s (objects_of (snd (ft_sem_unlink sm u)))" if "same_objects t u" for u
      using lock_undone [OF p n, of u] that t by (simp add: sm same_objects_def objects_of_def)
    have "same_objects t (t\<lparr>errno := 17\<rparr>)" by (simp add: same_objects_def objects_of_def)
    note un17 = un [OF this]
    show ?thesis
    proof (cases "map_of (shm_objs t) (shm_name_of ?p)")
      case None
      then have np: "no_pair ?p (objects_of s)" using n t by (simp add: no_pair_def objects_of_def)
      have opened: "has_pair s (0, zero_shared) (u\<lparr>shm_objs := AList.update (shm_name_of ?p) (0, zero_shared) (shm_objs u)\<rparr>)"
        if "same_objects t u" for u
        using that t None by (simp add: has_pair_def same_objects_def objects_of_def with_pair_def alist_update_absent)
      have closed: "ends (stops_clean s) (\<lambda>(objs, w). objs = (sem_name_of ?p, shm_name_of ?p) \<and> no_pair ?p (objects_of s) \<and>
            has_pair s (sizeof_ft_shared_s, new_shared) w)
          (stop_bind (set_env_or_exit ''FAKETIME_SHARED'' (shared_env_of ?p) v) (\<lambda>s. Inr ((sm, shm_name_of ?p), snd (ft_sem_close s))))"
        if "has_pair s (sizeof_ft_shared_s, new_shared) v" for v
        by (rule ends_bind [OF leaky_set_env])
          (use that np sm in \<open>auto simp: ft_sem_close_def intro: has_pair_same same_objects_trans same_objects_os_call\<close>)
      have "ends (stops_clean s) (same_objects t) (checked_call ''faketime: shm_open'' (\<lambda>s. snd (ft_sem_unlink sm s)) t)"
        by (rule checked_call_ends) (simp add: stops_clean_def un)
      then show ?thesis unfolding e Pair Some prod.case option.case using None
        by (simp only: simp_thms if_False)
          (erule ends_bind, rule ends_bind [OF fill_shared_ends [OF p np opened, folded sm] closed], assumption)
    qed (use Pair Some un17 in \<open>simp add: e stops_clean_def\<close>)
  qed
qed

lemma set_preload_ends: "ends (stops_clean s) (same_objects t) (set_preload opts t)"
  unfolding set_preload_def
  by (rule ends_bind [OF checked_call_ends])
    (auto simp: stops_clean_def leaky_def intro: ends_mono [OF leaky_set_env] same_objects_trans)

lemma has_pair_trans: "same_objects s t \<Longrightarrow> has_pair t v u \<Longrightarrow> has_pair s v u"
  by (simp add: has_pair_def same_objects_def)

lemma wrapper_setup_ends:
  assumes p: "pid_ok (self_pid s)"
  shows "ends (stops_clean s)
    (\<lambda>(objs, argv, t). objs = (sem_name_of (self_pid s), shm_name_of (self_pid s)) \<and> no_pair (self_pid s) (objects_of s) \<and>
       has_pair s (sizeof_ft_shared_s, new_shared) t) (wrapper_setup P args s)"
    (is "ends ?E ?Q _")
proof -
  have create: "ends ?E ?Q (stop_bind (create_shared t) (\<lambda>(objs, u). stop_bind (set_preload opts u) (\<lambda>u. Inr (objs, argv, u))))"
    if t: "same_objects s t" for t opts argv
  proof (rule ends_bind [where P = "\<lambda>(objs, u). objs = (sem_name_of (self_pid s), shm_name_of (self_pid s)) \<and>
      no_pair (self_pid s) (objects_of s) \<and> has_pair s (sizeof_ft_shared_s, new_shared) u"])
    have "self_pid t = self_pid s" "objects_of t = objects_of s" "unlink_script t = unlink_script s" using t by (simp_all add: same_objects_def)
    then show "ends ?E (\<lambda>(objs, u). objs = (sem_name_of (self_pid s), shm_name_of (self_pid s)) \<and>
        no_pair (self_pid s) (objects_of s) \<and> has_pair s (sizeof_ft_shared_s, new_shared) u) (create_shared t)"
      using ends_mono [OF create_shared_ends [of t] stops_clean_trans [OF t]] p by (auto simp: has_pair_def)
    fix x :: "(string \<times> string) \<times> ft_state"
    assume "case x of (objs, u) \<Rightarrow> objs = (sem_name_of (self_pid s), shm_name_of (self_pid s)) \<and>
      no_pair (self_pid s) (objects_of s) \<and> has_pair s (sizeof_ft_shared_s, new_shared) u"
    then show "ends ?E ?Q (case x of (objs, u) \<Rightarrow> stop_bind (set_preload opts u) (\<lambda>u. Inr (objs, argv, u)))"
      by (auto intro!: ends_bind [OF set_preload_ends] dest: has_pair_same split: prod.splits)
  qed
  show ?thesis unfolding wrapper_setup_def
  proof (rule ends_bind [OF parse_switches_ends], clarify)
    fix opts args t assume t: "same_objects s t"
    have "ends ?E ?Q (stop_bind (set_request P opts timestamp t) (\<lambda>t.
        stop_bind (create_shared t) (\<lambda>(objs, u). stop_bind (set_preload opts u) (\<lambda>u. Inr (objs, argv, u)))))" for timestamp argv
      by (rule ends_bind [OF ends_after [OF t set_request_ends] create])
    then show "ends ?E ?Q (case args of
          timestamp # cmd # cmd_args \<Rightarrow>
            if use_direct opts \<and> freeze_clock opts
            then Inl (Stopped EXIT_FAILURE ''faketime: --freeze cannot be combined with -f'' t)
            else stop_bind (set_request P opts timestamp t) (\<lambda>s.
                 stop_bind (create_shared s) (\<lambda>(objs, s).
                 stop_bind (set_preload opts s) (\<lambda>s. Inr (objs, cmd # cmd_args, s))))
        | _ \<Rightarrow> Inl (Stopped EXIT_FAILURE ''usage'' t))"
      using stops_clean_same [OF t] by (simp split: list.split)
  qed
qed

lemma run_command_objects:
  assumes p: "pid_ok (self_pid s)" and t: "unlink_script t = unlink_script s"
  shows "objects_of (stop_state (run_command P (sem_name_of (self_pid s)) (shm_name_of (self_pid s)) argv t)) \<in>
    {after_unlinks s (objects_of t), after_unlinks s (snd (command P argv (environ t) (objects_of t)))}"
proof -
  obtain r u where c: "os_call t = (r, u)" by fastforce
  have u: "objects_of u = objects_of t" "lock_files u = lock_files t" "shm_objs u = shm_objs t" "environ u = environ t"
    "unlink_script u = unlink_script s"
    using same_objects_os_call [of t] c t by (auto simp: same_objects_def objects_of_def os_call_def split: list.splits if_splits)
  have o: "objects_of (w\<lparr>lock_files := fst q, shm_objs := snd q\<rparr>) = q" for w q by (simp add: objects_of_def)
  note cl = cleanup_objects [OF p]
  show ?thesis
  proof (cases "found P (hd argv)")
    case True
    then show ?thesis
      by (simp add: run_command_def checked_call_def c Let_def split_def u o cl split: wait_status.split)
        (simp add: objects_of_def)
  next
    case False
    then show ?thesis
      by (simp add: run_command_def checked_call_def c Let_def split_def u o cl split: wait_status.split)
        (simp add: objects_of_def)
  qed
qed

section \<open>Properties\<close>

text \<open>
  Claim C8.
  The command \<^verbatim>\<open>faketime\<close> leaves no lock file and no shared memory of its own behind that it can remove, and never
  removes those of another process, whichever of its calls fails and however its command ends: either no
  object of the system has changed, or the command was run with exactly the new pair added, and what
  the command left is there without the pair. An object of the pair stays only if the call that removes it fails
  itself; if neither does, nothing stays. The only other exceptions are a failing \<^verbatim>\<open>setenv\<close> and a failing
  \<^verbatim>\<open>malloc\<close>.
\<close>

theorem wrapper_cleans_up:
  assumes "pid_ok (self_pid s)"
    and "stop_diag (wrapper_main P args s) \<notin> {''faketime: setenv'', ''faketime: malloc''}"
  shows "(undone s (objects_of (stop_state (wrapper_main P args s))) \<or>
     no_pair (self_pid s) (objects_of s) \<and>
     (\<exists>argv env. objects_of (stop_state (wrapper_main P args s)) =
        after_unlinks s (snd (command P argv env (with_pair (self_pid s) (sizeof_ft_shared_s, new_shared) (objects_of s)))))) \<and>
    (unlink_script s = [] \<longrightarrow> objects_of (stop_state (wrapper_main P args s)) = objects_of s \<or>
      no_pair (self_pid s) (objects_of s) \<and>
      (\<exists>argv env. objects_of (stop_state (wrapper_main P args s)) =
        without_pair (self_pid s) (snd (command P argv env (with_pair (self_pid s) (sizeof_ft_shared_s, new_shared) (objects_of s))))))"
    (is "?A \<and> ?B")
proof -
  have *: ?A
  proof (cases "wrapper_setup P args s")
    case (Inl e)
    then show ?thesis using assms wrapper_setup_ends [OF assms(1), of P args] by (auto simp: wrapper_main_def stops_clean_def leaky_def)
  next
    case (Inr x)
    let ?p = "self_pid s"
    obtain argv t where x: "x = ((sem_name_of ?p, shm_name_of ?p), argv, t)" and n: "no_pair ?p (objects_of s)"
      and t: "objects_of t = with_pair ?p (sizeof_ft_shared_s, new_shared) (objects_of s)" "unlink_script t = unlink_script s"
      using wrapper_setup_ends [OF assms(1), of P args] Inr by (auto simp: has_pair_def)
    show ?thesis
      using run_command_objects [OF assms(1) t(2), of P argv] n after_unlinks_pair [OF n]
      by (auto simp: wrapper_main_def Inr x t(1))
  qed
  moreover have ?B if ?A
  proof
    assume u: "unlink_script s = []"
    then have "undone s objs \<longleftrightarrow> objs = objects_of s" for objs by (simp add: undone_all unlink_fails_def)
    with that show "objects_of (stop_state (wrapper_main P args s)) = objects_of s \<or> no_pair (self_pid s) (objects_of s) \<and>
        (\<exists>argv env. objects_of (stop_state (wrapper_main P args s)) =
          without_pair (self_pid s) (snd (command P argv env (with_pair (self_pid s) (sizeof_ft_shared_s, new_shared) (objects_of s)))))"
      by (simp only: after_unlinks_works [OF u])
  qed
  ultimately show ?thesis by blast
qed

text \<open>Programs for examples: a \<^verbatim>\<open>date\<close> that knows one date, and a command that returns 7.\<close>

definition sample_programs :: programs where
  "sample_programs = \<lparr>found = (\<lambda>_. True),
     date_program = (\<lambda>args env. \<lparr>cr_output = Read_Error EINTR # map Byte ''1500'' @ [Byte (CHR 0x0A)], cr_status = Exited 0\<rparr>),
     date_calls = [], date_waits = [EINTR, EINTR],
     command = (\<lambda>args env objs. (\<lparr>cr_output = [], cr_status = Exited 7\<rparr>, objs)), command_waits = []\<rparr>"

lemma checked_call_ok [simp]: "call_script s = [] \<Longrightarrow> checked_call d c s = Inr s"
  by (simp add: checked_call_def)

lemma set_env_ok [simp]: "call_script s = [] \<Longrightarrow> set_env_or_exit n v s = Inr (setenv n v s)"
  by (simp add: set_env_or_exit_def)

text \<open>The state after \<open>create_shared\<close>, and that in which the command is run, when no call fails.\<close>

definition shared_ready :: "ft_state \<Rightarrow> ft_state" where
  "shared_ready s = (setenv ''FAKETIME_SHARED'' (shared_env_of (self_pid s)) s)\<lparr>
     lock_files := lock_path_of (self_pid s) # lock_files s, sem_held := False,
     shm_objs := shm_objs s @ [(shm_name_of (self_pid s), sizeof_ft_shared_s, new_shared)]\<rparr>"

definition launched :: "bool \<Rightarrow> ft_state \<Rightarrow> ft_state" where
  "launched mt s = setenv ''LD_PRELOAD'' ((case getenv ''LD_PRELOAD'' s of Some l \<Rightarrow> l @ '':'' | None \<Rightarrow> []) @ ftpl_path mt) (shared_ready s)"

text \<open>No call of the process fails, and no objects with its names exist.\<close>

definition calls_work :: "ft_state \<Rightarrow> bool" where
  "calls_work s \<longleftrightarrow> call_script s = [] \<and> lock_script s = [] \<and> unlock_script s = [] \<and> pid_ok (self_pid s) \<and>
     no_pair (self_pid s) (objects_of s)"

lemma create_shared_works:
  assumes "calls_work s"
  shows "create_shared s = Inr ((sem_name_of (self_pid s), shm_name_of (self_pid s)), shared_ready s)"
proof -
  let ?p = "self_pid s"
  have a: "call_script s = []" "lock_script s = []" "unlock_script s = []" "pid_ok ?p"
    "lock_path_of ?p \<notin> set (lock_files s)" "map_of (shm_objs s) (shm_name_of ?p) = None"
    using assms by (simp_all add: calls_work_def no_pair_def objects_of_def)
  have t: "take 255 (sem_name_of ?p) = sem_name_of ?p" using pid_length [OF a(4)] by (simp add: sem_name_of_def)
  show ?thesis
    using a by (simp add: create_shared_unfold ft_sem_create_def sem_path_of t fill_shared_def ft_sem_lock_def ft_sem_unlock_def
        ft_sem_close_def alist_update_absent alist_update_last shared_ready_def setenv_def)
qed

lemma launched_fields:
  "environ (launched mt s) = AList.update ''LD_PRELOAD'' ((case getenv ''LD_PRELOAD'' s of Some l \<Rightarrow> l @ '':'' | None \<Rightarrow> []) @ ftpl_path mt)
     (AList.update ''FAKETIME_SHARED'' (shared_env_of (self_pid s)) (environ s))"
  "objects_of (launched mt s) = with_pair (self_pid s) (sizeof_ft_shared_s, new_shared) (objects_of s)"
  "call_script (launched mt s) = call_script s"
  by (simp_all add: launched_def shared_ready_def setenv_def objects_of_def with_pair_def)

lemma setup_works:
  assumes "parse_switches default_opts args s = Inr (opts, timestamp # argv, t)" "argv \<noteq> []"
    and "\<not> (use_direct opts \<and> freeze_clock opts)" "set_request P opts timestamp t = Inr u" "calls_work u"
  shows "wrapper_setup P args s = Inr ((sem_name_of (self_pid u), shm_name_of (self_pid u)), argv, launched (use_mt opts) u)"
proof -
  have c: "call_script (shared_ready u) = []" using assms(5) by (simp add: calls_work_def shared_ready_def setenv_def)
  have g: "getenv ''LD_PRELOAD'' (shared_ready u) = getenv ''LD_PRELOAD'' u"
    by (simp add: shared_ready_def setenv_def getenv_def update_conv)
  from assms c g show ?thesis
    by (cases argv) (simp_all add: wrapper_setup_def create_shared_works set_preload_def launched_def)
qed

lemma run_command_works:
  assumes "call_script t = []" "found P (hd argv)" "wait_for_child (command_waits P)"
    and "command P argv (environ t) (objects_of t) = (run, objs)" "keepalive_read (cr_output run)"
  shows "\<exists>t'. run_command P sem shm_name argv t = Stopped (case cr_status run of Exited n \<Rightarrow> n | _ \<Rightarrow> EXIT_FAILURE)
    (case cr_status run of Signaled _ \<Rightarrow> ''Caught'' | _ \<Rightarrow> []) t'"
  using assms by (simp add: run_command_def Let_def objects_of_def split: wait_status.split)

subsection \<open>Switches\<close>

text \<open>The switches that do not end the command, how they are written, and what they do.\<close>

datatype switch = Sw_mt | Sw_pid string | Sw_direct | Sw_freeze | Sw_exclude_monotonic | Sw_disable_shm | Sw_date_prog string

fun switch_args :: "switch \<Rightarrow> string list" where
  "switch_args Sw_mt = [''-m'']"
| "switch_args (Sw_pid v) = [''-p'', v]"
| "switch_args Sw_direct = [''-f'']"
| "switch_args Sw_freeze = [''--freeze'']"
| "switch_args Sw_exclude_monotonic = [''--exclude-monotonic'']"
| "switch_args Sw_disable_shm = [''--disable-shm'']"
| "switch_args (Sw_date_prog v) = [''--date-prog'', v]"

fun switch_opts :: "switch \<Rightarrow> wrapper_opts \<Rightarrow> wrapper_opts" where
  "switch_opts Sw_mt opts = opts\<lparr>use_mt := True\<rparr>"
| "switch_opts (Sw_pid v) opts = opts\<lparr>fake_pid := Some v\<rparr>"
| "switch_opts Sw_direct opts = opts\<lparr>use_direct := True\<rparr>"
| "switch_opts Sw_freeze opts = opts\<lparr>freeze_clock := True\<rparr>"
| "switch_opts (Sw_date_prog v) opts = opts\<lparr>date_cmd := v\<rparr>"
| "switch_opts _ opts = opts"

fun switch_env :: "switch \<Rightarrow> ft_state \<Rightarrow> ft_state" where
  "switch_env Sw_exclude_monotonic s = setenv ''FAKETIME_DONT_FAKE_MONOTONIC'' ''1'' s"
| "switch_env Sw_disable_shm s = setenv ''FAKETIME_DISABLE_SHM'' ''1'' s"
| "switch_env _ s = s"

definition switch_words :: "string list" where
  "switch_words = [''-m'', ''-p'', ''-f'', ''--freeze'', ''--exclude-monotonic'', ''--disable-shm'', ''--date-prog'',
     ''-v'', ''--version'', ''-h'', ''-?'', ''--help'']"

lemma parse_switches_end: "w \<notin> set switch_words \<Longrightarrow> parse_switches opts (w # args) s = Inr (opts, w # args, s)"
  by (simp add: switch_words_def)

lemma switch_env_frame:
  "call_script (switch_env sw s) = call_script s" "calls_work (switch_env sw s) = calls_work s"
  "self_pid (switch_env sw s) = self_pid s" "objects_of (switch_env sw s) = objects_of s"
  by (cases sw; simp add: setenv_def calls_work_def objects_of_def)+

lemma fold_switch_env_frame:
  "call_script (fold switch_env sws s) = call_script s" "calls_work (fold switch_env sws s) = calls_work s"
  "self_pid (fold switch_env sws s) = self_pid s" "objects_of (fold switch_env sws s) = objects_of s"
  by (induction sws arbitrary: s) (simp_all add: switch_env_frame)

lemma parse_switches_fold:
  assumes "call_script s = []" "w \<notin> set switch_words"
  shows "parse_switches opts (concat (map switch_args sws) @ w # args) s =
    Inr (fold switch_opts sws opts, w # args, fold switch_env sws s)"
  using assms(1)
proof (induction sws arbitrary: opts s)
  case Nil
  then show ?case using parse_switches_end [OF assms(2)] by (simp del: parse_switches.simps)
next
  case (Cons sw sws)
  have "parse_switches opts (switch_args sw @ concat (map switch_args sws) @ w # args) s =
      parse_switches (switch_opts sw opts) (concat (map switch_args sws) @ w # args) (switch_env sw s)"
    using Cons.prems by (cases sw) simp_all
  then show ?case using Cons by (simp add: switch_env_frame)
qed

text \<open>
  Claim C37.
  The switches: any sequence of them, each written with its argument, in any order and with
  repetitions, followed by a word that is none, sets exactly the options and variables
  of each, the last one winning, and leaves the rest of the command line as it is. An unfinished
  last switch is an error, asking for the version or for help a success, and less than a
  timestamp and a command an error.
\<close>

theorem switches_parsed:
  assumes "call_script s = []" "w \<notin> set switch_words"
  shows "parse_switches opts (concat (map switch_args sws) @ w # args) s =
      Inr (fold switch_opts sws opts, w # args, fold switch_env sws s) \<and>
    stop_status (wrapper_main P (concat (map switch_args sws) @ [w]) s) = 1 \<and>
    (\<forall>v \<in> {''-v'', ''--version'', ''-h'', ''-?'', ''--help''}. stop_status (wrapper_main P (v # args) s) = 0) \<and>
    stop_status (wrapper_main P [''-p''] s) = 1 \<and> stop_status (wrapper_main P [''--date-prog''] s) = 1"
  using parse_switches_fold [OF assms] by (simp add: wrapper_main_def wrapper_setup_def)

theorem switches_parsed_witness:
  "parse_switches default_opts [''-p'', ''5'', ''-f'', ''--disable-shm'', ''-m'', ''+1d'', ''ls''] (static_state sample_os) =
     Inr (default_opts\<lparr>fake_pid := Some ''5'', use_direct := True, use_mt := True\<rparr>, [''+1d'', ''ls''],
       setenv ''FAKETIME_DISABLE_SHM'' ''1'' (static_state sample_os)) \<and>
   stop_status (wrapper_main sample_programs [''-?'', ''ls''] (static_state sample_os)) = 0"
  using switches_parsed [of "static_state sample_os" "''+1d''" default_opts "[Sw_pid ''5'', Sw_direct, Sw_disable_shm, Sw_mt]" "[''ls'']" sample_programs]
  by (simp add: switch_words_def static_defs)

lemma wrapper_main_direct:
  assumes "calls_work s" "timestamp \<notin> set switch_words"
    and "opts = fold switch_opts sws default_opts" "use_direct opts" "\<not> freeze_clock opts" "s1 = fold switch_env sws s"
    and "found P cmd" "wait_for_child (command_waits P)"
    and "env = AList.update ''LD_PRELOAD'' ((case getenv ''LD_PRELOAD'' s1 of Some l \<Rightarrow> l @ '':'' | None \<Rightarrow> []) @ ftpl_path (use_mt opts))
        (AList.update ''FAKETIME_SHARED'' (shared_env_of (self_pid s))
          (case_option id (AList.update ''FAKETIME_FAKEPID'') (fake_pid opts) (AList.update ''FAKETIME'' timestamp (environ s1))))"
    and "command P (cmd # args) env (with_pair (self_pid s) (sizeof_ft_shared_s, new_shared) (objects_of s)) = (run, objs)"
    and "keepalive_read (cr_output run)"
  shows "\<exists>t'. wrapper_main P (concat (map switch_args sws) @ timestamp # cmd # args) s =
      Stopped (case cr_status run of Exited n \<Rightarrow> n | _ \<Rightarrow> 1) (case cr_status run of Signaled _ \<Rightarrow> ''Caught'' | _ \<Rightarrow> []) t'"
proof -
  let ?u = "case_option id (setenv ''FAKETIME_FAKEPID'') (fake_pid opts) (setenv ''FAKETIME'' timestamp s1)"
  have c: "call_script s1 = []" "call_script s = []" "calls_work s1"
    using assms(1) by (simp_all add: assms(6) fold_switch_env_frame) (simp_all add: calls_work_def)
  have r: "set_request P opts timestamp s1 = Inr ?u"
    using c(1) assms(4) by (simp add: set_request_def setenv_def split: option.split)
  have w: "calls_work ?u" using c(3) by (simp add: calls_work_def setenv_def objects_of_def split: option.split)
  have u: "self_pid ?u = self_pid s" "objects_of ?u = objects_of s" "getenv ''LD_PRELOAD'' ?u = getenv ''LD_PRELOAD'' s1"
    "environ ?u = case_option id (AList.update ''FAKETIME_FAKEPID'') (fake_pid opts) (AList.update ''FAKETIME'' timestamp (environ s1))"
    using fold_switch_env_frame(3,4) [of sws s]
    by (simp_all add: assms(6) setenv_def getenv_def update_conv objects_of_def split: option.split)
  have "wrapper_setup P (concat (map switch_args sws) @ timestamp # cmd # args) s =
      Inr ((sem_name_of (self_pid ?u), shm_name_of (self_pid ?u)), cmd # args, launched (use_mt opts) ?u)"
    using setup_works [OF _ _ _ r w] parse_switches_fold [OF c(2) assms(2)] assms(3-6) by simp
  moreover have "\<exists>t'. run_command P (sem_name_of (self_pid ?u)) (shm_name_of (self_pid ?u)) (cmd # args) (launched (use_mt opts) ?u) =
      Stopped (case cr_status run of Exited n \<Rightarrow> n | _ \<Rightarrow> 1) (case cr_status run of Signaled _ \<Rightarrow> ''Caught'' | _ \<Rightarrow> []) t'"
    using w assms(7-11) by (intro run_command_works [where objs = objs]) (simp_all add: launched_fields u calls_work_def)
  ultimately show ?thesis by (auto simp: wrapper_main_def)
qed

text \<open>
  Claim C9.
  What the command is run in, and what becomes of its exit status. Asked for a time in the library's own
  format, with any other switches, and when no call fails, \<^verbatim>\<open>faketime\<close> runs the command with the request in
  \<^verbatim>\<open>FAKETIME\<close>, the names of a fresh pair of shared objects in \<^verbatim>\<open>FAKETIME_SHARED\<close> and the library appended to
  \<^verbatim>\<open>LD_PRELOAD\<close>, and with exactly this pair added to the objects of the system. It ends with the status of
  the command, or with a failure when the command was killed, however often its waiting and
  reading was interrupted.
\<close>

theorem wrapper_runs_command:
  assumes "calls_work s" "timestamp \<notin> set switch_words"
    and "opts = fold switch_opts sws default_opts" "use_direct opts" "\<not> freeze_clock opts" "s1 = fold switch_env sws s"
    and "found P cmd" "wait_for_child (command_waits P)"
    and "env = AList.update ''LD_PRELOAD'' ((case getenv ''LD_PRELOAD'' s1 of Some l \<Rightarrow> l @ '':'' | None \<Rightarrow> []) @ ftpl_path (use_mt opts))
        (AList.update ''FAKETIME_SHARED'' (shared_env_of (self_pid s))
          (case_option id (AList.update ''FAKETIME_FAKEPID'') (fake_pid opts) (AList.update ''FAKETIME'' timestamp (environ s1))))"
    and "command P (cmd # args) env (with_pair (self_pid s) (sizeof_ft_shared_s, new_shared) (objects_of s)) = (run, objs)"
    and "keepalive_read (cr_output run)"
  shows "stop_status (wrapper_main P (concat (map switch_args sws) @ timestamp # cmd # args) s) =
      (case cr_status run of Exited n \<Rightarrow> n | _ \<Rightarrow> 1)"
  using wrapper_main_direct [OF assms] by auto

lemma sample_works: "calls_work (static_state sample_os)"
  by (simp add: calls_work_def static_defs pid_ok_def no_pair_def objects_of_def)

theorem wrapper_runs_command_witness:
  "stop_status (wrapper_main sample_programs [''-f'', ''-p'', ''5'', ''+1d'', ''ls''] (static_state sample_os)) = 7"
  using wrapper_runs_command [OF sample_works, of "''+1d''" _ "[Sw_direct, Sw_pid ''5'']" _ sample_programs "''ls''" _ "[]"
      "\<lparr>cr_output = [], cr_status = Exited 7\<rparr>", OF _ refl _ _ refl _ _ refl]
  by (simp add: switch_words_def default_opts_def sample_programs_def)

theorem wrapper_cleans_up_witness:
  "objects_of (stop_state (wrapper_main sample_programs [''-f'', ''+1d'', ''ls''] (static_state sample_os))) = ([], [])"
proof -
  have u: "unlink_script (static_state sample_os) = []" by (simp add: static_defs)
  have p: "pid_ok (self_pid (static_state sample_os))" by (simp add: static_defs pid_ok_def)
  have d: "stop_diag (wrapper_main sample_programs [''-f'', ''+1d'', ''ls''] (static_state sample_os)) \<notin> {''faketime: setenv'', ''faketime: malloc''}"
    using wrapper_main_direct [OF sample_works, of "''+1d''" _ "[Sw_direct]" _ sample_programs "''ls''" _ "[]"
        "\<lparr>cr_output = [], cr_status = Exited 7\<rparr>", OF _ refl _ _ refl _ _ refl]
    by (auto simp: switch_words_def default_opts_def sample_programs_def)
  have "objects_of (static_state sample_os) = ([], [])" by (simp add: objects_of_def static_defs)
  then show ?thesis using wrapper_cleans_up [OF p d] u
    by (auto simp: sample_programs_def without_with_pair)
qed

section \<open>What the \<^verbatim>\<open>date\<close> program says\<close>

fun event_bytes :: "read_event list \<Rightarrow> string" where
  "event_bytes [] = []"
| "event_bytes (Byte b # es) = b # event_bytes es"
| "event_bytes (Read_Error e # es) = event_bytes es"

definition only_interrupted :: "read_event list \<Rightarrow> bool" where
  "only_interrupted es \<longleftrightarrow> (\<forall>e. Read_Error e \<in> set es \<longrightarrow> e = EINTR)"

text \<open>Interruptions aside, the loop stores the first 255 bytes and notices that there were more.\<close>

lemma read_date_output_bytes:
  assumes "only_interrupted es" "length buf \<le> 255"
  shows "read_date_output es buf ov =
    Some (buf @ take (255 - length buf) (event_bytes es), ov \<or> length buf + length (event_bytes es) > 255)"
  using assms
proof (induction es buf ov rule: read_date_output.induct)
  case (3 byte es buf ov)
  have es: "only_interrupted es" using "3.prems" by (simp add: only_interrupted_def)
  show ?case
  proof (cases "length buf < 255")
    case True
    then have "255 - length buf = Suc (255 - Suc (length buf))" by simp
    then show ?thesis using 3 True es by simp
  next
    case False
    then show ?thesis using 3 es by simp
  qed
next
  case (2 e es buf ov)
  then have "e = EINTR" "only_interrupted es" by (auto simp: only_interrupted_def)
  then show ?case using 2 by simp
qed simp

text \<open>A \<^verbatim>\<open>date\<close> program that can be run, and its environment: that of the wrapper without preloaded libraries.\<close>

definition date_runs :: "programs \<Rightarrow> wrapper_opts \<Rightarrow> bool" where
  "date_runs P opts \<longleftrightarrow> found P (date_cmd opts) \<and> date_calls P = [] \<and> wait_for_child (date_waits P)"

definition without_preload :: "(string \<times> string) list \<Rightarrow> (string \<times> string) list" where
  "without_preload env = AList.delete ''DYLD_FORCE_FLAT_NAMESPACE'' (AList.delete ''DYLD_INSERT_LIBRARIES'' (AList.delete ''LD_PRELOAD'' env))"

lemma date_child_runs:
  "date_runs P opts \<Longrightarrow> date_child P opts timestamp s = date_program P [date_cmd opts, ''-d'', timestamp,
     if freeze_clock opts then ''+%Y-%m-%d %H:%M:%S'' else ''+%s''] (without_preload (environ s))"
  by (simp add: date_runs_def date_child_def clear_date_helper_preload_def without_preload_def unsetenv_def Let_def)

lemma request_from_date_runs:
  assumes "call_script s = []" "date_runs P opts"
    and "date_program P [date_cmd opts, ''-d'', timestamp, if freeze_clock opts then ''+%Y-%m-%d %H:%M:%S'' else ''+%s'']
      (without_preload (environ s)) = run"
    and "only_interrupted (cr_output run)"
  shows "request_from_date P opts timestamp s =
    (if length (event_bytes (cr_output run)) > 255 \<or> cr_status run \<noteq> Exited 0
     then Inl (Stopped EXIT_FAILURE ''Error: Timestamp to fake not recognized, please re-try with a different timestamp.'' s)
     else if freeze_clock opts then request_freeze (event_bytes (cr_output run)) s else request_offset (event_bytes (cr_output run)) s)"
  using assms(1,2) read_date_output_bytes [OF assms(4), of "[]" False]
  by (simp add: request_from_date_def date_child_runs assms(3) Let_def) (simp add: date_runs_def)

text \<open>The text of an offset, with its sign.\<close>

definition offset_text :: "int \<Rightarrow> string" where
  "offset_text i = (if i \<ge> 0 then CHR ''+'' else CHR ''-'') # show_nat (nat \<bar>i\<bar>)"

lemma offset_text_printf: "(if i \<ge> 0 then ''+'' else []) @ show_int i = offset_text i"
  by (simp add: offset_text_def show_int_def)

lemma s64_length: "in_s64 i \<Longrightarrow> length (show_nat (nat \<bar>i\<bar>)) \<le> 19"
  by (rule show_nat_length) (auto simp: in_s64_def)

lemma show_int_chars: "c \<in> set (show_int i) \<Longrightarrow> c = CHR ''-'' \<or> isdigit c"
  using show_nat_digits by (auto simp: show_int_def split: if_splits)

lemma date_seconds_printed:
  assumes "in_s64 D"
  shows "parse_date_seconds (c_string (show_int D @ [CHR 0x0A])) = Some D"
proof -
  have "\<forall>c \<in> set (show_int D @ [CHR 0x0A]). c \<noteq> CHR 0x00"
    using show_int_chars [of "CHR 0x00" D] by (auto simp: isdigit_def char_code_def)
  then have c: "c_string (show_int D @ [CHR 0x0A]) = show_int D @ [CHR 0x0A]" by (simp add: c_string_def takeWhile_eq_all_conv)
  have nd: "\<not> isdigit (CHR 0x0A)" by (simp add: isdigit_def char_code_def)
  have "strtol (show_int D @ [CHR 0x0A]) = (D, [CHR 0x0A], False)"
  proof -
    have tw: "takeWhile isdigit (show_nat n @ [CHR 0x0A]) = show_nat n" "dropWhile isdigit (show_nat n @ [CHR 0x0A]) = [CHR 0x0A]" for n
      using show_nat_digits [of n] nd by (simp_all add: takeWhile_append dropWhile_append takeWhile_eq_all_conv dropWhile_eq_Nil_conv)
    have sp: "dropWhile isspace (show_nat n @ [CHR 0x0A]) = show_nat n @ [CHR 0x0A]" "split_sign (show_nat n @ [CHR 0x0A]) = (False, show_nat n @ [CHR 0x0A])" for n
      using show_nat_digits [of n] show_nat_nonempty [of n] by (cases "show_nat n"; auto dest: isdigit_not)+
    have "\<not> isspace (CHR ''-'')" by (simp add: isspace_def)
    then show ?thesis using assms
      by (cases "D < 0") (simp_all add: show_int_def strtol_def in_s64_def tw sp show_nat_nonempty digits_val_show_nat)
  qed
  moreover have "show_int D \<noteq> []" by (simp add: show_int_def show_nat_nonempty)
  ultimately show ?thesis by (simp add: parse_date_seconds_def c isspace_def)
qed

lemma request_offset_seconds:
  assumes "call_script s = []" "in_s64 D" "clk_read s (clk_count s) CLOCK_REALTIME = Some now" "in_s64 (D - tv_sec now)"
  shows "request_offset (show_int D @ [CHR 0x0A]) s =
    Inr (setenv ''FAKETIME'' (offset_text (D - tv_sec now)) (s\<lparr>clk_count := Suc (clk_count s)\<rparr>))"
proof -
  let ?o = "D - tv_sec now" and ?s = "s\<lparr>clk_count := Suc (clk_count s)\<rparr>"
  have l: "\<not> length (offset_text ?o) \<ge> 256" using s64_length [OF assms(4)] by (simp add: offset_text_def)
  have r: "\<not> (?o < S64_MIN \<or> ?o > S64_MAX)" using assms(4) by (simp add: in_s64_def)
  have t: "time_now s = (tv_sec now, ?s)" using assms(3) by (simp add: time_now_def real_clock_gettime_def)
  have "request_offset (show_int D @ [CHR 0x0A]) s = set_env_or_exit ''FAKETIME'' (offset_text ?o) ?s"
    unfolding request_offset_def date_seconds_printed [OF assms(2)] option.case t prod.case Let_def offset_text_printf
    by (simp only: l r if_False)
  then show ?thesis using assms(1) by simp
qed

text \<open>
  The exception in the cleaning up is real: when \<^verbatim>\<open>setenv("FAKETIME_SHARED")\<close> fails, the process ends with both
  objects in place.
\<close>

lemma setenv_failure_leaves_objects:
  assumes "calls_work s" "c = [0, 0, 0, 0, 0, 0, 0, 0, 12]" "timestamp \<notin> set switch_words"
  shows "\<exists>t. wrapper_main P (''-f'' # timestamp # cmd # args) (s\<lparr>call_script := c\<rparr>) = Stopped 1 ''faketime: setenv'' t \<and>
    objects_of t = with_pair (self_pid s) (sizeof_ft_shared_s, new_shared) (objects_of s)"
proof -
  let ?p = "self_pid s"
  have a: "lock_script s = []" "unlock_script s = []" "pid_ok ?p" "lock_path_of ?p \<notin> set (lock_files s)" "map_of (shm_objs s) (shm_name_of ?p) = None"
    using assms(1) by (simp_all add: calls_work_def no_pair_def objects_of_def)
  note c = assms(2)
  have t: "take 255 (sem_name_of ?p) = sem_name_of ?p" using pid_length [OF a(3)] by (simp add: sem_name_of_def)
  let ?u = "(setenv ''FAKETIME'' timestamp s)\<lparr>call_script := drop 2 c\<rparr>"
  have r: "set_request P (default_opts\<lparr>use_direct := True\<rparr>) timestamp (s\<lparr>call_script := c\<rparr>) = Inr ?u"
    by (simp add: set_request_def set_env_or_exit_def checked_call_def os_call_def setenv_def default_opts_def c)
  have "create_shared ?u = Inl (Stopped 1 ''faketime: setenv'' (?u\<lparr>call_script := [], errno := 12, sem_held := False,
      lock_files := lock_path_of ?p # lock_files s, shm_objs := shm_objs s @ [(shm_name_of ?p, sizeof_ft_shared_s, new_shared)]\<rparr>))"
    using a by (subst create_shared_unfold)
      (simp_all add: ft_sem_create_def sem_path_of t fill_shared_def ft_sem_lock_def ft_sem_unlock_def setenv_def c
        alist_update_absent alist_update_last checked_call_def os_call_def set_env_or_exit_def)
  then show ?thesis
    using r assms(3) parse_switches_end [OF assms(3)]
    by (simp add: wrapper_main_def wrapper_setup_def default_opts_def objects_of_def with_pair_def setenv_def del: parse_switches.simps(1))
qed

end
