(* ===== verification/Shm_Creation.thy ===== *)
theory Shm_Creation
  imports Wrapper
begin

text \<open>
  What a process that creates the shared objects leaves in the system, whichever call fails: the creation by
  the library (\<^verbatim>\<open>ft_shm_create\<close> and \<^verbatim>\<open>ft_shm_cleanup_created\<close> of \<^verbatim>\<open>src/src/libfaketime.c\<close>, modelled in
  the theory \<^verbatim>\<open>Shm_Lifecycle\<close>), by the means developed for the command \<^verbatim>\<open>faketime\<close>.
\<close>

lemma unlink_both_cleanup: "unlink_both sem shm_name s = snd (cleanup_shobjs sem shm_name s)"
  by (simp add: unlink_both_def cleanup_shobjs_def split_def)

lemma ft_sem_close_same: "same_objects s (snd (ft_sem_close s))"
  by (simp add: ft_sem_close_def same_objects_os_call)

lemma cleanup_created_clean:
  assumes "pid_ok (self_pid s)" "no_pair (self_pid s) (objects_of s)" "has_pair s v t"
  shows "stops_clean s (Stopped n d (ft_shm_cleanup_created (sem_name_of (self_pid s)) (shm_name_of (self_pid s)) l t))"
proof -
  have "has_pair s v (snd (ft_sem_close (if l then snd (ft_sem_unlock t) else t)))"
    using has_pair_same [OF assms(3)] same_objects_trans [OF same_objects_sem(2) ft_sem_close_same] ft_sem_close_same by simp
  from pair_cleanup_clean [OF assms(1,2) this] show ?thesis
    by (simp add: ft_shm_cleanup_created_def Let_def unlink_both_cleanup)
qed

lemma created_call:
  assumes "pid_ok (self_pid s)" "no_pair (self_pid s) (objects_of s)" "has_pair s v t"
  shows "ends (stops_clean s) (has_pair s v)
    (checked_call d (ft_shm_cleanup_created (sem_name_of (self_pid s)) (shm_name_of (self_pid s)) l) t)"
proof (rule ends_mono [OF checked_call_ends [where E = "stops_clean s"]])
  fix u assume "same_objects t u"
  with assms show "stops_clean s (Stopped 1 d (ft_shm_cleanup_created (sem_name_of (self_pid s)) (shm_name_of (self_pid s)) l u))"
    by (blast intro: cleanup_created_clean has_pair_same)
qed (use assms(3) has_pair_same in blast)+

lemma ft_shm_fill_ends:
  assumes s: "pid_ok (self_pid s)" "no_pair (self_pid s) (objects_of s)" and t: "has_pair s v t"
  shows "ends (stops_clean s) (has_pair s (sizeof_ft_shared_s, new_shared))
    (ft_shm_fill (sem_name_of (self_pid s)) (shm_name_of (self_pid s)) t)"
proof -
  note c = cleanup_created_clean [OF s] and store = has_pair_store [OF s(2)] and call = created_call [OF s]
  let ?c = "ft_shm_cleanup_created (sem_name_of (self_pid s)) (shm_name_of (self_pid s))"
  have rest: "ends (stops_clean s) (has_pair s v)
      (case ft_sem_unlock t of (r, u) \<Rightarrow> if r = - 1 then Inl (Stopped 1 d (?c True u)) else checked_call d' (?c False) u)"
    if "has_pair s v t" for v t d d'
    using has_pair_same [OF that same_objects_sem(2)] c call by (simp add: split_def)
  have lock: "ends (stops_clean s) (has_pair s w)
      (case ft_sem_lock t of (r, u) \<Rightarrow> if r = - 1 then Inl (Stopped 1 d (?c False u)) else f u)"
    if "has_pair s v t" "\<And>u. has_pair s v u \<Longrightarrow> ends (stops_clean s) (has_pair s w) (f u)" for v w t f d
    using has_pair_same [OF that(1) same_objects_sem(1)] c that(2) by (simp add: split_def)
  show ?thesis unfolding ft_shm_fill_def Let_def
    by (rule ends_bind [OF call [OF t]], rule ends_bind [OF call], assumption, rule ends_bind [OF call], assumption,
        rule lock, assumption, rule rest, erule store)
qed

text \<open>The result of a creation that returns: nothing but what could not be removed, or the published pair.\<close>

definition none_or_published :: "ft_state \<Rightarrow> ft_state \<Rightarrow> bool" where
  "none_or_published s t \<longleftrightarrow>
     undone s (objects_of t) \<and> environ t = environ s \<and> shmCreator t = shmCreator s \<or>
     objects_of t = with_pair (self_pid s) (sizeof_ft_shared_s, new_shared) (objects_of s) \<and> shmCreator t \<and>
     getenv ''FAKETIME_SHARED'' t = Some (shared_env_of (self_pid s))"

text \<open>Until the names are published, the environment stays as it was.\<close>

definition quiet :: "ft_state \<Rightarrow> ft_state \<Rightarrow> bool" where
  "quiet s t \<longleftrightarrow> environ t = environ s \<and> shmCreator t = shmCreator s"

lemma quiet_unlink:
  "quiet s t \<Longrightarrow> quiet s (snd (ft_sem_unlink n t))" "quiet s t \<Longrightarrow> quiet s (snd (shm_unlink n t))"
proof -
  assume t: "quiet s t"
  then have "quiet s (snd (os_unlink t))" by (simp add: quiet_def os_unlink_def split: list.split)
  then show "quiet s (snd (ft_sem_unlink n t))" "quiet s (snd (shm_unlink n t))"
    using t by (simp_all add: quiet_def ft_sem_unlink_def shm_unlink_def split_def split: option.split)
qed

lemma quiet_calls:
  "quiet s t \<Longrightarrow> quiet s (snd (os_call t))" "quiet s t \<Longrightarrow> quiet s (snd (ft_sem_close t))"
  "quiet s t \<Longrightarrow> quiet s (snd (ft_sem_lock t))" "quiet s t \<Longrightarrow> quiet s (snd (ft_sem_unlock t))"
  "quiet s t \<Longrightarrow> quiet s (snd (ft_sem_create n t))" "quiet s t \<Longrightarrow> quiet s (snd (ft_sem_open n t))"
  "quiet s t \<Longrightarrow> quiet s (unlink_both n m t)" "quiet s t \<Longrightarrow> quiet s (t\<lparr>shm_objs := x\<rparr>)"
  using quiet_unlink [of s]
  by (simp_all add: unlink_both_def)
    (simp_all add: quiet_def os_call_def ft_sem_close_def ft_sem_lock_def ft_sem_unlock_def ft_sem_create_def ft_sem_open_def
      split: list.split option.split prod.split)

text \<open>Nor does the process end with one of the diagnostics after which the command \<^verbatim>\<open>faketime\<close> may leave objects behind.\<close>

definition tidy :: "wrapper_exit \<Rightarrow> bool" where
  "tidy e \<longleftrightarrow> \<not> leaky (stop_diag e)"

lemma quiet_checked: "quiet s t \<Longrightarrow> \<not> leaky d \<Longrightarrow> ends tidy (quiet s) (checked_call d c t)"
  using quiet_calls(1) [of s t] by (simp add: checked_call_def split_def tidy_def)

lemma ft_shm_fill_quiet: "quiet s t \<Longrightarrow> ends tidy (quiet s) (ft_shm_fill sem n t)"
  unfolding ft_shm_fill_def Let_def
  by (rule ends_bind [OF quiet_checked], assumption, simp add: leaky_def, rule ends_bind [OF quiet_checked], assumption, simp add: leaky_def,
      rule ends_bind [OF quiet_checked], assumption, simp add: leaky_def)
    (simp add: split_def quiet_checked quiet_calls tidy_def leaky_def)

lemma ends_conj: "ends E P m \<Longrightarrow> ends E' Q m \<Longrightarrow> ends (\<lambda>e. E e \<and> E' e) (\<lambda>x. P x \<and> Q x) m"
  by (cases m) simp_all

lemma publish_all_or_nothing:
  assumes "pid_ok (self_pid s)" "no_pair (self_pid s) (objects_of s)" "has_pair s (sizeof_ft_shared_s, new_shared) t" "quiet s t"
  shows "none_or_published s (ft_shm_publish (sem_name_of (self_pid s)) (sem_name_of (self_pid s)) (shm_name_of (self_pid s)) t)"
proof -
  let ?p = "self_pid s" and ?v = "(sizeof_ft_shared_s, new_shared)"
  have undo: "none_or_published s (unlink_both (sem_name_of ?p) (shm_name_of ?p) u)" if "has_pair s ?v u" "quiet s u" for u
  proof -
    have "undone s (objects_of (unlink_both (sem_name_of ?p) (shm_name_of ?p) u))"
      using that(1) assms(1,2) by (simp add: unlink_both_cleanup cleanup_objects has_pair_def after_unlinks_pair)
    then show ?thesis using quiet_calls(7) [OF that(2)] by (simp add: none_or_published_def quiet_def)
  qed
  have publ: "none_or_published s ((setenv ''FAKETIME_SHARED'' (shared_env_of ?p) u)\<lparr>shmCreator := True\<rparr>)" if "has_pair s ?v u" for u
    using that by (simp add: none_or_published_def has_pair_def objects_of_def setenv_def getenv_def update_conv)
  have call: "has_pair s ?v (snd (os_call u)) \<and> quiet s (snd (os_call u))" if "has_pair s ?v u" "quiet s u" for u
    using that has_pair_same [OF _ same_objects_os_call] quiet_calls(1) by blast
  have op: "same_objects u (snd (ft_sem_open n u))" for n u
    using same_objects_os_call [of u] by (auto simp: ft_sem_open_def same_objects_def objects_of_def split: option.split prod.splits)
  have opened: "has_pair s ?v (snd (ft_sem_open n u)) \<and> quiet s (snd (ft_sem_open n u))" if "has_pair s ?v u" "quiet s u" for n u
    using that has_pair_same [OF _ op] quiet_calls(6) by blast
  show ?thesis
    using assms(3,4) call opened undo publ
    unfolding ft_shm_publish_def ft_sem_close_def split_def shared_env_of_def by (simp split: option.split)
qed

lemma sem_create_cases:
  assumes "pid_ok (self_pid s)" "ft_sem_create (sem_name_of (self_pid s)) s = (sem, t)"
  obtains "sem = None" "same_objects s t" "quiet s t"
  | "sem = Some (sem_name_of (self_pid s))" "lock_path_of (self_pid s) \<notin> set (lock_files s)" "self_pid t = self_pid s"
    "lock_files t = lock_path_of (self_pid s) # lock_files s" "shm_objs t = shm_objs s" "unlink_script t = unlink_script s" "quiet s t"
proof -
  have "length (sem_name_of (self_pid s)) < 256" using pid_length [OF assms(1)] by (simp add: sem_name_of_def)
  moreover have "quiet s t" using quiet_calls(5) [of s s "sem_name_of (self_pid s)"] assms(2) by (simp add: quiet_def)
  ultimately show thesis
    using that same_objects_os_call [of s] assms
    by (auto simp: ft_sem_create_def sem_path_of same_objects_def objects_of_def split: if_splits prod.splits)
qed

lemma creation_ends:
  assumes p: "pid_ok (self_pid s)"
  shows "ends (\<lambda>e. stops_clean s e \<and> tidy e) (none_or_published s) (ft_shm_creation s)"
proof (cases "missing_real s ''getpid''")
  case True
  then show ?thesis
    using undone_refl [of s] by (simp add: ft_shm_creation_def check_missing_real_def none_or_published_def objects_of_def)
next
  case False
  let ?p = "self_pid s"
  have l: "\<not> (length (sem_name_of ?p) \<ge> 256 \<or> length (shm_name_of ?p) \<ge> 256)"
    using pid_length [OF p] by (simp add: sem_name_of_def shm_name_of_def)
  have g: "check_missing_real ''getpid'' s = (True, s)" using False by (simp add: check_missing_real_def)
  obtain sem t where c: "ft_sem_create (sem_name_of ?p) s = (sem, t)" by fastforce
  note e = ft_shm_creation_def [unfolded Let_def, of s, folded sem_name_of_def shm_name_of_def] g prod.case simp_thms if_False if_not_P [OF l] c
  from p c show ?thesis
  proof (cases rule: sem_create_cases)
    case 1
    then show ?thesis
      unfolding e using undone_refl [of s] by (simp add: none_or_published_def same_objects_def quiet_def)
  next
    case 2
    have un: "none_or_published s (snd (ft_sem_unlink (sem_name_of ?p) (snd (ft_sem_close u))))" if "same_objects t u" "quiet s u" for u
      using same_objects_trans [OF that(1) ft_sem_close_same] quiet_unlink(1) [OF quiet_calls(2) [OF that(2)], of "sem_name_of ?p"]
        lock_undone [OF p 2(2), of "snd (ft_sem_close u)"] 2
      by (simp add: none_or_published_def quiet_def same_objects_def objects_of_def)
    show ?thesis
    proof (cases "map_of (shm_objs t) (shm_name_of ?p)")
      case None
      let ?u = "(snd (os_call t))\<lparr>shm_objs := AList.update (shm_name_of ?p) (0, new_shared) (shm_objs (snd (os_call t)))\<rparr>"
      have np: "no_pair ?p (objects_of s)" using 2 None by (simp add: no_pair_def objects_of_def)
      have o: "same_objects t (snd (os_call t))" "quiet s (snd (os_call t))" using same_objects_os_call quiet_calls(1) 2(7) by blast+
      then have hp: "has_pair s (0, new_shared) ?u" and q: "quiet s ?u"
        using 2 None by (simp_all add: has_pair_def same_objects_def objects_of_def with_pair_def alist_update_absent quiet_calls)
      have "ends (\<lambda>e. stops_clean s e \<and> tidy e) (none_or_published s) (stop_bind (ft_shm_fill (sem_name_of ?p) (shm_name_of ?p) ?u)
          (\<lambda>s. Inr (ft_shm_publish (sem_name_of ?p) (sem_name_of ?p) (shm_name_of ?p) s)))"
        by (rule ends_bind [OF ends_conj [OF ft_shm_fill_ends [OF p np hp] ft_shm_fill_quiet [OF q]]])
          (use publish_all_or_nothing [OF p np] in auto)
      then show ?thesis unfolding e 2(1) option.case using None un [OF o] by (simp add: split_def)
    qed (use 2 un [of t] in \<open>simp add: e split_def\<close>)
  qed
qed

text \<open>
  Claim C7.
  Creating the shared objects is all or nothing, whichever system call fails, also when the failure ends the
  process: either the lock file and the shared memory object of the process exist, with fresh
  contents, and their names are published in \<^verbatim>\<open>FAKETIME_SHARED\<close>, or nothing was published and no object was added,
  except for one whose removal failed itself. When the removals succeed, no object is added at all in this second case.
\<close>

theorem creation_all_or_nothing:
  assumes "pid_ok (self_pid s)"
  shows "(case ft_shm_creation s of
      Inl e \<Rightarrow> undone s (objects_of (stop_state e)) \<and> ft_shm_create s = Inl (Exit (stop_status e) (stop_diag e))
    | Inr t \<Rightarrow> none_or_published s t \<and> ft_shm_create s = Inr t) \<and>
    (unlink_script s = [] \<longrightarrow>
     (case ft_shm_creation s of
        Inl e \<Rightarrow> objects_of (stop_state e) = objects_of s
      | Inr t \<Rightarrow> objects_of t = objects_of s \<and> environ t = environ s \<and> shmCreator t = shmCreator s \<or>
          objects_of t = with_pair (self_pid s) (sizeof_ft_shared_s, new_shared) (objects_of s) \<and> shmCreator t \<and>
          getenv ''FAKETIME_SHARED'' t = Some (shared_env_of (self_pid s))))"
proof -
  have u: "undone s (objects_of t) \<longleftrightarrow> objects_of t = objects_of s" if "unlink_script s = []" for t
    using that by (simp add: undone_all unlink_fails_def)
  show ?thesis
    using creation_ends [OF assms] u
    by (cases "ft_shm_creation s") (auto simp: stops_clean_def tidy_def ft_shm_create_def exit_of_def none_or_published_def)
qed

text \<open>A failing \<^verbatim>\<open>mmap\<close>, with removals that succeed, and with one of the lock file that fails.\<close>

theorem creation_all_or_nothing_witness:
  "(\<exists>e. ft_shm_creation ((static_state sample_os)\<lparr>call_script := [0, 0, 0, 12]\<rparr>) = Inl e \<and> objects_of (stop_state e) = ([], [])) \<and>
   (\<exists>e. ft_shm_creation ((static_state sample_os)\<lparr>call_script := [0, 0, 0, 12], unlink_script := [13]\<rparr>) = Inl e \<and> snd (objects_of (stop_state e)) = []) \<and>
   ft_shm_create ((static_state sample_os)\<lparr>call_script := [0, 0, 0, 12]\<rparr>) = Inl (Exit 1 ''libfaketime: In ft_shm_create(), mmap failed'')"
proof -
  let ?s = "(static_state sample_os)\<lparr>call_script := [0, 0, 0, 12]\<rparr>" and ?t = "(static_state sample_os)\<lparr>call_script := [0, 0, 0, 12], unlink_script := [13]\<rparr>"
  have n: "''/faketime_sem_'' @ show_int 42 = ''/faketime_sem_42''" "''/faketime_shm_'' @ show_int 42 = ''/faketime_shm_42''" by code_simp+
  have sp: "self_pid ?s = 42" "self_pid ?t = 42" "check_missing_real ''getpid'' ?s = (True, ?s)" "check_missing_real ''getpid'' ?t = (True, ?t)"
    by (simp_all add: static_defs check_missing_real_def)
  have p: "ft_sem_name_to_path ''/faketime_sem_42'' = Some ''/dev/shm/faketime_lock_42''" by code_simp
  have "\<exists>v. ft_shm_creation ?s = Inl (Stopped 1 ''libfaketime: In ft_shm_create(), mmap failed'' v)"
    "\<exists>v. ft_shm_creation ?t = Inl (Stopped 1 ''libfaketime: In ft_shm_create(), mmap failed'' v)"
    unfolding ft_shm_creation_def Let_def sp n prod.case
    by (simp_all add: sp n ft_sem_create_def p os_call_def ft_shm_fill_def checked_call_def static_defs)
  moreover have "pid_ok (self_pid ?s)" "objects_of ?s = ([], [])" "unlink_script ?s = []" "pid_ok (self_pid ?t)" "objects_of ?t = ([], [])"
    by (simp_all add: pid_ok_def objects_of_def static_defs)
  moreover have "snd (objects_of v) = []" if "undone ?t (objects_of v)" for v
    using that by (auto simp: undone_def unlink_fails_def static_defs)
  ultimately show ?thesis using creation_all_or_nothing [of ?s] creation_all_or_nothing [of ?t] by auto
qed

end
