(* ===== verification/Sem_Backends.thy ===== *)
theory Sem_Backends
  imports Shm_Lifecycle
begin

text \<open>
  The semaphores of \<^verbatim>\<open>src/src/ft_sem.c\<close> in all three backends that \<^verbatim>\<open>src/src/ft_sem.h\<close> offers, on a model of the
  kernel objects they use, and many processes that call \<^verbatim>\<open>next_time\<close> of \<^verbatim>\<open>src/src/libfaketime.c\<close> at the same
  time. The other theories follow one process at a time, for which the lock is a flag; here the
  critical section is split into its single reads and writes of the shared memory and the steps of the
  processes interleave.

  A POSIX semaphore and a System V semaphore are counters. A lock of \<^verbatim>\<open>flock\<close> belongs to an open file
  description, which every \<^verbatim>\<open>open\<close> makes anew and a child process inherits with the descriptor. A call
  that would block has the value \<open>None\<close>.
\<close>

section \<open>The kernel\<close>

datatype backend = FT_POSIX | FT_SYSV | FT_FLOCK

record ft_sem_t =
  fts_name :: string
  fts_sem :: nat
  fts_semid :: nat
  fts_fd :: "nat option"

text \<open>
  Semaphores by name and by key, files by path, and open file descriptions with the file (its inode)
  they refer to and the number of descriptors for them. \<open>os_ftok\<close> is the function \<^verbatim>\<open>ftok\<close> for the
  project \<^verbatim>\<open>'F'\<close>, \<open>os_unopenable\<close> the paths that cannot be opened or created.
\<close>

record sem_os =
  psx_names :: "(string \<times> nat) list"
  psx_value :: "nat \<Rightarrow> nat"
  psx_next :: nat
  sysv_sets :: "(int \<times> nat) list"
  sysv_value :: "nat \<Rightarrow> nat option"
  sysv_next :: nat
  os_files :: "(string \<times> nat) list"
  os_next_inode :: nat
  os_ofd :: "nat \<Rightarrow> nat"
  os_refs :: "nat \<Rightarrow> nat"
  os_next_ofd :: nat
  os_flock :: "nat \<Rightarrow> nat option"
  os_unopenable :: "string \<Rightarrow> bool"
  os_ftok :: "string \<Rightarrow> int"

definition new_ofd :: "nat \<Rightarrow> sem_os \<Rightarrow> nat option \<times> sem_os" where
  "new_ofd ino os =
    (let d = os_next_ofd os
     in (Some d, os\<lparr>os_ofd := (os_ofd os)(d := ino), os_refs := (os_refs os)(d := 1), os_next_ofd := Suc d\<rparr>))"

text \<open>\<^verbatim>\<open>open(path, flags)\<close>: whether the file may be created, and whether it must be.\<close>

definition sys_open :: "string \<Rightarrow> bool \<Rightarrow> bool \<Rightarrow> sem_os \<Rightarrow> nat option \<times> sem_os" where
  "sys_open path creat excl os =
    (if os_unopenable os path then (None, os)
     else case map_of (os_files os) path of
       Some ino \<Rightarrow> if creat \<and> excl then (None, os) else new_ofd ino os
     | None \<Rightarrow>
        if \<not> creat then (None, os)
        else let ino = os_next_inode os
             in new_ofd ino (os\<lparr>os_files := (path, ino) # os_files os, os_next_inode := Suc ino, os_flock := (os_flock os)(ino := None)\<rparr>))"

text \<open>Closing the last descriptor of a description gives up its lock.\<close>

definition sys_close :: "nat \<Rightarrow> sem_os \<Rightarrow> sem_os" where
  "sys_close d os =
    (let os = os\<lparr>os_refs := (os_refs os)(d := os_refs os d - 1)\<rparr>
     in if os_refs os d = 0 \<and> os_flock os (os_ofd os d) = Some d
        then os\<lparr>os_flock := (os_flock os)(os_ofd os d := None)\<rparr> else os)"

definition sys_unlink :: "string \<Rightarrow> sem_os \<Rightarrow> int \<times> sem_os" where
  "sys_unlink path os =
    (if map_of (os_files os) path = None then (- 1, os) else (0, os\<lparr>os_files := AList.delete path (os_files os)\<rparr>))"

text \<open>\<^verbatim>\<open>semget\<close> for one semaphore; a new one has the value 0.\<close>

abbreviation (input) IPC_PRIVATE :: int where "IPC_PRIVATE \<equiv> 0"

definition semget :: "int \<Rightarrow> bool \<Rightarrow> sem_os \<Rightarrow> nat option \<times> sem_os" where
  "semget key creat_excl os =
    (let i = sysv_next os; made = os\<lparr>sysv_value := (sysv_value os)(i := Some 0), sysv_next := Suc i\<rparr>
     in if key = IPC_PRIVATE then (Some i, made)
        else case map_of (sysv_sets os) key of
          Some i' \<Rightarrow> if creat_excl then (None, os) else (Some i', os)
        | None \<Rightarrow> if creat_excl then (Some i, made\<lparr>sysv_sets := (key, i) # sysv_sets os\<rparr>) else (None, os))"

definition semop :: "nat \<Rightarrow> int \<Rightarrow> sem_os \<Rightarrow> (int \<times> sem_os) option" where
  "semop i sem_op os =
    (case sysv_value os i of
       None \<Rightarrow> Some (- 1, os)
     | Some v \<Rightarrow> if int v + sem_op < 0 then None
                 else Some (0, os\<lparr>sysv_value := (sysv_value os)(i := Some (nat (int v + sem_op)))\<rparr>))"

definition semctl_rmid :: "nat \<Rightarrow> sem_os \<Rightarrow> int \<times> sem_os" where
  "semctl_rmid i os =
    (if sysv_value os i = None then (- 1, os)
     else (0, os\<lparr>sysv_value := (sysv_value os)(i := None), sysv_sets := filter (\<lambda>(k, i'). i' \<noteq> i) (sysv_sets os)\<rparr>))"

section \<open>The functions of \<^verbatim>\<open>ft_sem.c\<close>\<close>

definition ft_sem_name2key :: "string \<Rightarrow> sem_os \<Rightarrow> int \<times> sem_os" where
  "ft_sem_name2key name os =
    (let fullname = take 255 (''/tmp'' @ name)
     in case sys_open fullname True False os of (d, os) \<Rightarrow>
       (case d of None \<Rightarrow> (- 1, os)
        | Some d \<Rightarrow> let os = sys_close d os in (os_ftok os fullname, os)))"

definition new_ft_sem :: "string \<Rightarrow> ft_sem_t" where
  "new_ft_sem name = \<lparr>fts_name = take 255 name, fts_sem = 0, fts_semid = 0, fts_fd = None\<rparr>"

definition be_sem_create :: "backend \<Rightarrow> string \<Rightarrow> sem_os \<Rightarrow> ft_sem_t option \<times> sem_os" where
  "be_sem_create b name os =
    (case b of
       FT_POSIX \<Rightarrow>
         if map_of (psx_names os) name \<noteq> None then (None, os)
         else let i = psx_next os
              in (Some ((new_ft_sem name)\<lparr>fts_sem := i\<rparr>),
                  os\<lparr>psx_names := (name, i) # psx_names os, psx_value := (psx_value os)(i := 1), psx_next := Suc i\<rparr>)
     | FT_SYSV \<Rightarrow>
         (case ft_sem_name2key name os of (key, os) \<Rightarrow>
          case semget key True os of (i, os) \<Rightarrow>
            (case i of None \<Rightarrow> (None, os)
             | Some i \<Rightarrow>
                (case semop i 1 os of
                   Some (r, os) \<Rightarrow> if r = - 1 then (None, os) else (Some ((new_ft_sem name)\<lparr>fts_semid := i\<rparr>), os)
                 | None \<Rightarrow> (None, os))))
     | FT_FLOCK \<Rightarrow>
         (case ft_sem_name_to_path name of
            None \<Rightarrow> (None, os)
          | Some path \<Rightarrow>
             (case sys_open path True True os of (d, os) \<Rightarrow>
                case d of None \<Rightarrow> (None, os) | Some d \<Rightarrow> (Some ((new_ft_sem name)\<lparr>fts_fd := Some d\<rparr>), os))))"

definition be_sem_open :: "backend \<Rightarrow> string \<Rightarrow> sem_os \<Rightarrow> ft_sem_t option \<times> sem_os" where
  "be_sem_open b name os =
    (case b of
       FT_POSIX \<Rightarrow>
         (case map_of (psx_names os) name of None \<Rightarrow> (None, os) | Some i \<Rightarrow> (Some ((new_ft_sem name)\<lparr>fts_sem := i\<rparr>), os))
     | FT_SYSV \<Rightarrow>
         (case ft_sem_name2key name os of (key, os) \<Rightarrow>
          case semget key False os of (i, os) \<Rightarrow>
            (case i of None \<Rightarrow> (None, os) | Some i \<Rightarrow> (Some ((new_ft_sem name)\<lparr>fts_semid := i\<rparr>), os)))
     | FT_FLOCK \<Rightarrow>
         (case ft_sem_name_to_path name of
            None \<Rightarrow> (None, os)
          | Some path \<Rightarrow>
             (case sys_open path False False os of (d, os) \<Rightarrow>
                case d of None \<Rightarrow> (None, os) | Some d \<Rightarrow> (Some ((new_ft_sem name)\<lparr>fts_fd := Some d\<rparr>), os))))"

definition be_sem_lock :: "backend \<Rightarrow> ft_sem_t \<Rightarrow> sem_os \<Rightarrow> (int \<times> sem_os) option" where
  "be_sem_lock b h os =
    (case b of
       FT_POSIX \<Rightarrow>
         if psx_value os (fts_sem h) = 0 then None
         else Some (0, os\<lparr>psx_value := (psx_value os)(fts_sem h := psx_value os (fts_sem h) - 1)\<rparr>)
     | FT_SYSV \<Rightarrow> semop (fts_semid h) (- 1) os
     | FT_FLOCK \<Rightarrow>
         (case fts_fd h of
            None \<Rightarrow> Some (- 1, os)
          | Some d \<Rightarrow>
             (case os_flock os (os_ofd os d) of
                None \<Rightarrow> Some (0, os\<lparr>os_flock := (os_flock os)(os_ofd os d := Some d)\<rparr>)
              | Some d' \<Rightarrow> if d' = d then Some (0, os) else None)))"

definition be_sem_unlock :: "backend \<Rightarrow> ft_sem_t \<Rightarrow> sem_os \<Rightarrow> (int \<times> sem_os) option" where
  "be_sem_unlock b h os =
    (case b of
       FT_POSIX \<Rightarrow> Some (0, os\<lparr>psx_value := (psx_value os)(fts_sem h := psx_value os (fts_sem h) + 1)\<rparr>)
     | FT_SYSV \<Rightarrow> semop (fts_semid h) 1 os
     | FT_FLOCK \<Rightarrow>
         (case fts_fd h of
            None \<Rightarrow> Some (- 1, os)
          | Some d \<Rightarrow>
             Some (0, if os_flock os (os_ofd os d) = Some d then os\<lparr>os_flock := (os_flock os)(os_ofd os d := None)\<rparr> else os)))"

definition be_sem_close :: "backend \<Rightarrow> ft_sem_t \<Rightarrow> sem_os \<Rightarrow> int \<times> ft_sem_t \<times> sem_os" where
  "be_sem_close b h os =
    (case b of
       FT_POSIX \<Rightarrow> (0, h, os)
     | FT_SYSV \<Rightarrow> (0, h, os)
     | FT_FLOCK \<Rightarrow> (case fts_fd h of None \<Rightarrow> (- 1, h, os) | Some d \<Rightarrow> (0, h\<lparr>fts_fd := None\<rparr>, sys_close d os)))"

definition be_sem_unlink :: "backend \<Rightarrow> ft_sem_t \<Rightarrow> sem_os \<Rightarrow> int \<times> sem_os" where
  "be_sem_unlink b h os =
    (case b of
       FT_POSIX \<Rightarrow>
         if map_of (psx_names os) (fts_name h) = None then (- 1, os)
         else (0, os\<lparr>psx_names := AList.delete (fts_name h) (psx_names os)\<rparr>)
     | FT_SYSV \<Rightarrow> semctl_rmid (fts_semid h) os
     | FT_FLOCK \<Rightarrow> (case ft_sem_name_to_path (fts_name h) of None \<Rightarrow> (- 1, os) | Some path \<Rightarrow> sys_unlink path os))"

text \<open>A child process has a copy of the handle, and with it of the descriptor.\<close>

definition fork_handle :: "ft_sem_t \<Rightarrow> sem_os \<Rightarrow> ft_sem_t \<times> sem_os" where
  "fork_handle h os = (h, case fts_fd h of None \<Rightarrow> os | Some d \<Rightarrow> os\<lparr>os_refs := (os_refs os)(d := os_refs os d + 1)\<rparr>)"

section \<open>Processes that ask for the next tick\<close>

text \<open>
  Where a process is in \<^verbatim>\<open>next_time\<close>: outside; inside with the lock; with the time it has computed; with the
  counter it has loaded to increment it; and after storing it.
\<close>

datatype phase = Outside | Entered | Computed timespec | Loaded timespec int | Stored timespec

text \<open>The world: the kernel, the shared memory, the phases, and the times handed out so far, oldest first.\<close>

record ('p, 's) world =
  w_sys :: 's
  w_shm :: ft_shared_s
  w_phase :: "'p \<Rightarrow> phase"
  w_handed :: "('p \<times> timespec) list"

abbreviation (input) U64 :: int where "U64 \<equiv> 18446744073709551616"

text \<open>
  One step of one process, for a lock given by its operations. A process whose call of \<^verbatim>\<open>ft_sem_lock\<close> would block
  does not take the step; \<open>base\<close> and \<open>len\<close> are the \<^verbatim>\<open>user_faked_time_timespec\<close> and the increment of a process.
\<close>

inductive tick_step ::
  "('p \<Rightarrow> 's \<Rightarrow> (int \<times> 's) option) \<Rightarrow> ('p \<Rightarrow> 's \<Rightarrow> (int \<times> 's) option) \<Rightarrow> 'p set \<Rightarrow> ('p \<Rightarrow> timespec) \<Rightarrow> ('p \<Rightarrow> timespec) \<Rightarrow>
   ('p, 's) world \<Rightarrow> ('p, 's) world \<Rightarrow> bool"
  for lock unlock procs base len
where
  enter: "p \<in> procs \<Longrightarrow> w_phase w p = Outside \<Longrightarrow> lock p (w_sys w) = Some (0, s') \<Longrightarrow>
    tick_step lock unlock procs base len w (w\<lparr>w_sys := s', w_phase := (w_phase w)(p := Entered)\<rparr>)"
| compute: "p \<in> procs \<Longrightarrow> w_phase w p = Entered \<Longrightarrow>
    tick_step lock unlock procs base len w
      (w\<lparr>w_phase := (w_phase w)(p := Computed (timespecadd (base p) (timespecmul (len p) (fl_of_int c_long_double (ticks (w_shm w))))))\<rparr>)"
| load: "p \<in> procs \<Longrightarrow> w_phase w p = Computed tp \<Longrightarrow>
    tick_step lock unlock procs base len w (w\<lparr>w_phase := (w_phase w)(p := Loaded tp (ticks (w_shm w)))\<rparr>)"
| store: "p \<in> procs \<Longrightarrow> w_phase w p = Loaded tp n \<Longrightarrow>
    tick_step lock unlock procs base len w
      (w\<lparr>w_shm := (w_shm w)\<lparr>ticks := (n + 1) mod U64\<rparr>, w_phase := (w_phase w)(p := Stored tp)\<rparr>)"
| leave: "p \<in> procs \<Longrightarrow> w_phase w p = Stored tp \<Longrightarrow> unlock p (w_sys w) = Some (0, s') \<Longrightarrow>
    tick_step lock unlock procs base len w
      (w\<lparr>w_sys := s', w_phase := (w_phase w)(p := Outside), w_handed := w_handed w @ [(p, tp)]\<rparr>)"

definition start_world :: "'s \<Rightarrow> ft_shared_s \<Rightarrow> ('p, 's) world" where
  "start_world s sh = \<lparr>w_sys = s, w_shm = sh, w_phase = (\<lambda>_. Outside), w_handed = []\<rparr>"

inductive_cases tick_stepE: "tick_step lock unlock procs base len w w'"

text \<open>
  The process that creates the semaphore and a number of others that open it: their handles.
\<close>

fun open_handles :: "backend \<Rightarrow> string \<Rightarrow> nat \<Rightarrow> sem_os \<Rightarrow> (ft_sem_t list \<times> sem_os) option" where
  "open_handles b name 0 os = Some ([], os)"
| "open_handles b name (Suc n) os =
    (case be_sem_open b name os of
       (None, _) \<Rightarrow> None
     | (Some h, os) \<Rightarrow> (case open_handles b name n os of None \<Rightarrow> None | Some (hs, os) \<Rightarrow> Some (h # hs, os)))"

definition start_processes :: "backend \<Rightarrow> string \<Rightarrow> nat \<Rightarrow> sem_os \<Rightarrow> (ft_sem_t list \<times> sem_os) option" where
  "start_processes b name n os =
    (case be_sem_create b name os of
       (None, _) \<Rightarrow> None
     | (Some h, os) \<Rightarrow> (case open_handles b name n os of None \<Rightarrow> None | Some (hs, os) \<Rightarrow> Some (h # hs, os)))"

text \<open>The time of tick number \<open>k\<close> after the counter was \<open>n\<close>, and what the process inside may have done.\<close>

definition tick_time :: "('p \<Rightarrow> timespec) \<Rightarrow> ('p \<Rightarrow> timespec) \<Rightarrow> ft_shared_s \<Rightarrow> nat \<Rightarrow> 'p \<Rightarrow> timespec" where
  "tick_time base len sh k p = fst (next_tick (base p) (len p) (sh\<lparr>ticks := (ticks sh + int k) mod U64\<rparr>))"

fun phase_ok :: "('p \<Rightarrow> timespec) \<Rightarrow> ('p \<Rightarrow> timespec) \<Rightarrow> ft_shared_s \<Rightarrow> nat \<Rightarrow> 'p \<Rightarrow> phase \<Rightarrow> bool" where
  "phase_ok base len sh k p Outside = False"
| "phase_ok base len sh k p Entered = True"
| "phase_ok base len sh k p (Computed tp) = (tp = tick_time base len sh k p)"
| "phase_ok base len sh k p (Loaded tp n) = (tp = tick_time base len sh k p \<and> n = (ticks sh + int k) mod U64)"
| "phase_ok base len sh k p (Stored tp) = (tp = tick_time base len sh k p)"

definition is_stored :: "phase \<Rightarrow> bool" where
  "is_stored ph \<longleftrightarrow> (case ph of Stored _ \<Rightarrow> True | _ \<Rightarrow> False)"

section \<open>Mutual exclusion\<close>

text \<open>
  What \<^verbatim>\<open>next_time\<close> relies on: the lock is either free or owned by one process. \<open>rep own s\<close> says that the state
  \<open>s\<close> of the kernel stands for the owner \<open>own\<close>.
\<close>

locale mutex =
  fixes lock :: "'p \<Rightarrow> 's \<Rightarrow> (int \<times> 's) option"
    and unlock :: "'p \<Rightarrow> 's \<Rightarrow> (int \<times> 's) option"
    and procs :: "'p set"
    and rep :: "'p option \<Rightarrow> 's \<Rightarrow> bool"
  assumes lock_free: "p \<in> procs \<Longrightarrow> rep None s \<Longrightarrow> \<exists>s'. lock p s = Some (0, s') \<and> rep (Some p) s'"
    and lock_taken: "p \<in> procs \<Longrightarrow> q \<in> procs \<Longrightarrow> p \<noteq> q \<Longrightarrow> rep (Some q) s \<Longrightarrow> lock p s = None"
    and unlock_held: "p \<in> procs \<Longrightarrow> rep (Some p) s \<Longrightarrow> \<exists>s'. unlock p s = Some (0, s') \<and> rep None s'"
begin

definition tick_inv :: "('p \<Rightarrow> timespec) \<Rightarrow> ('p \<Rightarrow> timespec) \<Rightarrow> ft_shared_s \<Rightarrow> ('p, 's) world \<Rightarrow> 'p option \<Rightarrow> bool" where
  "tick_inv base len sh w own \<longleftrightarrow>
     rep own (w_sys w) \<and> (\<forall>p. own \<noteq> Some p \<longrightarrow> w_phase w p = Outside) \<and>
     (\<forall>p. own = Some p \<longrightarrow> p \<in> procs \<and> phase_ok base len sh (length (w_handed w)) p (w_phase w p)) \<and>
     w_shm w = sh\<lparr>ticks := (ticks sh + int (length (w_handed w) + (if \<exists>p. own = Some p \<and> is_stored (w_phase w p) then 1 else 0))) mod U64\<rparr> \<and>
     (\<forall>i < length (w_handed w). snd (w_handed w ! i) = tick_time base len sh i (fst (w_handed w ! i)))"

lemma tick_inv_start: "rep None s \<Longrightarrow> 0 \<le> ticks sh \<Longrightarrow> ticks sh < U64 \<Longrightarrow> tick_inv base len sh (start_world s sh) None"
  by (simp add: tick_inv_def start_world_def)

lemma tick_inv_step:
  assumes "tick_step lock unlock procs base len w w'" "tick_inv base len sh w own"
  shows "\<exists>own'. tick_inv base len sh w' own'"
  using assms(1)
proof cases
  case (enter p s')
  have own: "own = None"
  proof (rule ccontr)
    assume "own \<noteq> None"
    then obtain q where q: "own = Some q" by auto
    then have "q \<in> procs" "rep (Some q) (w_sys w)" "q \<noteq> p" using assms(2) enter(3) by (auto simp: tick_inv_def)
    then show False using lock_taken [of p q] enter by auto
  qed
  then have "rep None (w_sys w)" using assms(2) by (simp add: tick_inv_def)
  then obtain s'' where "lock p (w_sys w) = Some (0, s'')" "rep (Some p) s''"
    using lock_free [OF enter(2)] by blast
  then have "tick_inv base len sh w' (Some p)"
    using enter assms(2) own by (auto simp: tick_inv_def is_stored_def)
  then show ?thesis by blast
next
  case (compute p)
  then have own: "own = Some p" using assms(2) by (auto simp: tick_inv_def)
  have "tick_inv base len sh w' own"
    using compute assms(2) own by (auto simp: tick_inv_def is_stored_def tick_time_def next_tick_def)
  then show ?thesis by blast
next
  case (load p tp)
  then have own: "own = Some p" using assms(2) by (auto simp: tick_inv_def)
  have "tick_inv base len sh w' own"
    using load assms(2) own by (auto simp: tick_inv_def is_stored_def)
  then show ?thesis by blast
next
  case (store p tp n)
  then have own: "own = Some p" using assms(2) by (auto simp: tick_inv_def)
  have m: "((ticks sh + int k) mod U64 + 1) mod U64 = (ticks sh + (1 + int k)) mod U64" for k
    by (simp add: mod_simps ac_simps)
  have "tick_inv base len sh w' own"
    using store assms(2) own by (auto simp: tick_inv_def is_stored_def m)
  then show ?thesis by blast
next
  case (leave p tp s')
  then have own: "own = Some p" using assms(2) by (auto simp: tick_inv_def)
  then have "rep None s'" using unlock_held [OF leave(2), of "w_sys w"] assms(2) leave(4) by (auto simp: tick_inv_def)
  then have "tick_inv base len sh w' None"
    using leave assms(2) own by (auto simp: tick_inv_def is_stored_def nth_append less_Suc_eq)
  then show ?thesis by blast
qed

lemma tick_inv_runs:
  assumes "(tick_step lock unlock procs base len)\<^sup>*\<^sup>* (start_world s sh) w" "rep None s" "0 \<le> ticks sh" "ticks sh < U64"
  shows "\<exists>own. tick_inv base len sh w own"
  using assms(1)
proof (induction rule: rtranclp_induct)
  case base
  show ?case using tick_inv_start [OF assms(2-4)] by blast
next
  case (step w w')
  then show ?case using tick_inv_step by blast
qed

text \<open>There is always a process that can go on.\<close>

lemma tick_progress:
  assumes "tick_inv base len sh w own" "p \<in> procs"
  shows "\<exists>w'. tick_step lock unlock procs base len w w'"
proof (cases own)
  case None
  then have "rep None (w_sys w)" "w_phase w p = Outside" using assms(1) by (simp_all add: tick_inv_def)
  moreover from this(1) obtain s' where "lock p (w_sys w) = Some (0, s')" using lock_free [OF assms(2)] by blast
  ultimately show ?thesis by (blast intro: tick_step.enter [OF assms(2)])
next
  case (Some q)
  then have q: "q \<in> procs" "rep (Some q) (w_sys w)" "w_phase w q \<noteq> Outside" using assms(1) by (auto simp: tick_inv_def)
  obtain s' where u: "unlock q (w_sys w) = Some (0, s')" using unlock_held [OF q(1,2)] by blast
  show ?thesis
    by (cases "w_phase w q") (use q(3) u in \<open>auto intro: tick_step.intros [OF q(1)]\<close>)
qed

end

section \<open>The backends as locks\<close>

text \<open>
  The state of the kernel that stands for a free lock or for its owner. All handles refer to one object; with
  \<^verbatim>\<open>flock\<close> they have to be different open file descriptions.
\<close>

definition represents :: "backend \<Rightarrow> ('p \<Rightarrow> ft_sem_t) \<Rightarrow> 'p set \<Rightarrow> 'p option \<Rightarrow> sem_os \<Rightarrow> bool" where
  "represents b hs procs own os =
    (case b of
       FT_POSIX \<Rightarrow> \<exists>i. (\<forall>p \<in> procs. fts_sem (hs p) = i) \<and> psx_value os i = (if own = None then 1 else 0)
     | FT_SYSV \<Rightarrow> \<exists>i. (\<forall>p \<in> procs. fts_semid (hs p) = i) \<and> sysv_value os i = Some (if own = None then 1 else 0)
     | FT_FLOCK \<Rightarrow> \<exists>ino. (\<forall>p \<in> procs. \<exists>d. fts_fd (hs p) = Some d \<and> os_ofd os d = ino) \<and> inj_on (\<lambda>p. fts_fd (hs p)) procs \<and>
         os_flock os ino = (case own of None \<Rightarrow> None | Some p \<Rightarrow> fts_fd (hs p)))"

lemma flock_state:
  assumes "represents FT_FLOCK hs procs own os" "p \<in> procs"
  obtains d where "fts_fd (hs p) = Some d" "os_flock os (os_ofd os d) = (case own of None \<Rightarrow> None | Some p \<Rightarrow> fts_fd (hs p))"
  using assms by (auto simp: represents_def)

lemma flock_moves:
  assumes "represents FT_FLOCK hs procs own os" "p \<in> procs" "fts_fd (hs p) = Some d"
    and "v = (case own' of None \<Rightarrow> None | Some p \<Rightarrow> fts_fd (hs p))"
  shows "represents FT_FLOCK hs procs own' (os\<lparr>os_flock := (os_flock os)(os_ofd os d := v)\<rparr>)"
proof -
  obtain ino where i: "\<forall>p \<in> procs. \<exists>d. fts_fd (hs p) = Some d \<and> os_ofd os d = ino" "inj_on (\<lambda>p. fts_fd (hs p)) procs"
    using assms(1) by (auto simp: represents_def)
  then have "os_ofd os d = ino" using assms(2,3) by auto
  then show ?thesis using i assms(4) by (auto simp: represents_def intro!: exI [of _ ino])
qed

interpretation backend: mutex "\<lambda>p. be_sem_lock b (hs p)" "\<lambda>p. be_sem_unlock b (hs p)" procs "represents b hs procs"
proof unfold_locales
  fix p s
  assume a: "p \<in> procs" "represents b hs procs None s"
  show "\<exists>s'. be_sem_lock b (hs p) s = Some (0, s') \<and> represents b hs procs (Some p) s'"
  proof (cases b)
    case FT_FLOCK
    then obtain d where d: "fts_fd (hs p) = Some d" "os_flock s (os_ofd s d) = None"
      using flock_state [of hs procs None s p] a by auto
    then have "be_sem_lock b (hs p) s = Some (0, s\<lparr>os_flock := (os_flock s)(os_ofd s d := Some d)\<rparr>)"
      using FT_FLOCK by (simp add: be_sem_lock_def)
    moreover have "represents b hs procs (Some p) (s\<lparr>os_flock := (os_flock s)(os_ofd s d := Some d)\<rparr>)"
      unfolding FT_FLOCK using a d(1) by (intro flock_moves [where own = None]) (simp_all add: FT_FLOCK)
    ultimately show ?thesis by blast
  qed (use a in \<open>force simp: be_sem_lock_def semop_def represents_def\<close>)+
next
  fix p q s
  assume a: "p \<in> procs" "q \<in> procs" "p \<noteq> q" "represents b hs procs (Some q) s"
  show "be_sem_lock b (hs p) s = None"
  proof (cases b)
    case FT_FLOCK
    have "fts_fd (hs p) \<noteq> fts_fd (hs q)" "fts_fd (hs q) \<noteq> None" using a FT_FLOCK by (auto simp: represents_def inj_on_def)
    moreover obtain d where "fts_fd (hs p) = Some d" "os_flock s (os_ofd s d) = fts_fd (hs q)"
      using flock_state [of hs procs "Some q" s p] a FT_FLOCK by auto
    ultimately show ?thesis using FT_FLOCK by (auto simp: be_sem_lock_def)
  qed (use a in \<open>auto simp: be_sem_lock_def semop_def represents_def\<close>)
next
  fix p s
  assume a: "p \<in> procs" "represents b hs procs (Some p) s"
  show "\<exists>s'. be_sem_unlock b (hs p) s = Some (0, s') \<and> represents b hs procs None s'"
  proof (cases b)
    case FT_FLOCK
    then obtain d where d: "fts_fd (hs p) = Some d" "os_flock s (os_ofd s d) = Some d"
      using flock_state [of hs procs "Some p" s p] a by auto
    then have "be_sem_unlock b (hs p) s = Some (0, s\<lparr>os_flock := (os_flock s)(os_ofd s d := None)\<rparr>)"
      using FT_FLOCK by (simp add: be_sem_unlock_def)
    moreover have "represents b hs procs None (s\<lparr>os_flock := (os_flock s)(os_ofd s d := None)\<rparr>)"
      unfolding FT_FLOCK using a d(1) by (intro flock_moves [where own = "Some p"]) (simp_all add: FT_FLOCK)
    ultimately show ?thesis by blast
  qed (use a in \<open>force simp: be_sem_unlock_def semop_def represents_def\<close>)+
qed

lemma open_handles_posix:
  "map_of (psx_names os) name = Some i \<Longrightarrow>
   open_handles FT_POSIX name n os = Some (replicate n ((new_ft_sem name)\<lparr>fts_sem := i\<rparr>), os)"
  by (induction n) (simp_all add: be_sem_open_def)

text \<open>Opening and closing a file for its key touches no semaphore.\<close>

lemma name2key_frame:
  assumes "ft_sem_name2key name os = (key, os')"
  shows "key = (if os_unopenable os (take 255 (''/tmp'' @ name)) then - 1 else os_ftok os (take 255 (''/tmp'' @ name)))"
    "os_unopenable os' = os_unopenable os" "os_ftok os' = os_ftok os" "sysv_sets os' = sysv_sets os" "sysv_value os' = sysv_value os"
    "sysv_next os' = sysv_next os"
  using assms
  by (auto simp: ft_sem_name2key_def sys_open_def new_ofd_def sys_close_def Let_def split: option.splits if_splits)

definition sysv_key :: "string \<Rightarrow> sem_os \<Rightarrow> int" where
  "sysv_key name os = (if os_unopenable os (take 255 (''/tmp'' @ name)) then - 1 else os_ftok os (take 255 (''/tmp'' @ name)))"

lemma open_handles_sysv:
  assumes "map_of (sysv_sets os) (sysv_key name os) = Some i" "sysv_key name os \<noteq> 0"
  shows "\<exists>os'. open_handles FT_SYSV name n os = Some (replicate n ((new_ft_sem name)\<lparr>fts_semid := i\<rparr>), os') \<and> sysv_value os' = sysv_value os"
  using assms
proof (induction n arbitrary: os)
  case (Suc n)
  obtain key os1 where k: "ft_sem_name2key name os = (key, os1)" by fastforce
  note f = name2key_frame [OF k]
  have key: "key = sysv_key name os" "sysv_key name os1 = sysv_key name os" using f by (simp_all add: sysv_key_def)
  then have "be_sem_open FT_SYSV name os = (Some ((new_ft_sem name)\<lparr>fts_semid := i\<rparr>), os1)"
    using Suc.prems f by (simp add: be_sem_open_def k semget_def)
  then show ?case using Suc.IH [of os1] Suc.prems key f by auto
qed simp

lemma open_handles_flock:
  assumes "ft_sem_name_to_path name = Some path" "\<not> os_unopenable os path" "map_of (os_files os) path = Some ino"
  shows "\<exists>os'. open_handles FT_FLOCK name n os =
      Some (map (\<lambda>k. (new_ft_sem name)\<lparr>fts_fd := Some (os_next_ofd os + k)\<rparr>) [0 ..< n], os') \<and> os_flock os' = os_flock os \<and>
      (\<forall>d. os_ofd os' d = (if os_next_ofd os \<le> d \<and> d < os_next_ofd os + n then ino else os_ofd os d))"
  using assms(2,3)
proof (induction n arbitrary: os)
  case (Suc n)
  let ?d = "os_next_ofd os"
  let ?os = "os\<lparr>os_ofd := (os_ofd os)(?d := ino), os_refs := (os_refs os)(?d := 1), os_next_ofd := Suc ?d\<rparr>"
  have "be_sem_open FT_FLOCK name os = (Some ((new_ft_sem name)\<lparr>fts_fd := Some ?d\<rparr>), ?os)"
    using Suc.prems by (simp add: be_sem_open_def assms(1) sys_open_def new_ofd_def Let_def)
  then show ?case using Suc.IH [of ?os] Suc.prems by (auto simp: map_upt_Suc simp del: upt_Suc)
qed simp

lemma start_represents:
  assumes "start_processes b name n os = Some (hs, os')" "b = FT_SYSV \<Longrightarrow> sysv_key name os \<noteq> IPC_PRIVATE"
  shows "represents b ((!) hs) {..n} None os'"
proof (cases b)
  case FT_POSIX
  then show ?thesis
    using assms(1) by (auto simp: start_processes_def be_sem_create_def represents_def open_handles_posix nth_Cons' Let_def split: if_splits)
next
  case FT_SYSV
  obtain key os1 where k: "ft_sem_name2key name os = (key, os1)" by fastforce
  note f = name2key_frame [OF k]
  let ?i = "sysv_next os1"
  let ?os = "os1\<lparr>sysv_value := (sysv_value os1)(?i := Some 1), sysv_next := Suc ?i, sysv_sets := (key, ?i) # sysv_sets os1\<rparr>"
  have key: "key = sysv_key name os" "sysv_key name ?os = key" "key \<noteq> 0" using f assms(2) [OF FT_SYSV] by (simp_all add: sysv_key_def)
  then have c: "be_sem_create FT_SYSV name os = (Some ((new_ft_sem name)\<lparr>fts_semid := ?i\<rparr>), ?os) \<or> fst (be_sem_create FT_SYSV name os) = None"
    by (auto simp: be_sem_create_def k semget_def semop_def Let_def split: option.splits)
  obtain os2 where "open_handles FT_SYSV name n ?os = Some (replicate n ((new_ft_sem name)\<lparr>fts_semid := ?i\<rparr>), os2)" "sysv_value os2 = sysv_value ?os"
    using open_handles_sysv [of ?os name ?i n] key by auto
  then show ?thesis
    using assms(1) c FT_SYSV by (auto simp: start_processes_def represents_def nth_Cons' split: prod.splits option.splits)
next
  case FT_FLOCK
  show ?thesis
  proof (cases "fst (be_sem_create FT_FLOCK name os)")
    case None
    then show ?thesis using assms(1) FT_FLOCK by (auto simp: start_processes_def split: prod.splits option.splits)
  next
    case (Some h)
    then obtain path where p: "ft_sem_name_to_path name = Some path" "\<not> os_unopenable os path" "map_of (os_files os) path = None"
      by (auto simp: be_sem_create_def sys_open_def split: option.splits if_splits)
    let ?d = "os_next_ofd os" and ?ino = "os_next_inode os"
    let ?os = "os\<lparr>os_files := (path, ?ino) # os_files os, os_next_inode := Suc ?ino, os_flock := (os_flock os)(?ino := None),
      os_ofd := (os_ofd os)(?d := ?ino), os_refs := (os_refs os)(?d := 1), os_next_ofd := Suc ?d\<rparr>"
    have c: "be_sem_create FT_FLOCK name os = (Some ((new_ft_sem name)\<lparr>fts_fd := Some ?d\<rparr>), ?os)"
      using p by (simp add: be_sem_create_def sys_open_def new_ofd_def Let_def)
    obtain os2 where o: "open_handles FT_FLOCK name n ?os =
        Some (map (\<lambda>k. (new_ft_sem name)\<lparr>fts_fd := Some (Suc ?d + k)\<rparr>) [0 ..< n], os2)" "os_flock os2 = os_flock ?os"
        "\<forall>d. os_ofd os2 d = (if Suc ?d \<le> d \<and> d < Suc ?d + n then ?ino else os_ofd ?os d)"
      using open_handles_flock [OF p(1), of ?os ?ino n] p(2) by auto
    have hs: "hs = map (\<lambda>k. (new_ft_sem name)\<lparr>fts_fd := Some (?d + k)\<rparr>) [0 ..< Suc n]" "os' = os2"
      using assms(1) FT_FLOCK c o(1) by (simp_all add: start_processes_def map_upt_Suc del: upt_Suc)
    have "fts_fd (hs ! p) = Some (?d + p)" if "p \<le> n" for p using that unfolding hs(1) by (simp del: upt_Suc)
    then show ?thesis using o(2,3) hs(2) FT_FLOCK by (auto simp: represents_def inj_on_def)
  qed
qed

section \<open>Properties\<close>

text \<open>A call that no other process interrupts does what \<open>next_tick\<close> does.\<close>

lemma undisturbed_call:
  assumes "p \<in> procs" "w_phase w p = Outside" "lock p (w_sys w) = Some (0, s1)" "unlock p s1 = Some (0, s2)"
  shows "(tick_step lock unlock procs base len)\<^sup>*\<^sup>* w
    (w\<lparr>w_sys := s2, w_shm := snd (next_tick (base p) (len p) (w_shm w)), w_phase := (w_phase w)(p := Outside),
       w_handed := w_handed w @ [(p, fst (next_tick (base p) (len p) (w_shm w)))]\<rparr>)"
proof -
  let ?step = "tick_step lock unlock procs base len"
  let ?tp = "fst (next_tick (base p) (len p) (w_shm w))" and ?n = "ticks (w_shm w)"
  let ?w1 = "w\<lparr>w_sys := s1, w_phase := (w_phase w)(p := Entered)\<rparr>"
  let ?w2 = "w\<lparr>w_sys := s1, w_phase := (w_phase w)(p := Computed ?tp)\<rparr>"
  let ?w3 = "w\<lparr>w_sys := s1, w_phase := (w_phase w)(p := Loaded ?tp ?n)\<rparr>"
  let ?w4 = "w\<lparr>w_sys := s1, w_shm := snd (next_tick (base p) (len p) (w_shm w)), w_phase := (w_phase w)(p := Stored ?tp)\<rparr>"
  let ?w5 = "w\<lparr>w_sys := s2, w_shm := snd (next_tick (base p) (len p) (w_shm w)), w_phase := (w_phase w)(p := Outside),
     w_handed := w_handed w @ [(p, ?tp)]\<rparr>"
  have "?step w ?w1" using assms by (intro tick_step.enter)
  moreover have "?step ?w1 ?w2" using tick_step.compute [OF assms(1), of ?w1 lock unlock base len] by (simp add: next_tick_def)
  moreover have "?step ?w2 ?w3" using tick_step.load [OF assms(1), of ?w2 ?tp lock unlock base len] by simp
  moreover have "?step ?w3 ?w4" using tick_step.store [OF assms(1), of ?w3 ?tp ?n lock unlock base len] by (simp add: next_tick_def)
  moreover have "?step ?w4 ?w5" using tick_step.leave [OF assms(1), of ?w4 ?tp unlock s2 lock base len] assms(4) by (cases w) simp
  ultimately show ?thesis by (meson r_into_rtranclp rtranclp_trans)
qed

text \<open>
  Claim C5.
  Ticks are handed out once, with every backend. Of a process that creates the semaphore and any number that open
  it by name, in any interleaving of their steps, at most one is in the critical section of
  \<^verbatim>\<open>next_time\<close>; the i-th time that was returned is that of tick number i, so no tick is lost or handed
  out twice; the counter in the shared memory is the number of the ticks; and there is always a process
  that can take a step.
\<close>

theorem concurrent_ticks_distinct:
  assumes "start_processes b name n os = Some (hs, os')" "b = FT_SYSV \<Longrightarrow> sysv_key name os \<noteq> IPC_PRIVATE"
    and "0 \<le> ticks sh" "ticks sh < U64"
    and "step = tick_step (\<lambda>p. be_sem_lock b (hs ! p)) (\<lambda>p. be_sem_unlock b (hs ! p)) {..n} base len"
    and "step\<^sup>*\<^sup>* (start_world os' sh) w"
  shows "(\<forall>p q. w_phase w p \<noteq> Outside \<and> w_phase w q \<noteq> Outside \<longrightarrow> p = q) \<and>
    (\<forall>i < length (w_handed w). snd (w_handed w ! i) = tick_time base len sh i (fst (w_handed w ! i))) \<and>
    ((\<forall>p. w_phase w p = Outside) \<longrightarrow> w_shm w = sh\<lparr>ticks := (ticks sh + int (length (w_handed w))) mod U64\<rparr>) \<and>
    (\<exists>w'. step w w')"
proof -
  have r: "represents b ((!) hs) {..n} None os'" using assms(1,2) by (rule start_represents)
  obtain own where i: "backend.tick_inv {..n} b ((!) hs) base len sh w own"
    using backend.tick_inv_runs [OF _ r assms(3,4)] assms(5,6) by blast
  then have "\<exists>w'. step w w'" unfolding assms(5) using backend.tick_progress [OF i] by (meson atMost_iff le0)
  moreover have "own = Some p" if "w_phase w p \<noteq> Outside" for p using i that by (auto simp: backend.tick_inv_def)
  moreover have "own = None" if "\<forall>p. w_phase w p = Outside"
    using i that by (cases own) (auto simp: backend.tick_inv_def)
  ultimately show ?thesis using i by (fastforce simp: backend.tick_inv_def)
qed

text \<open>A system without semaphores and files, for examples.\<close>

definition sample_sem_os :: sem_os where
  "sample_sem_os = \<lparr>psx_names = [], psx_value = \<lambda>_. 0, psx_next = 0, sysv_sets = [], sysv_value = \<lambda>_. None, sysv_next = 0,
     os_files = [], os_next_inode = 0, os_ofd = \<lambda>_. 0, os_refs = \<lambda>_. 0, os_next_ofd = 0, os_flock = \<lambda>_. None,
     os_unopenable = \<lambda>_. False, os_ftok = \<lambda>_. 7\<rparr>"

theorem concurrent_ticks_distinct_witness:
  "\<exists>hs os' w. start_processes FT_FLOCK ''/faketime_sem_42'' 1 sample_sem_os = Some (hs, os') \<and>
     (tick_step (\<lambda>p. be_sem_lock FT_FLOCK (hs ! p)) (\<lambda>p. be_sem_unlock FT_FLOCK (hs ! p)) {..1}
       (\<lambda>_. \<lparr>tv_sec = 100, tv_nsec = 0\<rparr>) (\<lambda>_. \<lparr>tv_sec = 2, tv_nsec = 0\<rparr>))\<^sup>*\<^sup>* (start_world os' new_shared) w \<and>
     length (w_handed w) = 1 \<and> snd (w_handed w ! 0) =
       tick_time (\<lambda>_. \<lparr>tv_sec = 100, tv_nsec = 0\<rparr>) (\<lambda>_. \<lparr>tv_sec = 2, tv_nsec = 0\<rparr>) new_shared 0 (fst (w_handed w ! 0))"
proof -
  define base :: "nat \<Rightarrow> timespec" where "base = (\<lambda>_. \<lparr>tv_sec = 100, tv_nsec = 0\<rparr>)"
  define len :: "nat \<Rightarrow> timespec" where "len = (\<lambda>_. \<lparr>tv_sec = 2, tv_nsec = 0\<rparr>)"
  have p: "ft_sem_name_to_path ''/faketime_sem_42'' = Some ''/dev/shm/faketime_lock_42''" by code_simp
  obtain hs os' where s: "start_processes FT_FLOCK ''/faketime_sem_42'' 1 sample_sem_os = Some (hs, os')"
    and h: "fts_fd (hs ! 1) = Some 1" "os_ofd os' 1 = 0" "os_flock os' 0 = None"
    by (simp add: start_processes_def be_sem_create_def be_sem_open_def p sys_open_def new_ofd_def sample_sem_os_def Let_def)
  let ?lock = "\<lambda>p. be_sem_lock FT_FLOCK (hs ! p)" and ?unlock = "\<lambda>p. be_sem_unlock FT_FLOCK (hs ! p)"
  let ?os1 = "os'\<lparr>os_flock := (os_flock os')(0 := Some 1)\<rparr>"
  let ?w0 = "start_world os' new_shared"
  have "?lock 1 (w_sys ?w0) = Some (0, ?os1)" "?unlock 1 ?os1 = Some (0, ?os1\<lparr>os_flock := (os_flock ?os1)(0 := None)\<rparr>)"
    using h by (simp_all add: be_sem_lock_def be_sem_unlock_def start_world_def)
  from undisturbed_call [where lock = ?lock and unlock = ?unlock and p = 1 and w = ?w0 and procs = "{..1}" and base = base and len = len, OF _ _ this]
  obtain w where w: "(tick_step ?lock ?unlock {..1} base len)\<^sup>*\<^sup>* ?w0 w" "length (w_handed w) = 1" by (fastforce simp: start_world_def)
  have "0 \<le> ticks new_shared" "ticks new_shared < U64" by (simp_all add: new_shared_def)
  from concurrent_ticks_distinct [OF s _ this refl w(1)] w(2) show ?thesis using s w unfolding base_def len_def by auto
qed

text \<open>
  The different descriptions matter. A child process that is forked after the library was initialised uses the
  descriptor of its parent, and \<^verbatim>\<open>flock\<close> does not keep the two apart: with the default backend both
  can be inside at once and are handed the same tick (as are two threads of one process).
\<close>

lemma forked_child_shares_tick:
  assumes "fts_fd h = Some d" "os_flock os (os_ofd os d) = None" "fork_handle h os = (h', os')"
    and "hs = [h, h']" "base 0 = base 1" "len 0 = len (1::nat)"
  shows "\<exists>w t. (tick_step (\<lambda>p. be_sem_lock FT_FLOCK (hs ! p)) (\<lambda>p. be_sem_unlock FT_FLOCK (hs ! p)) {..1} base len)\<^sup>*\<^sup>* (start_world os' sh) w \<and>
    w_handed w = [(0, t), (1, t)]"
proof -
  let ?lock = "\<lambda>p. be_sem_lock FT_FLOCK (hs ! p)" and ?unlock = "\<lambda>p. be_sem_unlock FT_FLOCK (hs ! p)"
  let ?step = "tick_step ?lock ?unlock {..1} base len"
  have h: "h' = h" "os_flock os' (os_ofd os' d) = None" using assms(1-3) by (auto simp: fork_handle_def)
  let ?os1 = "os'\<lparr>os_flock := (os_flock os')(os_ofd os' d := Some d)\<rparr>"
  let ?os2 = "?os1\<lparr>os_flock := (os_flock ?os1)(os_ofd os' d := None)\<rparr>"
  have l: "?lock 0 os' = Some (0, ?os1)" "?lock 1 ?os1 = Some (0, ?os1)" "?unlock 0 ?os1 = Some (0, ?os2)" "?unlock 1 ?os2 = Some (0, ?os2)"
    using h assms(1,4) by (simp_all add: be_sem_lock_def be_sem_unlock_def)
  let ?n = "ticks sh" and ?sh = "sh\<lparr>ticks := (ticks sh + 1) mod U64\<rparr>"
  let ?t = "timespecadd (base 0) (timespecmul (len 0) (fl_of_int c_long_double ?n))"
  define ph where "ph a b = (\<lambda>_. Outside)(0 := a, Suc 0 := b)" for a b
  have ph: "(ph a b)(0 := c) = ph c b" "(ph a b)(Suc 0 := c) = ph a c" "ph a b 0 = a" "ph a b (Suc 0) = b" for a b c
    by (auto simp: ph_def)
  define W where "W s m a b l = \<lparr>w_sys = s, w_shm = m, w_phase = ph a b, w_handed = l\<rparr>" for s :: sem_os and m a b and l :: "(nat \<times> timespec) list"
  have s0: "start_world os' sh = W os' sh Outside Outside []" by (auto simp: start_world_def W_def ph_def)
  note st = tick_step.intros [where lock = ?lock and unlock = ?unlock and procs = "{..1}" and base = base and len = len]
  have "?step (W os' sh Outside Outside []) (W ?os1 sh Entered Outside [])"
    using st(1) [of 0 "W os' sh Outside Outside []"] l by (simp add: W_def ph)
  moreover have "?step (W ?os1 sh Entered Outside []) (W ?os1 sh Entered Entered [])"
    using st(1) [of 1 "W ?os1 sh Entered Outside []"] l by (simp add: W_def ph)
  moreover have "?step (W ?os1 sh Entered Entered []) (W ?os1 sh (Computed ?t) Entered [])"
    using st(2) [of 0 "W ?os1 sh Entered Entered []"] by (simp add: W_def ph)
  moreover have "?step (W ?os1 sh (Computed ?t) Entered []) (W ?os1 sh (Computed ?t) (Computed ?t) [])"
    using st(2) [of 1 "W ?os1 sh (Computed ?t) Entered []"] assms(5,6) by (simp add: W_def ph)
  moreover have "?step (W ?os1 sh (Computed ?t) (Computed ?t) []) (W ?os1 sh (Loaded ?t ?n) (Computed ?t) [])"
    using st(3) [of 0 "W ?os1 sh (Computed ?t) (Computed ?t) []"] by (simp add: W_def ph)
  moreover have "?step (W ?os1 sh (Loaded ?t ?n) (Computed ?t) []) (W ?os1 ?sh (Stored ?t) (Computed ?t) [])"
    using st(4) [of 0 "W ?os1 sh (Loaded ?t ?n) (Computed ?t) []"] by (simp add: W_def ph)
  moreover have "?step (W ?os1 ?sh (Stored ?t) (Computed ?t) []) (W ?os2 ?sh Outside (Computed ?t) [(0, ?t)])"
    using st(5) [of 0 "W ?os1 ?sh (Stored ?t) (Computed ?t) []"] l by (simp add: W_def ph)
  moreover have "?step (W ?os2 ?sh Outside (Computed ?t) [(0, ?t)]) (W ?os2 ?sh Outside (Loaded ?t (ticks ?sh)) [(0, ?t)])"
    using st(3) [of 1 "W ?os2 ?sh Outside (Computed ?t) [(0, ?t)]"] by (simp add: W_def ph)
  moreover have "?step (W ?os2 ?sh Outside (Loaded ?t (ticks ?sh)) [(0, ?t)]) (W ?os2 (?sh\<lparr>ticks := (ticks ?sh + 1) mod U64\<rparr>) Outside (Stored ?t) [(0, ?t)])"
    using st(4) [of 1 "W ?os2 ?sh Outside (Loaded ?t (ticks ?sh)) [(0, ?t)]"] by (simp add: W_def ph)
  moreover have "?step (W ?os2 (?sh\<lparr>ticks := (ticks ?sh + 1) mod U64\<rparr>) Outside (Stored ?t) [(0, ?t)])
      (W ?os2 (?sh\<lparr>ticks := (ticks ?sh + 1) mod U64\<rparr>) Outside Outside [(0, ?t), (1, ?t)])"
    using st(5) [of 1 "W ?os2 (?sh\<lparr>ticks := (ticks ?sh + 1) mod U64\<rparr>) Outside (Stored ?t) [(0, ?t)]"] l by (simp add: W_def ph)
  ultimately have "?step\<^sup>*\<^sup>* (start_world os' sh) (W ?os2 (?sh\<lparr>ticks := (ticks ?sh + 1) mod U64\<rparr>) Outside Outside [(0, ?t), (1, ?t)])"
    unfolding s0 by (meson r_into_rtranclp rtranclp_trans)
  then show ?thesis by (auto simp: W_def)
qed

text \<open>
  The files of the \<^verbatim>\<open>flock\<close> backend are those of the one-process model: creating, opening and removing a semaphore
  succeeds in both or in neither, and keeps the correspondence.
\<close>

definition same_files :: "ft_state \<Rightarrow> sem_os \<Rightarrow> bool" where
  "same_files s os \<longleftrightarrow> (\<forall>path. path \<in> set (lock_files s) \<longleftrightarrow> map_of (os_files os) path \<noteq> None)"

lemma flock_refines_files:
  assumes "same_files s os" "call_script s = []" "unlink_script s = []" "\<forall>path. \<not> os_unopenable os path"
  shows "map_option (\<lambda>_. ()) (fst (be_sem_create FT_FLOCK name os)) = map_option (\<lambda>_. ()) (fst (ft_sem_create name s))"
    "same_files (snd (ft_sem_create name s)) (snd (be_sem_create FT_FLOCK name os))"
    "map_option (\<lambda>_. ()) (fst (be_sem_open FT_FLOCK name os)) = map_option (\<lambda>_. ()) (fst (ft_sem_open name s))"
    "same_files (snd (ft_sem_open name s)) (snd (be_sem_open FT_FLOCK name os))"
    "fst (be_sem_unlink FT_FLOCK h os) = fst (ft_sem_unlink (fts_name h) s)"
    "same_files (snd (ft_sem_unlink (fts_name h) s)) (snd (be_sem_unlink FT_FLOCK h os))"
  using assms
  by (auto simp: same_files_def be_sem_create_def ft_sem_create_def be_sem_open_def ft_sem_open_def be_sem_unlink_def ft_sem_unlink_def
      sys_open_def new_ofd_def sys_unlink_def os_call_def os_unlink_def delete_conv' Let_def split: option.splits if_splits)

end
