(* ===== verification/Time_Mutex.thy ===== *)
theory Time_Mutex
  imports Fake_Clock
begin

text \<open>
  The multi-threaded build of \<^verbatim>\<open>src/src/libfaketime.c\<close> (\<^verbatim>\<open>libfaketimeMT\<close>, compiled with \<^verbatim>\<open>PTHREAD_SINGLETHREADED_TIME\<close>): threads take
  turns in \<^verbatim>\<open>fake_clock_gettime\<close> by a mutex. A signal handler may call the library too, so all signals are
  blocked before the mutex is locked, and \<^verbatim>\<open>pthread_cleanup_mutex_lock\<close> unlocks it and restores the mask, at the end of the
  function or when the thread is cancelled inside.

  A thread is a stack of activations, that of the program at the bottom and those of the signal handlers that
  have interrupted it above; a set of signals is a set of numbers. What the function does with the mutex locked
  is the subject of the theory \<open>Fake_Clock\<close>.
\<close>

text \<open>
  Where an activation is in \<^verbatim>\<open>fake_clock_gettime\<close>; the set is \<^verbatim>\<open>original_mask\<close> of \<^verbatim>\<open>struct LockedState\<close>.
\<close>

datatype call_point = Not_In | Signals_Blocked "int set" | Mutex_Locked "int set" | Mutex_Unlocked "int set"

text \<open>An activation has the mask to restore when it returns, and the mask its code has asked for.\<close>

record activation =
  act_return :: "int set"
  act_mask :: "int set"
  act_point :: call_point

record 't threads =
  time_mutex :: "'t option"
  thread_stack :: "'t \<Rightarrow> activation list"
  thread_mask :: "'t \<Rightarrow> int set"

text \<open>A change of the topmost activation of a thread.\<close>

definition set_top :: "'t \<Rightarrow> (activation \<Rightarrow> activation) \<Rightarrow> 't threads \<Rightarrow> 't threads" where
  "set_top t f w = w\<lparr>thread_stack := (thread_stack w)(t := (case thread_stack w t of [] \<Rightarrow> [] | a # as \<Rightarrow> f a # as))\<rparr>"

definition set_mask :: "'t \<Rightarrow> int set \<Rightarrow> 't threads \<Rightarrow> 't threads" where
  "set_mask t m w = w\<lparr>thread_mask := (thread_mask w)(t := m)\<rparr>"

text \<open>The cleanup: unlocking the mutex, then restoring the mask.\<close>

inductive pthread_cleanup_mutex_lock :: "'t \<Rightarrow> 't threads \<Rightarrow> 't threads \<Rightarrow> bool" for t where
  unlock: "thread_stack w t = a # as \<Longrightarrow> act_point a = Mutex_Locked om \<Longrightarrow>
    pthread_cleanup_mutex_lock t w (set_top t (act_point_update (\<lambda>_. Mutex_Unlocked om)) (w\<lparr>time_mutex := None\<rparr>))"
| restore: "thread_stack w t = a # as \<Longrightarrow> act_point a = Mutex_Unlocked om \<Longrightarrow>
    pthread_cleanup_mutex_lock t w (set_mask t om (set_top t (act_point_update (\<lambda>_. Not_In)) w))"

text \<open>The steps of one thread inside the library: blocking all signals, locking the mutex, the cleanup.\<close>

inductive mutex_step :: "'t \<Rightarrow> 't threads \<Rightarrow> 't threads \<Rightarrow> bool" for t where
  block: "thread_stack w t = a # as \<Longrightarrow> act_point a = Not_In \<Longrightarrow>
    mutex_step t w (set_mask t UNIV (set_top t (act_point_update (\<lambda>_. Signals_Blocked (thread_mask w t))) w))"
| lock: "thread_stack w t = a # as \<Longrightarrow> act_point a = Signals_Blocked om \<Longrightarrow> time_mutex w = None \<Longrightarrow>
    mutex_step t w (set_top t (act_point_update (\<lambda>_. Mutex_Locked om)) (w\<lparr>time_mutex := Some t\<rparr>))"
| pop: "pthread_cleanup_mutex_lock t w w' \<Longrightarrow> mutex_step t w w'"

text \<open>
  All steps: those, and what happens around them. A signal that is not masked starts a handler, which runs with more signals
  masked and returns to the mask it found; outside of the library a program may change its mask. A thread that is cancelled with the
  mutex locked (at a cancellation point, such as reading the configuration file) runs the cleanup and ends; otherwise it just ends.
\<close>

inductive thread_step :: "'t threads \<Rightarrow> 't threads \<Rightarrow> bool" where
  inside: "mutex_step t w w' \<Longrightarrow> thread_step w w'"
| signal: "thread_stack w t \<noteq> [] \<Longrightarrow> n \<notin> thread_mask w t \<Longrightarrow> m = thread_mask w t \<union> extra \<Longrightarrow>
    thread_step w (set_mask t m (w\<lparr>thread_stack := (thread_stack w)(t :=
      \<lparr>act_return = thread_mask w t, act_mask = m, act_point = Not_In\<rparr> # thread_stack w t)\<rparr>))"
| return: "thread_stack w t = a # b # bs \<Longrightarrow> act_point a = Not_In \<Longrightarrow>
    thread_step w (set_mask t (act_return a) (w\<lparr>thread_stack := (thread_stack w)(t := b # bs)\<rparr>))"
| sigmask: "thread_stack w t = a # as \<Longrightarrow> act_point a = Not_In \<Longrightarrow>
    thread_step w (set_mask t m (set_top t (act_mask_update (\<lambda>_. m)) w))"
| cancel: "thread_stack w t = a # as \<Longrightarrow> act_point a = Mutex_Locked om \<Longrightarrow>
    thread_step w (w\<lparr>time_mutex := None, thread_stack := (thread_stack w)(t := [])\<rparr>)"
| finish: "thread_stack w t = [a] \<Longrightarrow> act_point a = Not_In \<Longrightarrow>
    thread_step w (w\<lparr>thread_stack := (thread_stack w)(t := [])\<rparr>)"
| create: "thread_stack w t = [] \<Longrightarrow>
    thread_step w (set_mask t m (w\<lparr>thread_stack := (thread_stack w)(t := [\<lparr>act_return = m, act_mask = m, act_point = Not_In\<rparr>])\<rparr>))"

definition no_threads :: "'t threads" where
  "no_threads = \<lparr>time_mutex = None, thread_stack = (\<lambda>_. []), thread_mask = (\<lambda>_. {})\<rparr>"

section \<open>Lemmas\<close>

text \<open>
  The invariant of one thread: only the topmost activation can be inside the library, and when it is, all signals are blocked and the mask to
  restore is the one its code has asked for; otherwise that one is in force, and the activations return to the
  masks of those below them. The mutex is held exactly by the thread that is at that point.
\<close>

fun returns_ok :: "activation list \<Rightarrow> bool" where
  "returns_ok (a # b # bs) \<longleftrightarrow> act_return a = act_mask b \<and> act_point b = Not_In \<and> returns_ok (b # bs)"
| "returns_ok _ \<longleftrightarrow> True"

definition point_ok :: "call_point \<Rightarrow> int set \<Rightarrow> int set \<Rightarrow> bool" where
  "point_ok p asked m = (case p of
     Not_In \<Rightarrow> m = asked | Signals_Blocked om \<Rightarrow> om = asked \<and> m = UNIV
   | Mutex_Locked om \<Rightarrow> om = asked \<and> m = UNIV | Mutex_Unlocked om \<Rightarrow> om = asked \<and> m = UNIV)"

fun is_locked :: "activation list \<Rightarrow> bool" where
  "is_locked (a # as) \<longleftrightarrow> (\<exists>om. act_point a = Mutex_Locked om)"
| "is_locked [] \<longleftrightarrow> False"

fun stack_ok :: "activation list \<Rightarrow> int set \<Rightarrow> bool" where
  "stack_ok (a # as) m \<longleftrightarrow> returns_ok (a # as) \<and> point_ok (act_point a) (act_mask a) m"
| "stack_ok [] m \<longleftrightarrow> True"

definition thread_ok :: "'t threads \<Rightarrow> 't \<Rightarrow> bool" where
  "thread_ok w t \<longleftrightarrow> stack_ok (thread_stack w t) (thread_mask w t) \<and>
     (time_mutex w = Some t \<longleftrightarrow> is_locked (thread_stack w t))"

lemma returns_ok_top [simp]:
  "returns_ok (a\<lparr>act_point := p\<rparr> # as) \<longleftrightarrow> returns_ok (a # as)" "returns_ok (a\<lparr>act_mask := m\<rparr> # as) \<longleftrightarrow> returns_ok (a # as)"
  by (cases as; simp)+

lemma returns_ok_below: "returns_ok (a # as) \<Longrightarrow> b \<in> set as \<Longrightarrow> act_point b = Not_In"
  by (induction "a # as" arbitrary: a as rule: returns_ok.induct) auto

lemmas thread_defs = thread_ok_def set_top_def set_mask_def

lemma cleanup_ok:
  assumes "pthread_cleanup_mutex_lock t w w'" "\<forall>u. thread_ok w u"
  shows "thread_ok w' u"
  using assms(1)
proof cases
  case (unlock a as om)
  then have "time_mutex w = Some t" using assms(2) [rule_format, of t] by (auto simp: thread_defs)
  then show ?thesis using unlock assms(2) [rule_format, of u]
    by (cases "u = t") (auto simp: thread_defs point_ok_def)
next
  case (restore a as om)
  then show ?thesis using assms(2) [rule_format, of u]
    by (cases "u = t") (auto simp: thread_defs point_ok_def)
qed

lemma mutex_step_ok:
  assumes "mutex_step t w w'" "\<forall>u. thread_ok w u"
  shows "thread_ok w' u"
  using assms(1)
proof cases
  case (block a as)
  then show ?thesis using assms(2) [rule_format, of u]
    by (cases "u = t") (simp_all add: thread_defs point_ok_def)
next
  case (lock a as om)
  then show ?thesis using assms(2) [rule_format, of u]
    by (cases "u = t") (auto simp: thread_defs point_ok_def)
next
  case pop
  then show ?thesis using assms(2) by (rule cleanup_ok)
qed

text \<open>A signal finds the thread outside of the library: inside, no signal is deliverable.\<close>

lemma interrupted_outside:
  assumes "stack_ok (a # as) m" "n \<notin> m"
  shows "act_point a = Not_In" "m = act_mask a"
  using assms by (auto simp: point_ok_def split: call_point.splits)

lemma thread_step_ok:
  assumes "thread_step w w'" "\<forall>u. thread_ok w u"
  shows "thread_ok w' u"
  using assms(1)
proof cases
  case (inside t)
  then show ?thesis using assms(2) by (rule mutex_step_ok)
next
  case (signal t n m extra)
  then obtain a as where s: "thread_stack w t = a # as" by (cases "thread_stack w t") auto
  then have "stack_ok (a # as) (thread_mask w t)" using assms(2) [rule_format, of t] by (simp add: thread_ok_def)
  with interrupted_outside [OF this signal(3)] show ?thesis using signal s assms(2) [rule_format, of u]
    by (cases "u = t") (auto simp: thread_defs point_ok_def)
next
  case (return t a b bs)
  then show ?thesis using assms(2) [rule_format, of u]
    by (cases "u = t") (auto simp: thread_defs point_ok_def)
next
  case (sigmask t a as m)
  then show ?thesis using assms(2) [rule_format, of u]
    by (cases "u = t") (auto simp: thread_defs point_ok_def)
next
  case (cancel t a as om)
  then have "time_mutex w = Some t" using assms(2) [rule_format, of t] by (auto simp: thread_defs)
  then show ?thesis using cancel assms(2) [rule_format, of u]
    by (cases "u = t") (auto simp: thread_defs)
next
  case (finish t a)
  then show ?thesis using assms(2) [rule_format, of u]
    by (cases "u = t") (auto simp: thread_defs)
next
  case (create t m)
  then show ?thesis using assms(2) [rule_format, of u]
    by (cases "u = t") (auto simp: thread_defs point_ok_def)
qed

lemma reachable_threads_ok: "thread_step\<^sup>*\<^sup>* no_threads w \<Longrightarrow> thread_ok w u"
proof (induction arbitrary: u rule: rtranclp_induct)
  case base
  show ?case by (simp add: thread_ok_def no_threads_def)
next
  case (step w w')
  then show ?case by (blast intro: thread_step_ok [OF step.hyps(2)])
qed

text \<open>
  From every point inside the library a thread comes out again by steps of its own, once the mutex is free or its own.
\<close>

definition inside_steps :: "'t threads \<Rightarrow> 't threads \<Rightarrow> bool" where
  "inside_steps = (\<lambda>w w'. \<exists>v. mutex_step v w w')\<^sup>*\<^sup>*"

definition outside_with :: "'t threads \<Rightarrow> 't \<Rightarrow> activation \<Rightarrow> activation list \<Rightarrow> bool" where
  "outside_with w t a as \<longleftrightarrow> thread_stack w t = a\<lparr>act_point := Not_In\<rparr> # as \<and> thread_mask w t = act_mask a"

lemma inside_step_then: "mutex_step v w w1 \<Longrightarrow> inside_steps w1 w' \<Longrightarrow> inside_steps w w'"
  unfolding inside_steps_def by (rule converse_rtranclp_into_rtranclp) blast+

lemma leave_unlocked:
  assumes "thread_stack w t = a # as" "act_point a = Mutex_Unlocked (act_mask a)"
  shows "\<exists>w'. inside_steps w w' \<and> outside_with w' t a as"
proof -
  have "outside_with (set_mask t (act_mask a) (set_top t (act_point_update (\<lambda>_. Not_In)) w)) t a as"
    using assms(1) by (simp add: outside_with_def thread_defs)
  moreover have "inside_steps w'' w''" for w'' :: "'a threads" by (simp add: inside_steps_def)
  ultimately show ?thesis using inside_step_then [OF mutex_step.pop [OF pthread_cleanup_mutex_lock.restore [OF assms]]] by blast
qed

lemma leave_locked:
  assumes "thread_stack w t = a # as" "act_point a = Mutex_Locked (act_mask a)"
  shows "\<exists>w'. inside_steps w w' \<and> outside_with w' t a as"
proof -
  let ?w = "set_top t (act_point_update (\<lambda>_. Mutex_Unlocked (act_mask a))) (w\<lparr>time_mutex := None\<rparr>)"
  have "\<exists>w'. inside_steps ?w w' \<and> outside_with w' t (a\<lparr>act_point := Mutex_Unlocked (act_mask a)\<rparr>) as"
    by (rule leave_unlocked) (use assms in \<open>simp_all add: thread_defs\<close>)
  then show ?thesis using inside_step_then [OF mutex_step.pop [OF pthread_cleanup_mutex_lock.unlock [OF assms]]] by (auto simp: outside_with_def)
qed

lemma leave_free:
  assumes "thread_stack w t = a # as" "act_point a = Signals_Blocked (act_mask a)" "time_mutex w = None"
  shows "\<exists>w'. inside_steps w w' \<and> outside_with w' t a as"
proof -
  let ?w = "set_top t (act_point_update (\<lambda>_. Mutex_Locked (act_mask a))) (w\<lparr>time_mutex := Some t\<rparr>)"
  have "\<exists>w'. inside_steps ?w w' \<and> outside_with w' t (a\<lparr>act_point := Mutex_Locked (act_mask a)\<rparr>) as"
    by (rule leave_locked) (use assms in \<open>simp_all add: thread_defs\<close>)
  then show ?thesis using inside_step_then [OF mutex_step.lock [OF assms]] by (auto simp: outside_with_def)
qed

lemma leave_blocked:
  assumes "thread_stack w t = a # as" "act_point a = Signals_Blocked (act_mask a)" "\<forall>u. thread_ok w u"
  shows "\<exists>w'. inside_steps w w' \<and> outside_with w' t a as"
proof (cases "time_mutex w")
  case None
  with assms(1,2) show ?thesis by (rule leave_free)
next
  case (Some v)
  then have "is_locked (thread_stack w v)" using assms(3) [rule_format, of v] by (simp add: thread_ok_def)
  then obtain b bs om where v: "thread_stack w v = b # bs" "act_point b = Mutex_Locked om"
    by (cases "thread_stack w v") auto
  then have "v \<noteq> t" using assms(1,2) by auto
  let ?w = "set_top v (act_point_update (\<lambda>_. Mutex_Unlocked om)) (w\<lparr>time_mutex := None\<rparr>)"
  have "\<exists>w'. inside_steps ?w w' \<and> outside_with w' t a as"
    by (rule leave_free) (use assms(1,2) \<open>v \<noteq> t\<close> in \<open>simp_all add: thread_defs\<close>)
  then show ?thesis using inside_step_then [OF mutex_step.pop [OF pthread_cleanup_mutex_lock.unlock [OF v]]] by blast
qed

lemma leave_library:
  assumes "thread_stack w t = a # as" "\<forall>u. thread_ok w u"
  shows "\<exists>w'. inside_steps w w' \<and> outside_with w' t a as"
proof -
  have p: "point_ok (act_point a) (act_mask a) (thread_mask w t)"
    using assms(2) [rule_format, of t] assms(1) by (simp add: thread_ok_def)
  show ?thesis
  proof (cases "act_point a")
    case Not_In
    then have "outside_with w t a as" using p assms(1) by (cases a) (simp add: outside_with_def point_ok_def)
    then show ?thesis by (auto simp: inside_steps_def)
  next
    case (Signals_Blocked om)
    then show ?thesis using leave_blocked [OF assms(1) _ assms(2)] p by (simp add: point_ok_def)
  next
    case (Mutex_Locked om)
    then show ?thesis using leave_locked [OF assms(1)] p by (simp add: point_ok_def)
  next
    case (Mutex_Unlocked om)
    then show ?thesis using leave_unlocked [OF assms(1)] p by (simp add: point_ok_def)
  qed
qed

section \<open>Properties\<close>

text \<open>
  Claim C6. Signals and cancellations cannot make \<^verbatim>\<open>time_mutex\<close> deadlock: however threads are created, interrupted by signals whose
  handlers call the library themselves, cancelled inside and ended, the mutex is held exactly by the thread whose running
  activation has locked it, no activation that a handler has interrupted is inside the library, and every thread that is inside can
  return, by steps of calls inside alone, to the mask of signals that its code had asked for.
\<close>

theorem signals_cannot_deadlock:
  assumes "thread_step\<^sup>*\<^sup>* no_threads w" "thread_stack w t = a # as"
  shows "(time_mutex w = Some t \<longleftrightarrow> is_locked (a # as)) \<and> (\<forall>b\<in>set as. act_point b = Not_In) \<and>
    (\<exists>w'. inside_steps w w' \<and> outside_with w' t a as)"
proof -
  note ok = reachable_threads_ok [OF assms(1)]
  have "\<forall>b\<in>set as. act_point b = Not_In"
    using ok [of t] returns_ok_below assms(2) unfolding thread_ok_def by fastforce
  moreover have "time_mutex w = Some t \<longleftrightarrow> is_locked (a # as)" using ok [of t] assms(2) by (simp add: thread_ok_def)
  moreover have "\<exists>w'. inside_steps w w' \<and> outside_with w' t a as"
    by (rule leave_library [OF assms(2)]) (use ok in blast)
  ultimately show ?thesis by blast
qed

theorem signals_cannot_deadlock_witness:
  "\<exists>w w' :: nat threads. time_mutex w = Some 0 \<and> thread_mask w 1 = UNIV \<and> inside_steps w w' \<and>
     outside_with w' 1 \<lparr>act_return = {14}, act_mask = {14}, act_point = Signals_Blocked {14}\<rparr> []"
proof -
  define n :: "nat threads" where "n = no_threads"
  define c0 where "c0 = set_mask 0 {} (n\<lparr>thread_stack := (thread_stack n)(0 := [\<lparr>act_return = {}, act_mask = {}, act_point = Not_In\<rparr>])\<rparr>)"
  define c1 where "c1 = set_mask 1 {14} (c0\<lparr>thread_stack := (thread_stack c0)(1 := [\<lparr>act_return = {14}, act_mask = {14}, act_point = Not_In\<rparr>])\<rparr>)"
  define b0 where "b0 = set_mask 0 UNIV (set_top 0 (act_point_update (\<lambda>_. Signals_Blocked (thread_mask c1 0))) c1)"
  define l0 where "l0 = set_top 0 (act_point_update (\<lambda>_. Mutex_Locked {})) (b0\<lparr>time_mutex := Some 0\<rparr>)"
  define w where "w = set_mask 1 UNIV (set_top 1 (act_point_update (\<lambda>_. Signals_Blocked (thread_mask l0 1))) l0)"
  note defs = w_def l0_def b0_def c1_def c0_def n_def no_threads_def set_top_def set_mask_def
  have "thread_step n c0" unfolding c0_def by (rule thread_step.create) (simp add: defs)
  moreover have "thread_step c0 c1" unfolding c1_def by (rule thread_step.create) (simp add: defs)
  moreover have "thread_step c1 b0" unfolding b0_def by (rule thread_step.inside, rule mutex_step.block, simp add: defs, simp)
  moreover have "thread_step b0 l0" unfolding l0_def by (rule thread_step.inside, rule mutex_step.lock, simp add: defs, simp, simp add: defs)
  moreover have "thread_step l0 w" unfolding w_def by (rule thread_step.inside, rule mutex_step.block, simp add: defs, simp)
  ultimately have "thread_step\<^sup>*\<^sup>* n w" by (meson converse_rtranclp_into_rtranclp rtranclp.rtrancl_refl)
  moreover have "thread_stack w 1 = [\<lparr>act_return = {14}, act_mask = {14}, act_point = Signals_Blocked {14}\<rparr>]"
    "time_mutex w = Some 0" "thread_mask w 1 = UNIV" by (simp_all add: defs)
  ultimately show ?thesis using signals_cannot_deadlock [of w 1] n_def by blast
qed

end
