(* ===== verification/Spec2Isabelle.thy ===== *)
theory Spec2Isabelle
  imports Library_Runs Shm_Cleanup Shm_Creation Sem_Backends Time_Mutex
begin

text \<open>
  \<^bold>\<open>libfaketime\<close>: a model of the library and of the command \<^verbatim>\<open>faketime\<close>, and what they do.

  \<^bold>\<open>The program.\<close> The library \<^verbatim>\<open>src/src/libfaketime.c\<close> is preloaded into a program and intercepts the functions by which
  the program learns the time, waits, and looks at the times of files. On the first call it initialises itself
  (\<^verbatim>\<open>ftpl_init\<close>): it finds the real functions, creates or attaches to a small shared memory object
  (\<^verbatim>\<open>src/src/faketime_common.h\<close>) that is protected by a semaphore (\<^verbatim>\<open>src/src/ft_sem.c\<close>), reads its settings from the
  environment and parses the request in \<^verbatim>\<open>FAKETIME\<close> or a configuration file. Every reading goes through
  \<^verbatim>\<open>fake_clock_gettime\<close>, which computes with the macros of \<^verbatim>\<open>src/src/time_ops.h\<close>; functions that wait convert
  their timeouts back to real time. The command \<^verbatim>\<open>faketime\<close> (\<^verbatim>\<open>src/src/faketime.c\<close>) turns a date into a request, creates the shared
  objects, runs a program with the library preloaded, and removes the objects.

  \<^bold>\<open>Conventions.\<close> The platform is Linux on x86-64 with glibc and the default options of \<^verbatim>\<open>src/src/Makefile\<close>, with the optional
  functions (\<^verbatim>\<open>FAKE_SETTIME\<close>, \<^verbatim>\<open>FAKE_RANDOM\<close>, \<^verbatim>\<open>FAKE_PID\<close>, \<^verbatim>\<open>INTERCEPT_SYSCALL\<close>, \<^verbatim>\<open>INTERCEPT_FUTEX\<close>) compiled in. Definitions keep the names
  of the source; a prefix \<^verbatim>\<open>ft_\<close> avoids a clash with a constant of the library of Isabelle, \<^verbatim>\<open>be_\<close> marks the functions of
  \<^verbatim>\<open>ft_sem.c\<close> for all backends. The static variables of the library and its surroundings are the
  record \<^typ>\<open>ft_state\<close>, passed explicitly. A computation that may call \<^verbatim>\<open>exit()\<close> has a type \<^typ>\<open>'a exitable\<close>, whose
  \<open>Inl\<close> is the exit. A pointer that may be NULL is an option. Integers are \<^typ>\<open>int\<close> with their wrap-around
  written out, words where the code works bitwise; doubles and long doubles are rationals with exact rounding.
  Real functions, the \<^verbatim>\<open>date\<close> program, \<^verbatim>\<open>strptime\<close> with \<^verbatim>\<open>mktime\<close>, \<^verbatim>\<open>ftok\<close> and the kernel's answers are parameters.

  \<^bold>\<open>Scripts.\<close> The outcomes of calls that may fail or be interrupted are finite lists (\<open>lock_script\<close>, \<open>unlock_script\<close>,
  \<open>call_script\<close>, \<open>unlink_script\<close> for calls that remove an object, \<open>write_script\<close>, \<open>read_script\<close>, \<open>spawn_script\<close>); after the end of a list the calls succeed. So there is no fuel:
  every loop is a total function, with the length of its script as the measure where it retries; only the loops that follow the
  pointers of the hash table are partial functions, shown to end. A result
  that holds for all scripts holds for every finite number of failures, at every place.

  \<^bold>\<open>Theories\<close>, in the order of their imports:
  \<^item> \<open>FT_Prelude\<close>, \<open>C_Float\<close>, \<open>C_Stdlib\<close>: exits, 64-bit stores, C's floating point and string functions.
  \<^item> \<open>Time_Ops\<close>: \<^verbatim>\<open>time_ops.h\<close>. Addition and subtraction refine saturated integer arithmetic (locale
    \<open>time_unit\<close>, for nanoseconds and microseconds), multiplication has a stated error and a flaw at overflow.
  \<^item> \<open>Settings\<close>: numeric settings, and doubles as times.
  \<^item> \<open>Ft_State\<close>: the state. \<open>Shared_State\<close>: validation of the shared memory, \<^verbatim>\<open>next_time\<close>, \<^verbatim>\<open>reset_time\<close>; the
    locale \<open>lock_retry\<close> treats every loop that retries an interrupted lock.
  \<^item> \<open>Saved_Timestamps\<close>: \<^verbatim>\<open>save_time\<close> and \<^verbatim>\<open>load_time\<close>; a saved file is replayed as it was recorded.
  \<^item> \<open>Parse_Config\<close>: \<^verbatim>\<open>parse_ft_string\<close> and configuration files.
  \<^item> \<open>Fake_Clock\<close>: \<^verbatim>\<open>fake_clock_gettime\<close> in its phases: what a faked clock shows for offsets, rates and increments, and which calls it fakes within limits; monotonicity;
    the invariant \<open>ft_inv\<close> of the library.
  \<^item> \<open>Time_Mutex\<close>: the mutex around it in the multi-threaded library, as steps of threads, signal handlers and cancellations; it cannot deadlock.
  \<^item> \<open>Shm_Lifecycle\<close>, \<open>Shm_Creation\<close>, \<open>Shm_Cleanup\<close>: creating, attaching to and removing the shared objects, also when calls fail,
    those that remove an object included; initialising once (locale \<open>init_cell\<close>).
  \<^item> \<open>Sem_Backends\<close>: the semaphores of all backends and many processes; the locale \<open>mutex\<close> is what the library relies
    on, interpreted for each backend.
  \<^item> \<open>Ftpl_Init\<close>: initialisation. \<open>Time_Functions\<close>, \<open>File_Times\<close>, \<open>Set_Time\<close>: the functions that tell the time, the times of files, and
    setting the clock.
  \<^item> \<open>Uthash\<close>, \<open>Uthash_Correct\<close>: the hash table of condition variables, on an explicit memory with pointers; the locale \<open>keyed_elements\<close> is
    what \<open>Pthread_Cond\<close> relies on, a map from elements to keys.
  \<^item> \<open>Sleep_Functions\<close>, \<open>Timers\<close>, \<open>Pthread_Cond\<close>, \<open>Syscall_Futex\<close>: everything that waits. The locale \<open>faked_deadline\<close> states
    once that a converted deadline is reached by the real clock exactly when \<^verbatim>\<open>fake_clock_gettime\<close> of its time reaches the requested one
    (\<open>expires_when\<close>), while the faked clock runs.
  \<^item> \<open>Random_Pid\<close>: random numbers and process ids.
  \<^item> \<open>Wrapper\<close>: the command \<^verbatim>\<open>faketime\<close>.
  \<^item> \<open>Library_Runs\<close>: any sequence of calls; the locale \<open>keeps_invariant\<close> is the contract of a call, interpreted for
    each of them. This theory: properties of the whole program.

  \<^bold>\<open>Bounds.\<close> Exact statements about sums of times assume times within some thirty million years of the epoch
  (\<open>modest\<close>, \<open>plausible\<close>), where the 64-bit seconds do not saturate; those with a clock rate state the rounding error. The hash table assumes an
  allocator that has no block of 64 gigabytes (\<open>bounded_memory\<close>) and fewer than \<open>2 ^ 32 - 1\<close> elements: its 32-bit numbers of buckets and elements grow without a check.

  \<^bold>\<open>Not modelled.\<close> The code for macOS, Android and Solaris, which is compiled out on Linux; the macros of
  the third-party header \<^verbatim>\<open>src/src/uthash.h\<close> that the program expands nowhere (sorting, selecting, replacing, other hash functions); texts printed to the terminal
  (\<^verbatim>\<open>usage\<close>, warnings, debugging output); the dynamic linker's symbol versions, apart from which function they
  select; and data races between threads of one process in the functions that the mutex of the multi-threaded build does not cover.
\<close>

section \<open>The readings of a program\<close>

text \<open>A time that leaves room for arithmetic: within some thirty million years of the epoch.\<close>

definition plausible :: "timespec \<Rightarrow> bool" where
  "plausible t \<longleftrightarrow> ts_normal t \<and> \<bar>tv_sec t\<bar> \<le> 1000000000000000"

lemma plausible_modest: "plausible t \<Longrightarrow> modest t"
  by (simp add: plausible_def modest_def)

lemma plausible_shift:
  assumes "plausible t" "\<bar>k\<bar> < 9007199254740992"
  shows "modest (timespecadd t \<lparr>tv_sec = k, tv_nsec = 0\<rparr>)"
    "ts_total (timespecadd t \<lparr>tv_sec = k, tv_nsec = 0\<rparr>) = ts_total t + k * 1000000000"
proof -
  let ?r = "timespecadd t \<lparr>tv_sec = k, tv_nsec = 0\<rparr>"
  have "in_s64 k" using assms(2) unfolding in_s64_def by linarith
  then have n: "ts_normal t" "ts_normal \<lparr>tv_sec = k, tv_nsec = 0\<rparr>" using assms by (simp_all add: plausible_def normal_def SEC_TO_nSEC_def)
  have b: "\<bar>ts_total t\<bar> \<le> 1000000000000001 * 1000000000"
    using assms(1) by (auto simp: plausible_def normal_def total_of_def SEC_TO_nSEC_def)
  have "clamp_total SEC_TO_nSEC (ts_total t + k * 1000000000) = ts_total t + k * 1000000000"
    using b assms(2) by (intro clamp_modest) (simp add: SEC_TO_nSEC_def)
  then show t: "ts_total ?r = ts_total t + k * 1000000000"
    using timespecadd_total(2) [OF n] by (simp add: total_of_def SEC_TO_nSEC_def)
  have r: "ts_normal ?r" using timespecadd_total(1) [OF n] .
  then have "tv_sec ?r * 1000000000 + tv_nsec ?r = ts_total t + k * 1000000000" "0 \<le> tv_nsec ?r" "tv_nsec ?r < 1000000000"
    using t by (simp_all add: normal_def total_of_def [of _ "(tv_sec ?r, tv_nsec ?r)"] SEC_TO_nSEC_def)
  then have "\<bar>tv_sec ?r\<bar> \<le> 1152921504606846976" using b assms(2) by linarith
  with r show "modest ?r" by (simp add: modest_def)
qed

lemma unit_seconds_pos: "0 < unit_seconds u"
  by (simp add: unit_seconds_def)

lemma signed_bound: "int n * unit_seconds u < m \<Longrightarrow> \<bar>sign_value c n * unit_seconds u\<bar> < m"
  using unit_seconds_pos [of u] by (simp add: sign_value_def abs_mult)

text \<open>A running library whose environment asks for what it has parsed already.\<close>

lemma reading_ready:
  assumes "ftpl_init_state s = FT_INIT_READY" "\<not> missing_real s ''clock_gettime''" "steady s" "lock_works s"
    and "ft_mode s = FT_START_AT" "\<not> user_per_tick_inc_set s" "\<not> user_rate_set s"
    and "clk_read s (clk_count s) CLOCK_REALTIME = Some now"
    and "modest now" "modest (st_real (ftpl_starttime s))" "modest (user_faked_time_timespec s)"
  shows "\<exists>t s'. clock_gettime CLOCK_REALTIME (Some x) s = Inr ((0, Some t), s') \<and> ts_normal t \<and>
    ts_total t = ts_total (user_faked_time_timespec s) + (ts_total now - ts_total (st_real (ftpl_starttime s)))"
proof -
  let ?s = "s\<lparr>clk_count := Suc (clk_count s)\<rparr>"
  have n: "ts_normal now" "ts_normal (start_of_clock CLOCK_REALTIME (ftpl_starttime ?s))" "ts_normal (user_faked_time_timespec ?s)"
    and m: "modest (start_of_clock CLOCK_REALTIME (ftpl_starttime ?s))"
    using assms by (simp_all add: modest_def start_of_clock_def)
  have "steady ?s" "lock_works ?s" using assms(3,4) by (simp_all add: steady_def lock_works_def getenv_def)
  from fake_clock_running [OF this _ _ _ _ n] assms(5,6) obtain s' where
    fc: "fake_clock_gettime CLOCK_REALTIME now ?s = Inr ((0, running_time CLOCK_REALTIME ?s now), s')" by auto
  have "ts_total (running_time CLOCK_REALTIME ?s now) = ts_total (user_faked_time_timespec s) + (ts_total now - ts_total (st_real (ftpl_starttime s)))"
    using running_time_modest [of now CLOCK_REALTIME ?s] assms m by (simp add: start_of_clock_def)
  moreover have "ts_normal (running_time CLOCK_REALTIME ?s now)" using n by (rule running_time_normal)
  ultimately show ?thesis
    using assms(1,2,8) fc by (simp add: clock_gettime_def clock_gettime_body_def check_missing_real_def real_clock_gettime_def fakes_clock_def)
qed

text \<open>The state that the first call of a program finds, after the initialisation.\<close>

lemma first_state:
  assumes os: "no_settings os" "call_script os = []" "lock_script os = []" "unlock_script os = []" "\<forall>n. have_symbol os n"
    and sh: "ft_shm_init 0 0 (resolved os) = Inr (r, b)" "shares os b"
    and f: "getenv ''FAKETIME'' (static_state os) = Some (c # show_nat n @ u)"
    and c: "c = CHR ''+'' \<or> c = CHR ''-''" "u \<in> {[], ''m'', ''h'', ''d'', ''y''}"
    and dp: "\<not> isdigit (decimal_point os)" "decimal_point os \<notin> set u"
    and n: "int n * unit_seconds u < 9007199254740992"
    and start: "clk_read os (clk_count os) CLOCK_REALTIME = Some start" "plausible start"
  obtains s1 where "ftpl_ready (static_state os) = Inr s1" "ftpl_init_state s1 = FT_INIT_READY" "steady s1" "lock_works s1"
    "\<not> missing_real s1 ''clock_gettime''" "ft_mode s1 = FT_START_AT" "\<not> user_per_tick_inc_set s1" "\<not> user_rate_set s1"
    "clk_read s1 = clk_read os" "clk_count s1 = clk_count os + 4"
    "st_real (ftpl_starttime s1) = start" "user_faked_time_timespec s1 = timespecadd start \<lparr>tv_sec = sign_value c n * unit_seconds u, tv_nsec = 0\<rparr>"
proof -
  let ?k = "sign_value c n * unit_seconds u"
  let ?off = "\<lparr>tv_sec = ?k, tv_nsec = 0\<rparr>" and ?f = "c # show_nat n @ u"
  note sf = started_fields [OF sh(2)]
  have st: "st_real (ftpl_starttime (started b)) = start"
    using start(1) by (simp add: sf system_time_readings reading_def static_state_fields)
  define s1 where "s1 = (started b)\<lparr>parse_config_file := False, ft_mode := FT_START_AT, user_offset := ?off,
    user_faked_time_timespec := timespecadd start ?off, user_faked_time_saved := take 255 ?f, dont_fake := False, ftpl_init_state := FT_INIT_READY\<rparr>"
  let ?p = "(started b)\<lparr>parse_config_file := False\<rparr>"
  have "parse_ft_string ?f ?p = Inr (?p\<lparr>ft_mode := FT_START_AT, user_offset := ?off,
      user_faked_time_timespec := timespecadd (st_real (ftpl_starttime ?p)) ?off, user_faked_time_saved := take 255 ?f\<rparr>)"
    by (rule parse_offset_state [OF c _ _ n]) (use dp in \<open>simp_all add: sf\<close>)
  then have "ftpl_really_init (starting os) = Inr (s1\<lparr>ftpl_init_state := ftpl_init_state (started b)\<rparr>)"
    using init_from_shares [OF os(1-4) sh f] by (simp add: s1_def st)
  from ftpl_cell.once_uninitialized [where init = ftpl_really_init and s = "static_state os", OF _ this, of 0 0]
  have "ftpl_ready (static_state os) = Inr (s1\<lparr>ftpl_init_state := FT_INIT_READY\<rparr>)"
    by (simp add: ftpl_ready_def ftpl_init_def static_state_def)
  then have i: "ftpl_ready (static_state os) = Inr s1" by (simp add: s1_def)
  have f': "getenv ''FAKETIME'' s1 = Some ?f" using f sf(10) by (simp add: s1_def getenv_def)
  show thesis
  proof (rule that [OF i])
    show "steady s1" using c(1) f' by (auto simp: steady_def s1_def sf)
    show "\<not> missing_real s1 ''clock_gettime''"
      using resolved_all [of "starting os" "''clock_gettime''"] os(5) no_settings_env [OF os(1)]
      by (simp add: s1_def sf resolved_def getenv_def static_state_fields real_symbols_def)
  qed (use sf(4) [OF os(3,4)] in \<open>simp_all add: s1_def sf(1-15) st lock_works_def\<close>)
qed

text \<open>
  A program that calls \<^verbatim>\<open>clock_gettime\<close> again and again: an entry is the clock it asks for, and by how many readings
  the clocks of the system have moved on before the next call.
\<close>

fun clock_calls :: "timespec \<Rightarrow> (int \<times> nat) list \<Rightarrow> ft_state \<Rightarrow> ((int \<times> timespec option) list \<times> ft_state) exitable" where
  "clock_calls x [] s = Inr ([], s)"
| "clock_calls x ((clk, d) # cs) s =
    exit_bind (clock_gettime clk (Some x) s) (\<lambda>(r, s).
    exit_bind (clock_calls x cs (s\<lparr>clk_count := clk_count s + d\<rparr>)) (\<lambda>(rs, s). Inr (r # rs, s)))"

text \<open>A running library that shows the times of the system \<open>os\<close> shifted by \<open>k\<close> seconds.\<close>

definition shows_offset :: "os_state \<Rightarrow> timespec \<Rightarrow> int \<Rightarrow> ft_state \<Rightarrow> bool" where
  "shows_offset os start k s \<longleftrightarrow> ftpl_init_state s = FT_INIT_READY \<and> \<not> missing_real s ''clock_gettime'' \<and> steady s \<and> lock_works s \<and>
     ft_mode s = FT_START_AT \<and> \<not> user_per_tick_inc_set s \<and> \<not> user_rate_set s \<and> clk_read s = clk_read os \<and>
     st_real (ftpl_starttime s) = start \<and> user_faked_time_timespec s = timespecadd start \<lparr>tv_sec = k, tv_nsec = 0\<rparr>"

lemma shows_offset_moment [simp]: "shows_offset os start k (s\<lparr>clk_count := n\<rparr>) = shows_offset os start k s"
  by (simp add: shows_offset_def steady_def lock_works_def getenv_def)

lemma shows_offset_errno [simp]: "shows_offset os start k (s\<lparr>errno := e\<rparr>) = shows_offset os start k s"
  by (simp add: shows_offset_def steady_def lock_works_def getenv_def)

lemma shows_offset_frame:
  assumes "clock_frame s s'" "shows_offset os start k s"
  shows "shows_offset os start k s'"
proof -
  have e: "erase_clock s' = erase_clock s" using assms(1) by (simp add: clock_frame_def)
  then have "ftpl_init_state s' = ftpl_init_state s" "missing_real s' = missing_real s" by (cases s; cases s'; simp add: erase_clock_def)+
  moreover have "lock_works s'" using assms by (simp add: clock_frame_def shows_offset_def)
  ultimately show ?thesis
    using assms(2) steady_frame [OF assms(1)] clock_frame_fields [OF assms(1)] erase_clock_fields(2) [OF e] by (simp add: shows_offset_def)
qed

lemma shows_offset_call:
  assumes "shows_offset os start k s"
  shows "\<exists>r s'. clock_gettime clk (Some x) s = Inr (r, s') \<and> shows_offset os start k s'"
proof -
  obtain r t e where rt: "real_clock_gettime clk x s = ((r, t), s\<lparr>clk_count := Suc (clk_count s), errno := e\<rparr>)"
    by (rule real_clock_gettime_cases)
  let ?s = "s\<lparr>clk_count := Suc (clk_count s), errno := e\<rparr>"
  have o: "shows_offset os start k ?s" using assms by simp
  then have "\<exists>r' s'. fake_clock_gettime clk t ?s = Inr (r', s') \<and> clock_frame ?s s'"
    unfolding shows_offset_def by (intro fake_clock_keeps_frame) blast+
  then obtain r' t' s' where f: "fake_clock_gettime clk t ?s = Inr ((r', t'), s')" "clock_frame ?s s'" by (metis surj_pair)
  have b: "clock_gettime clk (Some x) s = (if r \<noteq> - 1 \<and> fakes_clock clk ?s then Inr ((r', Some t'), s') else Inr ((r, Some t), ?s))"
    using assms f(1) by (simp add: shows_offset_def clock_gettime_def clock_gettime_body_def check_missing_real_def rt)
  show ?thesis using o shows_offset_frame [OF f(2) o] unfolding b by auto
qed

lemma shows_offset_calls: "shows_offset os start k s \<Longrightarrow> \<exists>rs s'. clock_calls x cs s = Inr (rs, s') \<and> shows_offset os start k s'"
proof (induction cs arbitrary: s)
  case (Cons c cs)
  obtain clk d where c: "c = (clk, d)" by force
  obtain r s1 where r: "clock_gettime clk (Some x) s = Inr (r, s1)" "shows_offset os start k s1"
    using shows_offset_call [OF Cons.prems] by blast
  from r(2) have "shows_offset os start k (s1\<lparr>clk_count := clk_count s1 + d\<rparr>)" by simp
  from Cons.IH [OF this] r(1) show ?case by (auto simp: c)
qed simp

lemma shows_offset_reading:
  assumes "shows_offset os start k s" "plausible start" "\<bar>k\<bar> < 9007199254740992"
    and "clk_read os (clk_count s) CLOCK_REALTIME = Some now" "plausible now"
  shows "\<exists>t s'. clock_gettime CLOCK_REALTIME (Some x) s = Inr ((0, Some t), s') \<and> ts_normal t \<and> ts_total t = ts_total now + k * 1000000000"
proof -
  note ps = plausible_shift [OF assms(2,3)]
  have "\<exists>t s'. clock_gettime CLOCK_REALTIME (Some x) s = Inr ((0, Some t), s') \<and> ts_normal t \<and>
      ts_total t = ts_total (user_faked_time_timespec s) + (ts_total now - ts_total (st_real (ftpl_starttime s)))"
    using assms ps(1) by (intro reading_ready) (simp_all add: shows_offset_def plausible_modest)
  then show ?thesis using assms(1) ps(2) by (simp add: shows_offset_def add.commute)
qed

text \<open>The initialisation is part of the first call: it reads the four clocks before that call does.\<close>

definition next_moment :: "(int \<times> nat) list \<Rightarrow> ft_state \<Rightarrow> nat" where
  "next_moment cs s = (if cs = [] then clk_count s + 4 else clk_count s)"

lemma all_readings:
  assumes os: "no_settings os" "call_script os = []" "lock_script os = []" "unlock_script os = []" "\<forall>n. have_symbol os n"
    and sh: "ft_shm_init 0 0 (resolved os) = Inr (r, b)" "shares os b"
    and f: "getenv ''FAKETIME'' (static_state os) = Some (c # show_nat n @ u)"
    and c: "c = CHR ''+'' \<or> c = CHR ''-''" "u \<in> {[], ''m'', ''h'', ''d'', ''y''}"
    and dp: "\<not> isdigit (decimal_point os)" "decimal_point os \<notin> set u"
    and n: "int n * unit_seconds u < 9007199254740992"
    and start: "clk_read os (clk_count os) CLOCK_REALTIME = Some start" "plausible start"
  shows "\<exists>rs s. clock_calls x cs (static_state os) = Inr (rs, s) \<and>
    (\<forall>now. clk_read os (next_moment cs s) CLOCK_REALTIME = Some now \<and> plausible now \<longrightarrow>
      (\<exists>t s'. clock_gettime CLOCK_REALTIME (Some x) s = Inr ((0, Some t), s') \<and> ts_normal t \<and>
         ts_total t = ts_total now + sign_value c n * unit_seconds u * 1000000000))"
proof -
  let ?k = "sign_value c n * unit_seconds u"
  obtain s1 where i: "ftpl_ready (static_state os) = Inr s1" "ftpl_init_state s1 = FT_INIT_READY"
    and s1: "steady s1" "lock_works s1" "\<not> missing_real s1 ''clock_gettime''" "ft_mode s1 = FT_START_AT" "\<not> user_per_tick_inc_set s1" "\<not> user_rate_set s1"
    and r: "clk_read s1 = clk_read os" "clk_count s1 = clk_count os + 4"
    and b: "st_real (ftpl_starttime s1) = start" "user_faked_time_timespec s1 = timespecadd start \<lparr>tv_sec = ?k, tv_nsec = 0\<rparr>"
    using first_state [OF os sh f c dp n start] .
  have so: "shows_offset os start ?k s1" using i s1 r b by (simp add: shows_offset_def)
  have g: "clock_gettime clk y (static_state os) = clock_gettime clk y s1" for clk y by (simp add: clock_gettime_def i)
  note rd = shows_offset_reading [OF _ start(2) signed_bound [OF n, of c], of os]
  show ?thesis
  proof (cases cs)
    case Nil
    then show ?thesis using rd [OF so] by (simp add: g r next_moment_def static_state_fields)
  next
    case (Cons a as)
    then have "clock_calls x cs (static_state os) = clock_calls x cs s1" by (cases a) (simp add: g)
    with shows_offset_calls [OF so, of x cs] obtain rs s where s: "clock_calls x cs (static_state os) = Inr (rs, s)" "shows_offset os start ?k s" by auto
    with Cons rd [OF s(2)] show ?thesis by (auto simp: next_moment_def)
  qed
qed

text \<open>
  A process that is started from the state \<open>t\<close> of its parent: its environment and the objects of the
  system are those its parent left, no call of it fails, and the library finds every real function.
\<close>

definition child_of :: "ft_state \<Rightarrow> os_state \<Rightarrow> bool" where
  "child_of t os \<longleftrightarrow> environ os = environ t \<and> lock_files os = lock_files t \<and> shm_objs os = shm_objs t \<and>
     call_script os = [] \<and> lock_script os = [] \<and> unlock_script os = [] \<and> \<not> sem_held os \<and> (\<forall>n. have_symbol os n) \<and>
     \<not> isdigit (decimal_point os)"

lemma launched_child:
  assumes w: "calls_work u" and env: "\<forall>n \<in> set (''FAKETIME_FLSHM'' # other_settings). map_of (environ u) n = None" and ch: "child_of (launched mt u) os"
  shows "no_settings os" "can_attach (self_pid u) new_shared ((static_state os)\<lparr>missing_real := \<lambda>_. False\<rparr>)"
    "getenv ''FAKETIME'' (static_state os) = getenv ''FAKETIME'' u"
proof -
  have e: "getenv n (static_state os) = (if n = ''LD_PRELOAD'' then map_of (environ (launched mt u)) n
      else if n = ''FAKETIME_SHARED'' then Some (shared_env_of (self_pid u)) else map_of (environ u) n)" for n
    using ch by (simp add: child_of_def getenv_def static_state_fields launched_fields update_conv)
  have "''LD_PRELOAD'' \<notin> set other_settings" "''FAKETIME_SHARED'' \<notin> set other_settings" by (simp_all add: other_settings_def)
  then show "no_settings os" using env by (auto simp: no_settings_def list_all_iff e)
  show "getenv ''FAKETIME'' (static_state os) = getenv ''FAKETIME'' u" by (simp add: e) (simp add: getenv_def)
  have o: "lock_files os = lock_path_of (self_pid u) # lock_files u" "shm_objs os = shm_objs u @ [(shm_name_of (self_pid u), sizeof_ft_shared_s, new_shared)]"
    "call_script os = []"
    using ch launched_fields(2) [of mt u] by (simp_all add: child_of_def objects_of_def with_pair_def)
  have "getenv ''FAKETIME_FLSHM'' (static_state os) = None" "getenv ''FAKETIME_SHARED'' (static_state os) = Some (shared_env_of (self_pid u))"
    using env by (simp_all add: e)
  then show "can_attach (self_pid u) new_shared ((static_state os)\<lparr>missing_real := \<lambda>_. False\<rparr>)"
    using w new_shared_valid by (simp add: can_attach_def getenv_def calls_work_def no_pair_def objects_of_def)
      (simp add: static_state_def o map_add_def)
qed

text \<open>A program that is started with an offset of minus two days, for examples.\<close>

definition minus_two_days :: os_state where
  "minus_two_days = sample_os\<lparr>environ := [(''FAKETIME'', ''-2d'')],
     clk_read := \<lambda>n clk. Some \<lparr>tv_sec = (if n < 10 then 1000 + int n else 5000), tv_nsec = 0\<rparr>\<rparr>"

lemma sample_request:
  defines "os \<equiv> minus_two_days"
  shows "no_settings os" "fresh_process ((static_state os)\<lparr>missing_real := \<lambda>_. False\<rparr>)" "\<forall>n. have_symbol os n"
    "getenv ''FAKETIME'' (static_state os) = Some (CHR ''-'' # show_nat 2 @ ''d'')"
    "\<not> isdigit (decimal_point os)" "decimal_point os \<notin> set ''d''" "int 2 * unit_seconds ''d'' < 9007199254740992"
    "clk_read os (clk_count os) CLOCK_REALTIME = Some \<lparr>tv_sec = 1000, tv_nsec = 0\<rparr>"
    "clk_read os (clk_count os + 4) CLOCK_REALTIME = Some \<lparr>tv_sec = 1004, tv_nsec = 0\<rparr>"
    "plausible \<lparr>tv_sec = 1000, tv_nsec = 0\<rparr>" "plausible \<lparr>tv_sec = 1004, tv_nsec = 0\<rparr>"
proof -
  have s2: "show_nat 2 = ''2''" by code_simp
  show "no_settings os" "fresh_process ((static_state os)\<lparr>missing_real := \<lambda>_. False\<rparr>)" "\<forall>n. have_symbol os n"
    "getenv ''FAKETIME'' (static_state os) = Some (CHR ''-'' # show_nat 2 @ ''d'')"
    unfolding os_def minus_two_days_def
    by (simp_all add: no_settings_def other_settings_def fresh_process_def getenv_def static_state_fields pid_ok_def s2)
      (simp_all add: static_defs)
qed (simp_all add: os_def minus_two_days_def sample_os_def isdigit_def char_code_def unit_seconds_def plausible_def normal_def in_s64_def SEC_TO_nSEC_def)

section \<open>Properties of the whole program\<close>

text \<open>
  Claim C1.
  A program started with the library preloaded and an offset in \<^verbatim>\<open>FAKETIME\<close>, written with a sign and one of
  the units, sees the real time shifted by exactly that offset: in its first call of \<^verbatim>\<open>clock_gettime\<close>, and in every later one,
  whatever calls of \<^verbatim>\<open>clock_gettime\<close> it has made before, on any clocks and with any time between them; all of them return.
  Through the creation of the shared memory, the initialisation, the parsing of the
  request, the refreshing of the configuration and the arithmetic of times nothing is lost.
\<close>

theorem preloaded_program_sees_offset:
  assumes "no_settings os" "fresh_process ((static_state os)\<lparr>missing_real := \<lambda>_. False\<rparr>)" "\<forall>n. have_symbol os n"
    and "getenv ''FAKETIME'' (static_state os) = Some (c # show_nat n @ u)"
    and "c = CHR ''+'' \<or> c = CHR ''-''" "u \<in> {[], ''m'', ''h'', ''d'', ''y''}"
    and "\<not> isdigit (decimal_point os)" "decimal_point os \<notin> set u" "int n * unit_seconds u < 9007199254740992"
    and "clk_read os (clk_count os) CLOCK_REALTIME = Some start" "plausible start"
  shows "\<exists>rs s. clock_calls x calls (static_state os) = Inr (rs, s) \<and>
    (\<forall>now. clk_read os (next_moment calls s) CLOCK_REALTIME = Some now \<and> plausible now \<longrightarrow>
      (\<exists>t s'. clock_gettime CLOCK_REALTIME (Some x) s = Inr ((0, Some t), s') \<and> ts_normal t \<and>
         ts_total t = ts_total now + sign_value c n * unit_seconds u * 1000000000))"
proof -
  obtain r b where sh: "ft_shm_init 0 0 (resolved os) = Inr (r, b)" "shares os b" using shares_created [OF assms(1-3)] by blast
  have "call_script os = []" "lock_script os = []" "unlock_script os = []"
    using assms(2) by (simp_all add: fresh_process_def static_state_fields)
  from all_readings [OF assms(1) this assms(3) sh assms(4-11)] show ?thesis .
qed

text \<open>An example: the first call on the monotonic clock, and after some time one on the real-time clock.\<close>

theorem preloaded_program_sees_offset_witness:
  "\<exists>t s' rs u t' u'. clock_gettime CLOCK_REALTIME (Some unset_time) (static_state minus_two_days) = Inr ((0, Some t), s') \<and>
     ts_total t = (1004 - 172800) * 1000000000 \<and>
     clock_calls unset_time [(CLOCK_MONOTONIC, 10)] (static_state minus_two_days) = Inr (rs, u) \<and>
     clock_gettime CLOCK_REALTIME (Some unset_time) u = Inr ((0, Some t'), u') \<and> ts_total t' = (5000 - 172800) * 1000000000"
proof -
  let ?off = "sign_value (CHR ''-'') 2 * unit_seconds ''d'' * 1000000000"
  have k: "?off = - 172800 * 1000000000" by (simp add: sign_value_def unit_seconds_def)
  note th = preloaded_program_sees_offset [OF sample_request(1-4) disjI2 [OF refl] _ sample_request(5-8,10), of unset_time]
  obtain t s' where t: "clock_gettime CLOCK_REALTIME (Some unset_time) (static_state minus_two_days) = Inr ((0, Some t), s')"
    "ts_total t = ts_total \<lparr>tv_sec = 1004, tv_nsec = 0\<rparr> + ?off"
    using th [of "[]"] sample_request(9,11) by (auto simp: next_moment_def static_state_fields)
  obtain rs u where u: "clock_calls unset_time [(CLOCK_MONOTONIC, 10)] (static_state minus_two_days) = Inr (rs, u)"
    and r: "\<And>now. clk_read minus_two_days (clk_count u) CLOCK_REALTIME = Some now \<Longrightarrow> plausible now \<Longrightarrow>
      \<exists>t u'. clock_gettime CLOCK_REALTIME (Some unset_time) u = Inr ((0, Some t), u') \<and> ts_total t = ts_total now + ?off"
    using th [of "[(CLOCK_MONOTONIC, 10)]"] unfolding next_moment_def by simp blast
  have "10 \<le> clk_count u" using u by (auto simp: exit_bind_eq_Inr)
  then have "clk_read minus_two_days (clk_count u) CLOCK_REALTIME = Some \<lparr>tv_sec = 5000, tv_nsec = 0\<rparr>" by (simp add: minus_two_days_def)
  moreover have "plausible \<lparr>tv_sec = 5000, tv_nsec = 0\<rparr>" by (simp add: plausible_def normal_def in_s64_def SEC_TO_nSEC_def)
  ultimately obtain t' u' where "clock_gettime CLOCK_REALTIME (Some unset_time) u = Inr ((0, Some t'), u')"
    "ts_total t' = ts_total \<lparr>tv_sec = 5000, tv_nsec = 0\<rparr> + ?off" using r by blast
  then show ?thesis using t u unfolding k by (auto simp: total_of_def SEC_TO_nSEC_def)
qed

text \<open>
  Claim C2.
  From the command line to the clock. \<^verbatim>\<open>faketime TIMESTAMP COMMAND\<close> asks the \<^verbatim>\<open>date\<close> program for the
  timestamp; when that prints the seconds D at the real time t0, the command is set up and every process it starts
  that inherits the environment sees, in its first call of \<^verbatim>\<open>clock_gettime\<close> and in every later one, the real time plus
  D - t0: D at the moment of the command, running on at the speed of the real clock.
\<close>

theorem faketime_command_shows_date:
  assumes "calls_work s" "timestamp \<notin> set switch_words" "date_runs P default_opts"
    and "date_program P [''date'', ''-d'', timestamp, ''+%s''] (without_preload (environ s)) = run"
    and "only_interrupted (cr_output run)" "cr_status run = Exited 0" "event_bytes (cr_output run) = show_int D @ [CHR 0x0A]" "in_s64 D"
    and "clk_read s (clk_count s) CLOCK_REALTIME = Some t0" "\<bar>D - tv_sec t0\<bar> < 9007199254740992"
    and "\<forall>n \<in> set (''FAKETIME_FLSHM'' # other_settings). map_of (environ s) n = None"
  shows "\<exists>objs t. wrapper_setup P (timestamp # cmd # args) s = Inr (objs, cmd # args, t) \<and>
    (\<forall>os start x calls. child_of t os \<and> clk_read os (clk_count os) CLOCK_REALTIME = Some start \<and> plausible start \<longrightarrow>
       (\<exists>rs u. clock_calls x calls (static_state os) = Inr (rs, u) \<and>
         (\<forall>now. clk_read os (next_moment calls u) CLOCK_REALTIME = Some now \<and> plausible now \<longrightarrow>
           (\<exists>r u'. clock_gettime CLOCK_REALTIME (Some x) u = Inr ((0, Some r), u') \<and>
              ts_total r = ts_total now + (D - tv_sec t0) * 1000000000))))"
proof -
  let ?k = "D - tv_sec t0"
  let ?u = "setenv ''FAKETIME'' (offset_text ?k) (s\<lparr>clk_count := Suc (clk_count s)\<rparr>)"
  have c: "call_script s = []" using assms(1) by (simp add: calls_work_def)
  have k: "in_s64 ?k" using assms(10) unfolding in_s64_def by linarith
  have "length (show_int D @ [CHR 0x0A]) \<le> 255" using s64_length [OF assms(8)] by (auto simp: show_int_def)
  then have "request_from_date P default_opts timestamp s = Inr ?u"
    using request_from_date_runs [OF c assms(3), of timestamp run] assms(4-7) request_offset_seconds [OF c assms(8,9) k]
    by (simp add: default_opts_def)
  then have r: "set_request P default_opts timestamp s = Inr ?u"
    using c by (simp add: set_request_def default_opts_def setenv_def)
  have w: "calls_work ?u" using assms(1) by (simp add: calls_work_def setenv_def objects_of_def)
  have up: "wrapper_setup P (timestamp # cmd # args) s =
      Inr ((sem_name_of (self_pid ?u), shm_name_of (self_pid ?u)), cmd # args, launched (use_mt default_opts) ?u)"
    by (rule setup_works [OF parse_switches_end [OF assms(2)] _ _ r w]) (simp_all add: default_opts_def)
  have env: "\<forall>n \<in> set (''FAKETIME_FLSHM'' # other_settings). map_of (environ ?u) n = None"
    using assms(11) by (simp add: setenv_def update_conv other_settings_def)
  have "\<exists>rs u. clock_calls x calls (static_state os) = Inr (rs, u) \<and>
      (\<forall>now. clk_read os (next_moment calls u) CLOCK_REALTIME = Some now \<and> plausible now \<longrightarrow>
        (\<exists>r u'. clock_gettime CLOCK_REALTIME (Some x) u = Inr ((0, Some r), u') \<and> ts_total r = ts_total now + ?k * 1000000000))"
    if os: "child_of (launched (use_mt default_opts) ?u) os"
      and rd: "clk_read os (clk_count os) CLOCK_REALTIME = Some start" "plausible start" for os start x calls
  proof -
    note lc = launched_child [OF w env os]
    have o: "call_script os = []" "lock_script os = []" "unlock_script os = []" "\<forall>n. have_symbol os n" "\<not> sem_held os" "\<not> isdigit (decimal_point os)"
      using os by (simp_all add: child_of_def)
    obtain r b where sh: "ft_shm_init 0 0 (resolved os) = Inr (r, b)" "shares os b" using shares_attached [OF lc(1,2) o(4,5)] by blast
    let ?c = "if ?k \<ge> 0 then CHR ''+'' else CHR ''-''" and ?n = "nat \<bar>?k\<bar>"
    have f: "getenv ''FAKETIME'' (static_state os) = Some (?c # show_nat ?n @ [])"
      using lc(3) by (simp add: getenv_setenv offset_text_def)
    have n: "int ?n * unit_seconds [] < 9007199254740992" and sg: "sign_value ?c ?n * unit_seconds [] = ?k"
      using assms(10) by (simp_all add: unit_seconds_def sign_value_def)
    have c: "?c = CHR ''+'' \<or> ?c = CHR ''-''" "[] \<in> {[], ''m'', ''h'', ''d'', ''y''}" "decimal_point os \<notin> set []" by simp_all
    from all_readings [OF lc(1) o(1-4) sh f c(1,2) o(6) c(3) n rd, of x calls] show ?thesis unfolding sg by blast
  qed
  then show ?thesis using up by blast
qed

theorem faketime_command_shows_date_witness:
  "\<exists>objs t r s'. wrapper_setup sample_programs [''last friday'', ''ls''] (static_state sample_os) = Inr (objs, [''ls''], t) \<and>
     clock_gettime CLOCK_REALTIME (Some unset_time)
       (static_state (sample_os\<lparr>environ := environ t, lock_files := lock_files t, shm_objs := shm_objs t, clk_count := 1\<rparr>)) = Inr ((0, Some r), s') \<and>
     ts_total r = 1505000000000"
proof -
  let ?s = "static_state sample_os" and ?run = "\<lparr>cr_output = Read_Error EINTR # map Byte ''1500'' @ [Byte (CHR 0x0A)], cr_status = Exited 0\<rparr>"
  have a: "''last friday'' \<notin> set switch_words" "date_runs sample_programs default_opts"
    "date_program sample_programs [''date'', ''-d'', ''last friday'', ''+%s''] (without_preload (environ ?s)) = ?run"
    "only_interrupted (cr_output ?run)" "cr_status ?run = Exited 0"
    by (simp_all add: switch_words_def sample_programs_def date_runs_def only_interrupted_def)
  have b: "event_bytes (cr_output ?run) = show_int 1500 @ [CHR 0x0A]" by code_simp
  have c: "in_s64 1500" "clk_read ?s (clk_count ?s) CLOCK_REALTIME = Some \<lparr>tv_sec = 1000, tv_nsec = 0\<rparr>"
    "\<bar>1500 - tv_sec \<lparr>tv_sec = 1000, tv_nsec = 0\<rparr>\<bar> < 9007199254740992"
    "\<forall>n \<in> set (''FAKETIME_FLSHM'' # other_settings). map_of (environ ?s) n = None"
    by (simp_all add: in_s64_def static_state_fields) (simp_all add: sample_os_def other_settings_def)
  obtain objs t where t: "wrapper_setup sample_programs [''last friday'', ''ls''] ?s = Inr (objs, [''ls''], t)"
    and all: "\<forall>os start x calls. child_of t os \<and> clk_read os (clk_count os) CLOCK_REALTIME = Some start \<and> plausible start \<longrightarrow>
       (\<exists>rs u. clock_calls x calls (static_state os) = Inr (rs, u) \<and>
         (\<forall>now. clk_read os (next_moment calls u) CLOCK_REALTIME = Some now \<and> plausible now \<longrightarrow>
           (\<exists>r u'. clock_gettime CLOCK_REALTIME (Some x) u = Inr ((0, Some r), u') \<and>
              ts_total r = ts_total now + (1500 - tv_sec \<lparr>tv_sec = 1000, tv_nsec = 0\<rparr>) * 1000000000)))"
    using faketime_command_shows_date [OF sample_works a b c, of "''ls''" "[]"] by blast
  let ?os = "sample_os\<lparr>environ := environ t, lock_files := lock_files t, shm_objs := shm_objs t, clk_count := 1\<rparr>"
  have "child_of t ?os" by (simp add: child_of_def sample_os_def isdigit_def char_code_def)
  moreover have "clk_read ?os (clk_count ?os) CLOCK_REALTIME = Some \<lparr>tv_sec = 1001, tv_nsec = 0\<rparr>"
    "clk_read ?os (clk_count ?os + 4) CLOCK_REALTIME = Some \<lparr>tv_sec = 1005, tv_nsec = 0\<rparr>" by (simp_all add: sample_os_def)
  moreover have "plausible \<lparr>tv_sec = 1001, tv_nsec = 0\<rparr>" "plausible \<lparr>tv_sec = 1005, tv_nsec = 0\<rparr>"
    by (simp_all add: plausible_def normal_def in_s64_def SEC_TO_nSEC_def)
  ultimately show ?thesis
    using t all [rule_format, of ?os "\<lparr>tv_sec = 1001, tv_nsec = 0\<rparr>" unset_time "[]"]
    by (auto simp: next_moment_def static_state_fields total_of_def SEC_TO_nSEC_def)
qed

text \<open>
  Claim C4.
  Every reading is a proper \<^verbatim>\<open>struct timespec\<close>: in any state the program reaches, whatever the request (an offset, a
  rate of any size, an increment, a frozen time, replayed timestamps) and on every clock, what \<^verbatim>\<open>clock_gettime\<close> stores has its
  nanoseconds between 0 and 999999999, provided the system's own readings have.
\<close>

theorem readings_are_timespecs:
  assumes "reachable os s" "\<not> sem_held os" "ftpl_init_state s = FT_INIT_READY"
    and "\<forall>t. clk_read s (clk_count s) clk = Some t \<longrightarrow> 0 \<le> tv_nsec t \<and> tv_nsec t < 1000000000"
    and "clock_gettime clk (Some x) s = Inr ((0, Some t), s')"
  shows "0 \<le> tv_nsec t \<and> tv_nsec t < 1000000000"
proof -
  have inv: "ft_inv s" using assms(1,2) by (rule reachable_inv)
  show ?thesis
  proof (cases "clk_read s (clk_count s) clk")
    case None
    then show ?thesis using assms(3,5)
      by (auto simp: clock_gettime_def clock_gettime_body_def check_missing_real_def real_clock_gettime_def split: if_splits)
  next
    case (Some now)
    let ?s = "s\<lparr>clk_count := Suc (clk_count s)\<rparr>"
    have n: "nsec_ok now" using assms(4) Some by (simp add: nsec_ok_def)
    have f: "returns (fake_clock_gettime clk now ?s) (\<lambda>((r, t), s'). nsec_ok t)" using inv n by (intro fake_clock_nsec) simp_all
    show ?thesis
    proof (cases "fakes_clock clk ?s")
      case True
      then obtain r where "fake_clock_gettime clk now ?s = Inr ((r, t), s')"
        using assms(3,5) Some
        by (auto simp: clock_gettime_def clock_gettime_body_def check_missing_real_def real_clock_gettime_def exit_bind_eq_Inr split: if_splits)
      with f show ?thesis by (simp add: nsec_ok_def)
    next
      case False
      then show ?thesis
        using assms(3,5) Some n
        by (auto simp: clock_gettime_def clock_gettime_body_def check_missing_real_def real_clock_gettime_def nsec_ok_def split: if_splits)
    qed
  qed
qed

theorem readings_are_timespecs_witness:
  "\<exists>s t s'. reachable minus_two_days s \<and>
     clock_gettime CLOCK_REALTIME (Some unset_time) s = Inr ((0, Some t), s') \<and> 0 \<le> tv_nsec t \<and> tv_nsec t < 1000000000"
proof -
  let ?os = minus_two_days
  note a = sample_request
  obtain r b where sh: "ft_shm_init 0 0 (resolved ?os) = Inr (r, b)" "shares ?os b" using shares_created [OF a(1-3)] by blast
  obtain s1 where i: "ftpl_ready (static_state ?os) = Inr s1" "ftpl_init_state s1 = FT_INIT_READY"
    and s1: "steady s1" "lock_works s1" "\<not> missing_real s1 ''clock_gettime''" "ft_mode s1 = FT_START_AT" "\<not> user_per_tick_inc_set s1" "\<not> user_rate_set s1"
    and r: "clk_read s1 = clk_read ?os" "clk_count s1 = clk_count ?os + 4"
    and b: "st_real (ftpl_starttime s1) = \<lparr>tv_sec = 1000, tv_nsec = 0\<rparr>"
      "user_faked_time_timespec s1 = timespecadd \<lparr>tv_sec = 1000, tv_nsec = 0\<rparr> \<lparr>tv_sec = sign_value (CHR ''-'') 2 * unit_seconds ''d'', tv_nsec = 0\<rparr>"
    using first_state [OF a(1) _ _ _ a(3) sh a(4) _ _ a(5-8,10)] by (auto simp: minus_two_days_def sample_os_def)
  have "lib_step (static_state ?os) s1"
    using lib_step.call [of "Call_nanosleep (\<lambda>q r. (0, r)) None None" "static_state ?os" s1] i(1)
    by (simp add: effect_def ft_nanosleep_def)
  then have re: "reachable ?os s1" by (rule reachable.step [OF reachable.start])
  have "modest (user_faked_time_timespec s1)" unfolding b using a(10) signed_bound [OF a(7)] by (rule plausible_shift(1))
  then obtain t s' where t: "clock_gettime CLOCK_REALTIME (Some unset_time) s1 = Inr ((0, Some t), s')"
    using reading_ready [OF i(2) s1(3,1,2,4-6), of "\<lparr>tv_sec = 1004, tv_nsec = 0\<rparr>" unset_time] a(9-11) b(1) r by (auto simp: plausible_modest)
  have "\<not> sem_held ?os" by (simp add: minus_two_days_def sample_os_def)
  moreover have "\<forall>t. clk_read s1 (clk_count s1) CLOCK_REALTIME = Some t \<longrightarrow> 0 \<le> tv_nsec t \<and> tv_nsec t < 1000000000"
    by (simp add: r minus_two_days_def)
  ultimately show ?thesis using readings_are_timespecs [OF re _ i(2) _ t] re t by blast
qed

end
